(* ===== verification/Shell_Prelude.thy ===== *)
theory Shell_Prelude
  imports Main "HOL-Library.Word"
begin

text \<open>
  Shared vocabulary of the smallsh model (src/smallsh.c): the machine types the
  C code uses (process identifiers, the \<open>int\<close> status word filled by \<open>waitpid\<close>),
  the result type of a shell operation (a new state, a process exit, undefined
  behaviour, or a call that never returns), decimal printing as \<open>printf("%d")\<close>
  does it, and the generic lemmas the component theories share.
\<close>

section \<open>Machine types\<close>

type_synonym pid = int
  \<comment> \<open>\<open>pid_t\<close>; \<open>-1\<close> is the error return of \<open>waitpid\<close> and \<open>fork\<close>\<close>

type_synonym wstatus = "32 word"
  \<comment> \<open>the \<open>int childExitMethod\<close> status word, bit for bit\<close>

abbreviation NL :: char where
  "NL \<equiv> CHR 0x0A"

named_theorems shell_simps \<open>evaluation rules of the shell model\<close>

section \<open>Results of a shell operation\<close>

text \<open>
  The C code ends an operation in four ways: it returns (with the updated state),
  it calls \<open>exit(n)\<close> (the terminal output so far is kept), it does something whose
  behaviour C leaves undefined (a NULL dereference, a write past a buffer), or it
  never returns (a loop that does not end, a blocking call that never comes back).
\<close>

datatype fault =
    Null_deref          \<comment> \<open>\<open>strcmp\<close> or \<open>strcpy\<close> on a NULL pointer\<close>
  | Token_overflow      \<comment> \<open>\<open>strcpy\<close>/\<open>strcat\<close> past the 50-byte token buffer\<close>
  | Post_overflow       \<comment> \<open>\<open>strcpy\<close> past the 40-byte \<open>post\<close> buffer of \<open>expandPID\<close>\<close>
  | Argv_overflow       \<comment> \<open>more than \<open>MAXARGS\<close> tokens in \<open>userCmds\<close>\<close>
  | Pid_array_overflow  \<comment> \<open>a 51st entry in \<open>pid_t pidArray[50]\<close>\<close>
  | Negative_index      \<comment> \<open>a write or read at index \<open>-1\<close>\<close>
  | Over_read           \<comment> \<open>\<open>write\<close> of more bytes than the buffer holds\<close>
  | Double_free         \<comment> \<open>\<open>free\<close> of a block that is not allocated\<close>
  | Use_after_free      \<comment> \<open>a read through a pointer to a freed block\<close>

datatype 'a res =
    Ok 'a
  | Exit int string  \<comment> \<open>\<open>exit(n)\<close>, with everything written to the terminal\<close>
  | UB fault
  | Hang             \<comment> \<open>the call never returns\<close>

fun res_bind :: "'a res \<Rightarrow> ('a \<Rightarrow> 'b res) \<Rightarrow> 'b res" where
  "res_bind (Ok a) f = f a"
| "res_bind (Exit n out) f = Exit n out"
| "res_bind (UB e) f = UB e"
| "res_bind Hang f = Hang"

fun res_of_option :: "'a option \<Rightarrow> 'a res" where
  "res_of_option None = Hang"
| "res_of_option (Some a) = Ok a"

fun res_of_sum :: "fault + 'a \<Rightarrow> 'a res" where
  "res_of_sum (Inl e) = UB e"
| "res_of_sum (Inr a) = Ok a"

fun res_map :: "('a \<Rightarrow> 'b) \<Rightarrow> 'a res \<Rightarrow> 'b res" where
  "res_map f (Ok a) = Ok (f a)"
| "res_map f (Exit n out) = Exit n out"
| "res_map f (UB e) = UB e"
| "res_map f Hang = Hang"

lemma res_bind_Ok_iff [simp]:
  "res_bind m f = Ok b \<longleftrightarrow> (\<exists>a. m = Ok a \<and> f a = Ok b)"
  by (cases m) auto

lemma res_bind_Hang_iff [simp]:
  "res_bind m f = Hang \<longleftrightarrow> m = Hang \<or> (\<exists>a. m = Ok a \<and> f a = Hang)"
  by (cases m) auto

lemma res_bind_Exit_iff [simp]:
  "res_bind m f = Exit n out \<longleftrightarrow> m = Exit n out \<or> (\<exists>a. m = Ok a \<and> f a = Exit n out)"
  by (cases m) auto

lemma res_of_sum_not_Hang [simp]: "res_of_sum x \<noteq> Hang"
  by (cases x) auto

lemma res_of_sum_not_Exit [simp]: "res_of_sum x \<noteq> Exit n out"
  by (cases x) auto

lemma res_of_option_not_Exit [simp]: "res_of_option x \<noteq> Exit n out"
  by (cases x) auto

lemma res_bind_assoc:
  "res_bind (res_bind m f) g = res_bind m (\<lambda>a. res_bind (f a) g)"
  by (cases m) auto

lemma res_of_option_Ok_iff [simp]: "res_of_option m = Ok a \<longleftrightarrow> m = Some a"
  by (cases m) auto

lemma res_of_sum_Ok_iff [simp]: "res_of_sum m = Ok a \<longleftrightarrow> m = Inr a"
  by (cases m) auto

section \<open>Decimal printing\<close>

text \<open>\<open>printf("%d", n)\<close>: the decimal digits of \<open>n\<close>, most significant first.\<close>

definition digit_char :: "nat \<Rightarrow> char" where
  "digit_char d = ''0123456789'' ! d"

fun nat_str :: "nat \<Rightarrow> string" where
  "nat_str n =
     (if n < 10 then [digit_char n]
      else nat_str (n div 10) @ [digit_char (n mod 10)])"

declare nat_str.simps [simp del]

definition int_str :: "int \<Rightarrow> string" where
  "int_str i = (if i < 0 then CHR ''-'' # nat_str (nat (- i)) else nat_str (nat i))"

definition dec_digit :: "char \<Rightarrow> bool" where
  "dec_digit c \<longleftrightarrow> (48::nat) \<le> of_char c \<and> of_char c \<le> (57::nat)"

lemma dec_digit_char_of: "d < 10 \<Longrightarrow> dec_digit (digit_char d)"
proof -
  assume "d < 10"
  then have "d < length ''0123456789''" by simp
  then have "digit_char d \<in> set ''0123456789''" unfolding digit_char_def by (rule nth_mem)
  moreover have "\<forall>c\<in>set ''0123456789''. dec_digit c" by (simp add: dec_digit_def)
  ultimately show ?thesis by blast
qed

lemma nat_str_digits: "list_all dec_digit (nat_str n)"
proof (induction n rule: nat_str.induct)
  case (1 n)
  show ?case
  proof (cases "n < 10")
    case True
    then show ?thesis by (simp add: nat_str.simps [of n] dec_digit_char_of)
  next
    case False
    with "1.IH" show ?thesis by (simp add: nat_str.simps [of n] dec_digit_char_of)
  qed
qed

lemma nat_str_nonempty: "nat_str n \<noteq> []"
  by (simp add: nat_str.simps [of n])

lemma nat_str_length_le: "0 < k \<Longrightarrow> length (nat_str n) \<le> k \<longleftrightarrow> n < 10 ^ k"
proof (induction n arbitrary: k rule: nat_str.induct)
  case (1 n)
  show ?case
  proof (cases "n < 10")
    case True
    have "(10::nat) \<le> 10 ^ k" using "1.prems" by (cases k) simp_all
    then show ?thesis using True "1.prems" by (simp add: nat_str.simps [of n])
  next
    case False
    then have l: "length (nat_str n) = Suc (length (nat_str (n div 10)))" by (simp add: nat_str.simps [of n])
    show ?thesis
    proof (cases k)
      case 0
      then show ?thesis using "1.prems" by simp
    next
      case (Suc j)
      show ?thesis
      proof (cases j)
        case 0
        then show ?thesis using Suc False l nat_str_nonempty [of "n div 10"] by simp
      next
        case (Suc i)
        then have "length (nat_str (n div 10)) \<le> j \<longleftrightarrow> n div 10 < 10 ^ j"
          using "1.IH" [OF False, of j] by simp
        also have "\<dots> \<longleftrightarrow> n < 10 ^ k" using \<open>k = Suc j\<close> by (simp add: div_less_iff_less_mult mult.commute)
        finally show ?thesis using l \<open>k = Suc j\<close> by simp
      qed
    qed
  qed
qed

lemma digit_not_dollar: "dec_digit c \<Longrightarrow> c \<noteq> CHR ''$''"
  by (auto simp: dec_digit_def)

lemma digit_not_space: "dec_digit c \<Longrightarrow> c \<noteq> CHR '' ''"
  by (auto simp: dec_digit_def)

lemma nat_str_no_dollar: "CHR ''$'' \<notin> set (nat_str n)"
  using nat_str_digits [of n] by (auto simp: list_all_iff dest: digit_not_dollar)

section \<open>Lists\<close>

text \<open>Reading slot \<open>i\<close> of a calloc'ed pointer array whose first entries are \<open>xs\<close>.\<close>

definition slot :: "'a option list \<Rightarrow> nat \<Rightarrow> 'a option" where
  "slot xs i = (if i < length xs then xs ! i else None)"

lemma slot_update_same [simp]: "i < length xs \<Longrightarrow> slot (xs[i := v]) i = v"
  by (simp add: slot_def)

lemma slot_update_other [simp]: "j \<noteq> i \<Longrightarrow> slot (xs[i := v]) j = slot xs j"
  by (simp add: slot_def)

end
