(* ===== verification/Kernel.thy ===== *)
theory Kernel
  imports Shell_Prelude
begin

unbundle bit_operations_syntax

text \<open>
  The operating-system interface smallsh calls, modelled from POSIX and glibc (it is
  not code of the repository): the status-word macros of \<open><sys/wait.h>\<close>, the
  shell's table of unreaped children, \<open>waitpid\<close>, \<open>kill\<close> and \<open>fork\<close>, and the
  record of environment answers (which files open, which programs run, whether a
  signal arrives) that the shell's operations are evaluated against.
\<close>

section \<open>Status words\<close>

text \<open>glibc's \<open>bits/waitstatus.h\<close>, on the 32-bit \<open>int\<close> status word.\<close>

definition WIFEXITED :: "wstatus \<Rightarrow> bool" where
  "WIFEXITED st \<longleftrightarrow> (st AND 0x7f) = 0"

definition WEXITSTATUS :: "wstatus \<Rightarrow> wstatus" where
  "WEXITSTATUS st = drop_bit 8 (st AND 0xff00)"

definition WIFSIGNALED :: "wstatus \<Rightarrow> bool" where
  \<comment> \<open>\<open>((signed char) (((status) & 0x7f) + 1) >> 1) > 0\<close>\<close>
  "WIFSIGNALED st \<longleftrightarrow> 0 < sint (ucast ((st AND 0x7f) + 1) :: 8 word) div 2"

definition WTERMSIG :: "wstatus \<Rightarrow> wstatus" where
  "WTERMSIG st = st AND 0x7f"

text \<open>The words the kernel stores for a child that called \<open>exit(c)\<close> or was killed by signal \<open>n\<close>.\<close>

definition W_EXITCODE :: "nat \<Rightarrow> wstatus" where
  "W_EXITCODE c = push_bit 8 (word_of_nat c AND 0xff)"

definition W_TERMSIG :: "nat \<Rightarrow> wstatus" where
  "W_TERMSIG n = word_of_nat n"

definition SIGTERM :: nat where "SIGTERM = 15"
definition SIGSEGV :: nat where "SIGSEGV = 11"

lemma unat_low7: "unat ((st::wstatus) AND 0x7f) < 128"
proof -
  have "unat (st AND 0x7f) \<le> unat (0x7f :: wstatus)"
    by (rule word_and_le1 [THEN word_le_nat_alt [THEN iffD1]])
  then show ?thesis by simp
qed

lemma unat_ucast_low7:
  "unat (ucast ((st AND 0x7f) + 1) :: 8 word) = unat ((st::wstatus) AND 0x7f) + 1"
proof -
  have a: "unat ((st AND 0x7f) + 1) = unat (st AND 0x7f) + 1"
    using unat_low7 [of st] by (simp add: unat_word_ariths)
  show ?thesis using unat_low7 [of st] a
    by (simp add: unsigned_ucast_eq take_bit_eq_mod)
qed

lemma sint8_small: "unat (x::8 word) < 128 \<Longrightarrow> sint x = int (unat x)"
proof -
  assume "unat x < 128"
  then have lt: "uint x < 128" by (metis of_nat_less_numeral_iff of_nat_unat)
  have "(- (2 ^ 7) :: int) \<le> 0" by simp
  then have u1: "- (2 ^ 7) \<le> uint x" using uint_ge_0 [of x] by (rule order_trans)
  have u2: "uint x < 2 ^ 7" using lt by simp
  have "sint x = signed_take_bit (LENGTH(8) - Suc 0) (uint x)" by (rule sint_uint)
  also have "\<dots> = signed_take_bit 7 (uint x)" by simp
  also have "\<dots> = uint x" using u1 u2 by (rule signed_take_bit_int_eq_self)
  finally show ?thesis by simp
qed

lemma sint8_128: "unat (x::8 word) = 128 \<Longrightarrow> sint x = -128"
proof -
  assume "unat x = 128"
  then have "x = 128" by (simp add: word_unat_eq_iff)
  then show ?thesis by simp
qed

text \<open>The macro's signed-char arithmetic says: the low seven bits are neither 0 nor 0x7f.\<close>

lemma WIFSIGNALED_iff:
  "WIFSIGNALED st \<longleftrightarrow> (st AND 0x7f) \<noteq> 0 \<and> (st AND 0x7f) \<noteq> 0x7f"
proof -
  let ?x = "ucast ((st AND 0x7f) + 1) :: 8 word"
  let ?n = "unat (st AND 0x7f)"
  have u: "unat ?x = ?n + 1" by (rule unat_ucast_low7)
  have b: "?n < 128" by (rule unat_low7)
  show ?thesis
  proof (cases "?n = 127")
    case True
    then have "sint ?x = -128" using u by (simp add: sint8_128)
    moreover have "st AND 0x7f = 0x7f" using True by (simp add: word_unat_eq_iff)
    ultimately show ?thesis by (simp add: WIFSIGNALED_def)
  next
    case False
    have "sint ?x = int ?n + 1" using False u b by (simp add: sint8_small)
    then have "(0 < sint ?x div 2) \<longleftrightarrow> ?n \<noteq> 0" by presburger
    moreover have "(st AND 0x7f) \<noteq> 0x7f" using False by auto
    moreover have "(st AND 0x7f = 0) = (?n = 0)" by (simp add: unat_eq_zero)
    ultimately show ?thesis by (simp add: WIFSIGNALED_def)
  qed
qed

lemma WIFEXITED_not_WIFSIGNALED: "WIFEXITED st \<Longrightarrow> \<not> WIFSIGNALED st"
  by (simp add: WIFEXITED_def WIFSIGNALED_iff)

lemma mask7_eq: "(0x7f::wstatus) = mask 7"
  by (simp add: mask_eq_exp_minus_1)

lemma mask8_eq: "(0xff::wstatus) = mask 8"
  by (simp add: mask_eq_exp_minus_1)

lemma mask16_eq: "(0xff00::wstatus) = push_bit 8 (mask 8)"
  by (simp add: mask_eq_exp_minus_1)

lemma unat_and_mask_nat: "unat (word_of_nat c AND mask k :: wstatus) = (c mod 2 ^ 32) mod 2 ^ k"
proof -
  have "unat (word_of_nat c AND mask k :: wstatus) = unat (take_bit k (word_of_nat c :: wstatus))"
    by (simp only: take_bit_eq_mask)
  also have "\<dots> = take_bit k (unat (word_of_nat c :: wstatus))"
    by (simp only: unsigned_take_bit_eq)
  also have "\<dots> = (c mod 2 ^ 32) mod 2 ^ k"
    by (simp only: unat_of_nat take_bit_eq_mod) simp
  finally show ?thesis .
qed

lemma W_EXITCODE_exited: "WIFEXITED (W_EXITCODE c)"
  unfolding WIFEXITED_def W_EXITCODE_def mask7_eq mask8_eq
  by (rule bit_word_eqI) (auto simp: bit_simps)

lemma W_EXITCODE_status: "unat (WEXITSTATUS (W_EXITCODE c)) = c mod 256"
proof -
  have "WEXITSTATUS (W_EXITCODE c) = word_of_nat c AND mask 8"
    unfolding WEXITSTATUS_def W_EXITCODE_def mask16_eq mask8_eq
    by (rule bit_word_eqI) (auto simp: bit_simps)
  moreover have "(c mod 2 ^ 32) mod 2 ^ 8 = c mod (2 ^ 8 :: nat)"
    by (rule mod_mod_cancel) (simp add: le_imp_power_dvd)
  ultimately show ?thesis by (simp add: unat_and_mask_nat)
qed

lemma W_TERMSIG_unat: "n < 128 \<Longrightarrow> unat (W_TERMSIG n) = n"
  by (simp add: W_TERMSIG_def unat_of_nat)

lemma W_TERMSIG_low: "n < 128 \<Longrightarrow> W_TERMSIG n AND 0x7f = W_TERMSIG n"
proof -
  assume n: "n < 128"
  have "unat (W_TERMSIG n AND 0x7f) = (n mod 2 ^ 32) mod 2 ^ 7"
    unfolding W_TERMSIG_def mask7_eq by (rule unat_and_mask_nat)
  also have "\<dots> = n" using n by simp
  finally show ?thesis using W_TERMSIG_unat [OF n] by (simp add: word_unat_eq_iff)
qed

lemma W_TERMSIG_signaled:
  assumes "0 < n" and "n < 127"
  shows "WIFSIGNALED (W_TERMSIG n) \<and> unat (WTERMSIG (W_TERMSIG n)) = n \<and> \<not> WIFEXITED (W_TERMSIG n)"
proof -
  have low: "W_TERMSIG n AND 0x7f = W_TERMSIG n" using assms by (simp add: W_TERMSIG_low)
  have u: "unat (W_TERMSIG n) = n" using assms by (simp add: W_TERMSIG_unat)
  then have "W_TERMSIG n \<noteq> 0" and "W_TERMSIG n \<noteq> 0x7f" using assms by auto
  with low u show ?thesis by (simp add: WIFSIGNALED_iff WTERMSIG_def WIFEXITED_def)
qed

section \<open>Processes\<close>

text \<open>
  A child of the shell that has not been reaped is running, stopped (by \<open>SIGTSTP\<close>),
  or a zombie; each carries the status word it ends with. \<open>tty\<close> is everything
  written to the terminal, \<open>cwd\<close> the working directory.
\<close>

datatype pstate = Running wstatus | Stopped wstatus | Zombie wstatus

record os =
  procs :: "pid \<Rightarrow> pstate option"
  next_pid :: pid
  tty :: string
  cwd :: string

definition tty_write :: "string \<Rightarrow> 'a os_scheme \<Rightarrow> 'a os_scheme" where
  "tty_write m s = s\<lparr>tty := tty s @ m\<rparr>"

text \<open>
  \<open>waitpid(p, &status, nohang ? WNOHANG : 0)\<close>: the returned pid (\<open>0\<close> for a child
  still running under \<open>WNOHANG\<close>, \<open>-1\<close> for no such child), the status word if one
  was stored, and the process table; \<open>None\<close> when the call blocks for ever (waiting
  on a stopped child). A blocking wait on a running child returns when it exits.
\<close>

definition waitpid :: "pid \<Rightarrow> bool \<Rightarrow> 'a os_scheme \<Rightarrow> (pid \<times> wstatus option \<times> 'a os_scheme) option" where
  "waitpid p nohang s =
     (case procs s p of
        None \<Rightarrow> Some (-1, None, s)
      | Some (Zombie st) \<Rightarrow> Some (p, Some st, s\<lparr>procs := (procs s)(p := None)\<rparr>)
      | Some (Running st) \<Rightarrow>
          if nohang then Some (0, None, s) else Some (p, Some st, s\<lparr>procs := (procs s)(p := None)\<rparr>)
      | Some (Stopped st) \<Rightarrow> if nohang then Some (0, None, s) else None)"

text \<open>\<open>kill(p, SIGTERM)\<close>: a running child dies; a stopped one keeps the signal pending.\<close>

definition kill_term :: "pid \<Rightarrow> 'a os_scheme \<Rightarrow> 'a os_scheme" where
  "kill_term p s =
     (case procs s p of
        Some (Running st) \<Rightarrow> s\<lparr>procs := (procs s)(p \<mapsto> Zombie (W_TERMSIG SIGTERM))\<rparr>
      | _ \<Rightarrow> s)"

text \<open>\<open>fork()\<close> in the parent: the new child's pid; the child will end with \<open>st\<close>.\<close>

definition spawn :: "wstatus \<Rightarrow> 'a os_scheme \<Rightarrow> pid \<times> 'a os_scheme" where
  "spawn st s = (next_pid s, s\<lparr>procs := (procs s)(next_pid s \<mapsto> Running st), next_pid := next_pid s + 1\<rparr>)"

text \<open>Steps of the environment: a running child exits; \<open>SIGTSTP\<close> stops some running children.\<close>

definition child_exits :: "pid \<Rightarrow> 'a os_scheme \<Rightarrow> 'a os_scheme" where
  "child_exits p s =
     (case procs s p of Some (Running st) \<Rightarrow> s\<lparr>procs := (procs s)(p \<mapsto> Zombie st)\<rparr> | _ \<Rightarrow> s)"

definition stop_children :: "pid set \<Rightarrow> 'a os_scheme \<Rightarrow> 'a os_scheme" where
  "stop_children S s =
     s\<lparr>procs := (\<lambda>p. case procs s p of
                        Some (Running st) \<Rightarrow> if p \<in> S then Some (Stopped st) else Some (Running st)
                      | x \<Rightarrow> x)\<rparr>"

lemma dom_child_exits [simp]: "dom (procs (child_exits p s)) = dom (procs s)"
  by (auto simp: child_exits_def split: option.splits pstate.splits)

lemma dom_stop_children [simp]: "dom (procs (stop_children S s)) = dom (procs s)"
  by (auto simp: stop_children_def split: option.splits pstate.splits)

lemma dom_kill_term [simp]: "dom (procs (kill_term p s)) = dom (procs s)"
  by (auto simp: kill_term_def split: option.splits pstate.splits)

lemma waitpid_procs:
  "waitpid p nohang s = Some (r, w, s') \<Longrightarrow>
     procs s' = (if w = None then procs s else (procs s)(p := None))"
  by (auto simp: waitpid_def split: option.splits pstate.splits if_splits)

lemma waitpid_zombie [simp]:
  "procs s p = Some (Zombie st) \<Longrightarrow>
     waitpid p nohang s = Some (p, Some st, s\<lparr>procs := (procs s)(p := None)\<rparr>)"
  by (simp add: waitpid_def)

lemma waitpid_nohang_running [simp]:
  "procs s p = Some (Running st) \<Longrightarrow> waitpid p True s = Some (0, None, s)"
  by (simp add: waitpid_def)

lemma waitpid_nohang_stopped [simp]:
  "procs s p = Some (Stopped st) \<Longrightarrow> waitpid p True s = Some (0, None, s)"
  by (simp add: waitpid_def)

lemma waitpid_no_child [simp]:
  "procs s p = None \<Longrightarrow> waitpid p nohang s = Some (-1, None, s)"
  by (simp add: waitpid_def)

lemma waitpid_block_running [simp]:
  "procs s p = Some (Running st) \<Longrightarrow>
     waitpid p False s = Some (p, Some st, s\<lparr>procs := (procs s)(p := None)\<rparr>)"
  by (simp add: waitpid_def)

lemma waitpid_block_stopped [simp]:
  "procs s p = Some (Stopped st) \<Longrightarrow> waitpid p False s = None"
  by (simp add: waitpid_def)

lemma waitpid_frame:
  "waitpid p nohang s = Some (r, w, s') \<Longrightarrow> s' = s\<lparr>procs := procs s'\<rparr>"
  by (auto simp: waitpid_def split: option.splits pstate.splits if_splits)

section \<open>The environment's answers\<close>

text \<open>
  What the shell cannot compute is read from this record: whether \<open>fork\<close> succeeds,
  which paths \<open>open\<close> for reading and for writing (\<open>/dev/null\<close> included), the status
  a program ends with when \<open>execvp\<close> finds it (\<open>None\<close>: \<open>execvp\<close> fails), \<open>getenv("HOME")\<close>,
  which directories \<open>chdir\<close> enters, \<open>getpid()\<close>, and whether \<open>SIGTSTP\<close> arrives while
  the shell waits for a foreground child, and which running children it stops then
  (the shell never calls \<open>setpgid\<close>, so its children share the terminal's
  foreground process group).
\<close>

record env =
  fork_ok :: bool
  can_read :: "string \<Rightarrow> bool"
  can_write :: "string \<Rightarrow> bool"
  exec_result :: "string list \<Rightarrow> wstatus option"
  home :: "string option"
  can_chdir :: "string \<Rightarrow> bool"
  shell_pid :: nat
  tstp_in_wait :: bool
  tstp_stops :: "pid set"

end
