(* ===== verification/Shell_State.thy ===== *)
theory Shell_State
  imports Kernel
begin

text \<open>
  The state smallsh keeps: the global flag \<open>canRunBG\<close> (src/smallsh.c line 33) and
  the variables of \<open>shellLoop\<close> that live across iterations (lines 603--613): the
  background pid array with its count, and the status word \<open>childExitMethod\<close>. The
  record extends the kernel's view of the world (\<open>os\<close>), so an operation of the
  shell is a function on the whole state. Here also the output operations that
  read this state: \<open>printPrompt\<close>, \<open>checkStatus\<close> (the \<open>status\<close> built-in) and the
  \<open>SIGTSTP\<close> handler \<open>toggleBG\<close>.
\<close>

record shell = os +
  canRunBG :: bool
  pidArray :: "pid list"   \<comment> \<open>\<open>pidArray[0 .. pidCount-1]\<close>\<close>
  childExitMethod :: wstatus

definition init_shell :: "pid \<Rightarrow> string \<Rightarrow> shell" where
  "init_shell p0 dir =
     \<lparr>procs = Map.empty, next_pid = p0, tty = [], cwd = dir,
      canRunBG = True, pidArray = [], childExitMethod = word_of_int (-5)\<rparr>"

section \<open>Prompt and status\<close>

definition printPrompt :: "'a os_scheme \<Rightarrow> 'a os_scheme" where
  "printPrompt s = tty_write '': '' s"

definition status_msg :: "wstatus \<Rightarrow> string" where
  "status_msg st =
     (if WIFEXITED st then ''exit value '' @ nat_str (unat (WEXITSTATUS st)) @ [NL]
      else if WIFSIGNALED st then ''terminated by signal '' @ nat_str (unat (WTERMSIG st)) @ [NL]
      else [])"

definition checkStatus :: "'a shell_scheme \<Rightarrow> 'a shell_scheme" where
  "checkStatus s = tty_write (status_msg (childExitMethod s)) s"

section \<open>The SIGTSTP handler\<close>

text \<open>
  \<open>write(fd, message, n)\<close> sends the first \<open>n\<close> bytes of the literal, whose
  terminating NUL is part of the buffer; asking for more reads past it.
\<close>

definition c_write :: "string \<Rightarrow> nat \<Rightarrow> fault + string" where
  "c_write msg n = (if n \<le> length msg + 1 then Inr (take n (msg @ [CHR 0x00])) else Inl Over_read)"

definition fg_enter_msg :: string where
  "fg_enter_msg = [NL] @ ''Entering foreground-only mode (& is now ignored)'' @ [NL]"

definition fg_exit_msg :: string where
  "fg_exit_msg = [NL] @ ''Exiting foreground-only mode'' @ [NL]"

definition toggleBG :: "'a shell_scheme \<Rightarrow> 'a shell_scheme res" where
  "toggleBG s =
     (if canRunBG s then
        res_bind (res_of_sum (c_write fg_enter_msg 50))
          (\<lambda>out. Ok ((tty_write out s)\<lparr>canRunBG := False\<rparr>))
      else
        res_bind (res_of_sum (c_write fg_exit_msg 30))
          (\<lambda>out. Ok ((tty_write out s)\<lparr>canRunBG := True\<rparr>)))"

section \<open>Properties\<close>

lemma fg_msg_lengths: "length fg_enter_msg = 50" "length fg_exit_msg = 30"
  by (simp_all add: fg_enter_msg_def fg_exit_msg_def)

lemma toggleBG_on:
  "canRunBG s \<Longrightarrow> toggleBG s = Ok ((tty_write fg_enter_msg s)\<lparr>canRunBG := False\<rparr>)"
  by (simp add: toggleBG_def c_write_def fg_msg_lengths)

lemma toggleBG_off:
  "\<not> canRunBG s \<Longrightarrow> toggleBG s = Ok ((tty_write fg_exit_msg s)\<lparr>canRunBG := True\<rparr>)"
  by (simp add: toggleBG_def c_write_def fg_msg_lengths)

lemma toggleBG_frame:
  "toggleBG s = Ok s' \<Longrightarrow> procs s' = procs s \<and> pidArray s' = pidArray s \<and>
     childExitMethod s' = childExitMethod s \<and> next_pid s' = next_pid s \<and> cwd s' = cwd s"
  by (cases "canRunBG s") (auto simp: toggleBG_on toggleBG_off tty_write_def)

lemma status_msg_exit: "status_msg (W_EXITCODE c) = ''exit value '' @ nat_str (c mod 256) @ [NL]"
  by (simp add: status_msg_def W_EXITCODE_exited W_EXITCODE_status)

lemma status_msg_signal:
  "0 < n \<Longrightarrow> n < 127 \<Longrightarrow> status_msg (W_TERMSIG n) = ''terminated by signal '' @ nat_str n @ [NL]"
  using W_TERMSIG_signaled [of n] by (simp add: status_msg_def)

section \<open>Properties\<close>

text \<open>C13: Two \<open>SIGTSTP\<close>s restore the mode: the handler flips \<open>canRunBG\<close> each time, writes
  the entry message when it turns foreground-only mode on and the exit message when it
  turns it off, and changes nothing else.\<close>

theorem toggleBG_round_trip:
  "\<exists>s1 s2. toggleBG s = Ok s1 \<and> toggleBG s1 = Ok s2 \<and>
     s2 = s\<lparr>tty := tty s @ (if canRunBG s then fg_enter_msg @ fg_exit_msg else fg_exit_msg @ fg_enter_msg)\<rparr>"
  by (cases "canRunBG s") (simp_all add: toggleBG_on toggleBG_off tty_write_def)

text \<open>C14: The \<open>status\<close> built-in decodes the status word: an exit code \<open>c\<close> prints
  \<open>exit value c\<close>, a death by signal \<open>n\<close> prints \<open>terminated by signal n\<close>.\<close>

theorem checkStatus_reports:
  assumes "c < 256" "0 < n" "n < 127"
  shows "checkStatus (s\<lparr>childExitMethod := W_EXITCODE c\<rparr>) =
           tty_write (''exit value '' @ nat_str c @ [NL]) (s\<lparr>childExitMethod := W_EXITCODE c\<rparr>)
       \<and> checkStatus (s\<lparr>childExitMethod := W_TERMSIG n\<rparr>) =
           tty_write (''terminated by signal '' @ nat_str n @ [NL]) (s\<lparr>childExitMethod := W_TERMSIG n\<rparr>)"
  using assms by (simp add: checkStatus_def status_msg_exit status_msg_signal)

theorem checkStatus_reports_witness:
  "checkStatus (init_shell 100 ''/''\<lparr>childExitMethod := W_EXITCODE 7\<rparr>) =
     tty_write (''exit value 7'' @ [NL]) (init_shell 100 ''/''\<lparr>childExitMethod := W_EXITCODE 7\<rparr>)
   \<and> checkStatus (init_shell 100 ''/''\<lparr>childExitMethod := W_TERMSIG 9\<rparr>) =
     tty_write (''terminated by signal 9'' @ [NL]) (init_shell 100 ''/''\<lparr>childExitMethod := W_TERMSIG 9\<rparr>)"
  using checkStatus_reports [where c = 7 and n = 9 and s = "init_shell 100 ''/''"]
  by (simp add: nat_str.simps digit_char_def)

end
