(* ===== verification/Job_Registry.thy ===== *)
theory Job_Registry
  imports Shell_State
begin

text \<open>
  The background-job registry of smallsh (src/smallsh.c lines 365--589): the array
  \<open>pid_t pidArray[50]\<close> with its count, modelled as the list of its live entries.
  \<open>addPid\<close> appends, \<open>removePid\<close> finds an entry and shifts the rest down,
  \<open>reapChildren\<close> polls every entry with \<open>waitpid(.., WNOHANG)\<close> and removes the
  finished ones (re-examining the same index after a removal), \<open>killBG\<close> and
  \<open>reapBG\<close> terminate and collect every entry at shutdown. The theory proves
  \<open>removePid\<close> equal to \<open>remove1\<close>, the reap pass equal to an abstract scan of a
  snapshot of the array, and says exactly when the reap pass and the shutdown
  sequence return.
\<close>

section \<open>Insertion and removal\<close>

definition MAXBG :: nat where
  "MAXBG = 50"

definition addPid :: "pid list \<Rightarrow> pid \<Rightarrow> fault + pid list" where
  "addPid xs p = (if length xs < MAXBG then Inr (xs @ [p]) else Inl Pid_array_overflow)"

text \<open>The search loop of \<open>removePid\<close> (lines 390--396).\<close>

function find_pid_from :: "pid list \<Rightarrow> pid \<Rightarrow> nat \<Rightarrow> nat option" where
  "find_pid_from xs t i =
     (if i < length xs then (if xs ! i = t then Some i else find_pid_from xs t (Suc i)) else None)"
  by pat_completeness auto
termination
  by (relation "measure (\<lambda>(xs, t, i). length xs - i)") auto

declare find_pid_from.simps [simp del]

text \<open>The shift loop of \<open>removePid\<close> (lines 400--402): \<open>pidArray[i] = pidArray[i + 1]\<close>.\<close>

function shift_down :: "nat \<Rightarrow> pid list \<Rightarrow> pid list" where
  "shift_down i xs = (if Suc i < length xs then shift_down (Suc i) (xs[i := xs ! Suc i]) else xs)"
  by pat_completeness auto
termination
  by (relation "measure (\<lambda>(i, xs). length xs - i)") auto

declare shift_down.simps [simp del]

definition removePid :: "pid list \<Rightarrow> pid \<Rightarrow> pid list" where
  "removePid xs t =
     (case find_pid_from xs t 0 of
        None \<Rightarrow> xs
      | Some i \<Rightarrow> butlast (shift_down i xs))"

subsection \<open>removePid is remove1\<close>

lemma find_pid_from_Some:
  "find_pid_from xs t i = Some j \<Longrightarrow>
     i \<le> j \<and> j < length xs \<and> xs ! j = t \<and> (\<forall>k. i \<le> k \<and> k < j \<longrightarrow> xs ! k \<noteq> t)"
proof (induction xs t i rule: find_pid_from.induct)
  case (1 xs t i)
  show ?case
  proof (cases "i < length xs \<and> xs ! i \<noteq> t")
    case True
    with "1.prems" have "find_pid_from xs t (Suc i) = Some j"
      by (simp add: find_pid_from.simps [of xs t i])
    with True "1.IH" have ih: "Suc i \<le> j \<and> j < length xs \<and> xs ! j = t \<and>
        (\<forall>k. Suc i \<le> k \<and> k < j \<longrightarrow> xs ! k \<noteq> t)" by simp
    have "\<forall>k. i \<le> k \<and> k < j \<longrightarrow> xs ! k \<noteq> t"
    proof (intro allI impI)
      fix k
      assume "i \<le> k \<and> k < j"
      then show "xs ! k \<noteq> t" using True ih by (cases "k = i") auto
    qed
    with ih show ?thesis by simp
  next
    case False
    with "1.prems" show ?thesis
      by (auto simp: find_pid_from.simps [of xs t i] split: if_splits)
  qed
qed

lemma find_pid_from_None:
  "find_pid_from xs t i = None \<Longrightarrow> i \<le> k \<Longrightarrow> k < length xs \<Longrightarrow> xs ! k \<noteq> t"
proof (induction xs t i rule: find_pid_from.induct)
  case (1 xs t i)
  show ?case
  proof (cases "i < length xs")
    case True
    with "1.prems"(1) have "xs ! i \<noteq> t" and "find_pid_from xs t (Suc i) = None"
      by (auto simp: find_pid_from.simps [of xs t i] split: if_splits)
    with True "1.IH" "1.prems"(2,3) show ?thesis
      by (cases "k = i") auto
  next
    case False
    with "1.prems" show ?thesis by simp
  qed
qed

lemma length_shift_down [simp]: "length (shift_down i xs) = length xs"
  by (induction i xs rule: shift_down.induct) (simp add: shift_down.simps)

lemma last_update_before_last: "Suc i < length xs \<Longrightarrow> last (xs[i := v]) = last xs"
proof -
  assume i: "Suc i < length xs"
  then have ne: "xs \<noteq> []" by auto
  then have "last (xs[i := v]) = xs[i := v] ! (length xs - 1)"
    by (simp add: last_conv_nth)
  also have "\<dots> = xs ! (length xs - 1)" using i by simp
  also have "\<dots> = last xs" using ne by (simp add: last_conv_nth)
  finally show ?thesis .
qed

lemma shift_down_eq:
  "i < length xs \<Longrightarrow> shift_down i xs = take i xs @ drop (Suc i) xs @ [last xs]"
proof (induction i xs rule: shift_down.induct)
  case (1 i xs)
  show ?case
  proof (cases "Suc i < length xs")
    case True
    let ?ys = "xs[i := xs ! Suc i]"
    have "shift_down i xs = shift_down (Suc i) ?ys"
      using True by (simp add: shift_down.simps [of i xs])
    also have "\<dots> = take (Suc i) ?ys @ drop (Suc (Suc i)) ?ys @ [last ?ys]"
      using True "1.IH" by simp
    also have "take (Suc i) ?ys = take i xs @ [xs ! Suc i]"
      using True by (simp add: take_Suc_conv_app_nth)
    also have "drop (Suc (Suc i)) ?ys = drop (Suc (Suc i)) xs"
      by simp
    also have "last ?ys = last xs"
      using True by (rule last_update_before_last)
    finally show ?thesis
      using True by (simp add: Cons_nth_drop_Suc)
  next
    case False
    with "1.prems" have len: "Suc i = length xs" by simp
    then have ne: "xs \<noteq> []" by auto
    have "i = length xs - 1" using len by simp
    then have "take i xs = butlast xs" by (simp add: butlast_conv_take)
    with ne False show ?thesis by (simp add: shift_down.simps [of i xs])
  qed
qed

lemma remove1_at_first:
  "j < length xs \<Longrightarrow> xs ! j = t \<Longrightarrow> t \<notin> set (take j xs) \<Longrightarrow>
     remove1 t xs = take j xs @ drop (Suc j) xs"
proof -
  assume j: "j < length xs" and t: "xs ! j = t" and notin: "t \<notin> set (take j xs)"
  have "xs = take j xs @ xs ! j # drop (Suc j) xs"
    using j by (rule id_take_nth_drop)
  then have "xs = take j xs @ t # drop (Suc j) xs"
    using t by simp
  then have "remove1 t xs = remove1 t (take j xs @ t # drop (Suc j) xs)" by simp
  also have "\<dots> = take j xs @ drop (Suc j) xs"
    using notin by (simp add: remove1_append)
  finally show ?thesis .
qed

lemma removePid_eq_remove1: "removePid xs t = remove1 t xs"
proof (cases "find_pid_from xs t 0")
  case None
  then have "t \<notin> set xs"
    using find_pid_from_None [OF None] by (auto simp: in_set_conv_nth)
  with None show ?thesis by (simp add: removePid_def remove1_idem)
next
  case (Some j)
  then have j: "j < length xs" "xs ! j = t" and first: "\<forall>k<j. xs ! k \<noteq> t"
    using find_pid_from_Some [OF Some] by auto
  have "t \<notin> set (take j xs)"
    using first j by (auto simp: in_set_conv_nth)
  then have "remove1 t xs = take j xs @ drop (Suc j) xs"
    using j by (simp add: remove1_at_first)
  moreover have "butlast (shift_down j xs) = take j xs @ drop (Suc j) xs"
    using j by (simp add: shift_down_eq butlast_append)
  ultimately show ?thesis using Some by (simp add: removePid_def)
qed

text \<open>
  C5: \<open>removePid\<close>, a linear search for the pid followed by a loop that shifts the
  later entries down one slot and a decrement of the count, removes exactly the
  first occurrence of the pid and leaves the array unchanged when the pid is absent:
  it is \<open>remove1\<close>.
\<close>

theorem removePid_remove1: "removePid xs t = remove1 t xs"
  by (rule removePid_eq_remove1)

section \<open>The reap pass\<close>

text \<open>The two \<open>printf\<close>s of \<open>reapChildren\<close> (lines 429--438), each under its own test.\<close>

definition bg_done_msg :: "pid \<Rightarrow> wstatus \<Rightarrow> string" where
  "bg_done_msg p st =
     (if WIFEXITED st then
        ''background pid '' @ int_str p @ '' is done: exit value '' @ nat_str (unat (WEXITSTATUS st)) @ [NL]
      else []) @
     (if WIFSIGNALED st then
        ''background pid '' @ int_str p @ '' is done: terminated by signal '' @ nat_str (unat (WTERMSIG st)) @ [NL]
      else [])"

text \<open>
  \<open>reapChildren\<close> (lines 418--448). After a removal the loop does \<open>i--\<close> and then
  \<open>i++\<close>, so it examines index \<open>i\<close> again. \<open>waitpid\<close> stores the status into
  \<open>childExitMethod\<close> when it reaps; when it returns \<open>-1\<close> (no such child) the code
  still takes the branch for a reaped child, prints the stale status and calls
  \<open>removePid\<close> with \<open>-1\<close>. The loop is not structurally bounded, so it is a
  \<open>partial_function\<close>: \<open>None\<close> is a pass that never returns.
\<close>

partial_function (option) reap_from :: "nat \<Rightarrow> shell \<Rightarrow> shell option" where
  "reap_from i s =
     (if i < length (pidArray s) then
        (case waitpid (pidArray s ! i) True s of
           None \<Rightarrow> None
         | Some (r, w, s1) \<Rightarrow>
             (let s2 = s1\<lparr>childExitMethod := case_option (childExitMethod s1) id w\<rparr> in
              if r \<noteq> 0 then
                reap_from i ((tty_write (bg_done_msg r (childExitMethod s2)) s2)
                               \<lparr>pidArray := removePid (pidArray s2) r\<rparr>)
              else reap_from (Suc i) s2))
      else Some s)"

definition reapChildren :: "shell \<Rightarrow> shell option" where
  "reapChildren s = reap_from 0 s"

subsection \<open>Abstract specification\<close>

text \<open>
  What the pass promises: scan a snapshot of the registry once, in order; for each
  entry that has finished, report it, collect it and drop it from the registry.
\<close>

definition zombie_status :: "'a os_scheme \<Rightarrow> pid \<Rightarrow> wstatus option" where
  "zombie_status s p = (case procs s p of Some (Zombie st) \<Rightarrow> Some st | _ \<Rightarrow> None)"

definition reap_entry :: "pid \<Rightarrow> wstatus \<Rightarrow> shell \<Rightarrow> shell" where
  "reap_entry p st s =
     tty_write (bg_done_msg p st) (s\<lparr>procs := (procs s)(p := None), childExitMethod := st\<rparr>)"

fun reap_scan :: "pid list \<Rightarrow> shell \<Rightarrow> shell" where
  "reap_scan [] s = s"
| "reap_scan (p # ps) s =
     (case zombie_status s p of
        None \<Rightarrow> reap_scan ps s
      | Some st \<Rightarrow> reap_scan ps (reap_entry p st s))"

definition reap_spec :: "shell \<Rightarrow> shell" where
  "reap_spec s =
     (reap_scan (pidArray s) s)\<lparr>pidArray := filter (\<lambda>p. zombie_status s p = None) (pidArray s)\<rparr>"

text \<open>
  The registry is well formed when its entries are distinct, positive, and each is
  a child the shell has not reaped.
\<close>

definition registry_ok :: "'a shell_scheme \<Rightarrow> bool" where
  "registry_ok s \<longleftrightarrow>
     distinct (pidArray s) \<and> set (pidArray s) \<subseteq> dom (procs s) \<and> list_all (\<lambda>p. 0 < p) (pidArray s)"

subsection \<open>The pass refines its specification\<close>

lemma zombie_status_update [simp]:
  "zombie_status (s\<lparr>pidArray := xs\<rparr>) = zombie_status s"
  "zombie_status (tty_write m s) = zombie_status s"
  "zombie_status (s\<lparr>childExitMethod := st\<rparr>) = zombie_status s"
  by (simp_all add: zombie_status_def tty_write_def fun_eq_iff)

lemma zombie_status_reaped [simp]:
  "zombie_status (s\<lparr>procs := (procs s)(p := None)\<rparr>) q = (if q = p then None else zombie_status s q)"
  by (simp add: zombie_status_def)

lemma reap_scan_pidArray:
  "reap_scan ps (s\<lparr>pidArray := xs\<rparr>) = (reap_scan ps s)\<lparr>pidArray := xs\<rparr>"
proof (induction ps arbitrary: s)
  case Nil
  then show ?case by simp
next
  case (Cons p ps)
  have "reap_entry p st (s\<lparr>pidArray := xs\<rparr>) = (reap_entry p st s)\<lparr>pidArray := xs\<rparr>" for st
    by (simp add: reap_entry_def tty_write_def)
  with Cons.IH show ?case by (simp split: option.splits)
qed

lemma reap_from_live:
  assumes "i < length (pidArray s)" and "pidArray s ! i \<in> dom (procs s)"
    and "zombie_status s (pidArray s ! i) = None"
  shows "reap_from i s = reap_from (Suc i) s"
proof -
  obtain st where "procs s (pidArray s ! i) = Some (Running st) \<or>
                   procs s (pidArray s ! i) = Some (Stopped st)"
    using assms(2,3) by (auto simp: zombie_status_def split: pstate.splits)
  then have "waitpid (pidArray s ! i) True s = Some (0, None, s)" by auto
  with assms(1) show ?thesis by (simp add: reap_from.simps [of i s])
qed

lemma reap_from_zombie:
  assumes "i < length (pidArray s)" and "zombie_status s (pidArray s ! i) = Some st"
    and "pidArray s ! i \<noteq> 0"
  shows "reap_from i s =
           reap_from i ((reap_entry (pidArray s ! i) st s)\<lparr>pidArray := remove1 (pidArray s ! i) (pidArray s)\<rparr>)"
proof -
  have "procs s (pidArray s ! i) = Some (Zombie st)"
    using assms(2) by (auto simp: zombie_status_def split: option.splits pstate.splits)
  then have "waitpid (pidArray s ! i) True s =
               Some (pidArray s ! i, Some st, s\<lparr>procs := (procs s)(pidArray s ! i := None)\<rparr>)"
    by simp
  with assms(1,3) show ?thesis
    by (simp add: reap_from.simps [of i s] reap_entry_def removePid_eq_remove1 tty_write_def)
qed

lemma remove1_distinct_at:
  "distinct xs \<Longrightarrow> i < length xs \<Longrightarrow> remove1 (xs ! i) xs = take i xs @ drop (Suc i) xs"
  by (rule remove1_at_first) (auto simp: distinct_conv_nth in_set_conv_nth)

lemma registry_ok_reap_entry:
  assumes ok: "registry_ok s" and i: "i < length (pidArray s)"
  shows "registry_ok ((reap_entry (pidArray s ! i) st s)\<lparr>pidArray := remove1 (pidArray s ! i) (pidArray s)\<rparr>)"
proof -
  let ?xs = "pidArray s" and ?p = "pidArray s ! i"
  have "distinct ?xs" using ok by (simp add: registry_ok_def)
  then have "set (remove1 ?p ?xs) = set ?xs - {?p}" by simp
  with ok show ?thesis
    by (auto simp: registry_ok_def reap_entry_def tty_write_def list_all_iff)
qed

lemma reap_from_spec:
  assumes "registry_ok s" and "i \<le> length (pidArray s)"
    and "\<forall>q\<in>set (take i (pidArray s)). zombie_status s q = None"
  shows "reap_from i s =
           Some ((reap_scan (drop i (pidArray s)) s)
                   \<lparr>pidArray := take i (pidArray s) @
                                filter (\<lambda>q. zombie_status s q = None) (drop i (pidArray s))\<rparr>)"
  using assms
proof (induction "2 * length (pidArray s) - i" arbitrary: i s rule: less_induct)
  case less
  let ?xs = "pidArray s"
  show ?case
  proof (cases "i < length ?xs")
    case False
    then have "reap_from i s = Some s" by (simp add: reap_from.simps [of i s])
    moreover from False less.prems(2) have "i = length ?xs" by simp
    ultimately show ?thesis by simp
  next
    case True
    let ?p = "?xs ! i"
    have drop_i: "drop i ?xs = ?p # drop (Suc i) ?xs"
      using True by (simp add: Cons_nth_drop_Suc)
    have p_in: "?p \<in> set ?xs" using True by (rule nth_mem)
    have p_dom: "?p \<in> dom (procs s)" and p_pos: "?p \<noteq> 0" and dist: "distinct ?xs"
      using less.prems(1) p_in unfolding registry_ok_def list_all_iff by auto
    show ?thesis
    proof (cases "zombie_status s ?p")
      case None
      have "reap_from (Suc i) s =
              Some ((reap_scan (drop (Suc i) ?xs) s)
                      \<lparr>pidArray := take (Suc i) ?xs @
                                   filter (\<lambda>q. zombie_status s q = None) (drop (Suc i) ?xs)\<rparr>)"
        using less.prems True None
        by (intro less.hyps) (auto simp: take_Suc_conv_app_nth)
      then show ?thesis
        using reap_from_live [OF True p_dom None] None drop_i True
        by (simp add: take_Suc_conv_app_nth)
    next
      case (Some st)
      let ?s' = "(reap_entry ?p st s)\<lparr>pidArray := remove1 ?p ?xs\<rparr>"
      have xs': "pidArray ?s' = take i ?xs @ drop (Suc i) ?xs"
        using dist True by (simp add: remove1_distinct_at)
      have p_notin: "?p \<notin> set (take i ?xs)" "?p \<notin> set (drop (Suc i) ?xs)"
        using dist True by (auto simp: distinct_conv_nth in_set_conv_nth)
      have zs: "zombie_status ?s' q = zombie_status s q" if "q \<noteq> ?p" for q
        using that by (simp add: reap_entry_def)
      have "reap_from i ?s' =
              Some ((reap_scan (drop i (pidArray ?s')) ?s')
                      \<lparr>pidArray := take i (pidArray ?s') @
                                   filter (\<lambda>q. zombie_status ?s' q = None) (drop i (pidArray ?s'))\<rparr>)"
      proof (rule less.hyps)
        show "2 * length (pidArray ?s') - i < 2 * length ?xs - i"
          using xs' True by simp
        show "registry_ok ?s'" using less.prems(1) True by (rule registry_ok_reap_entry)
        show "i \<le> length (pidArray ?s')" using xs' True by simp
        have tk: "take i (pidArray ?s') = take i ?xs" using xs' True by simp
        show "\<forall>q\<in>set (take i (pidArray ?s')). zombie_status ?s' q = None"
        proof
          fix q
          assume "q \<in> set (take i (pidArray ?s'))"
          then have q: "q \<in> set (take i ?xs)" using tk by simp
          then have "q \<noteq> ?p" using p_notin by auto
          with zs q less.prems(3) show "zombie_status ?s' q = None" by simp
        qed
      qed
      moreover have "filter (\<lambda>q. zombie_status ?s' q = None) (drop (Suc i) ?xs) =
                     filter (\<lambda>q. zombie_status s q = None) (drop (Suc i) ?xs)"
      proof (rule filter_cong [OF refl])
        fix q
        assume "q \<in> set (drop (Suc i) ?xs)"
        then have "q \<noteq> ?p" using p_notin(2) by auto
        then show "(zombie_status ?s' q = None) = (zombie_status s q = None)" using zs by simp
      qed
      moreover have "reap_scan (drop (Suc i) ?xs) ?s' =
                       (reap_scan (drop (Suc i) ?xs) (reap_entry ?p st s))\<lparr>pidArray := remove1 ?p ?xs\<rparr>"
        by (rule reap_scan_pidArray)
      ultimately show ?thesis
        using reap_from_zombie [OF True Some p_pos] xs' drop_i Some True
        by simp
    qed
  qed
qed

text \<open>
  C1: on a well-formed registry (distinct positive pids, each an unreaped child),
  one pass of \<open>reapChildren\<close>, with its index decrement after each removal and
  the shifting \<open>removePid\<close>, returns, and its result is the abstract pass: every
  finished job is reported in array order, collected and dropped, every other job
  stays, in order, and \<open>childExitMethod\<close> holds the status of the last job reaped.
\<close>

theorem reapChildren_refines: "registry_ok s \<Longrightarrow> reapChildren s = Some (reap_spec s)"
  using reap_from_spec [of s 0] by (simp add: reapChildren_def reap_spec_def)

subsection \<open>When the pass returns\<close>

text \<open>
  A pass is stuck from index \<open>i\<close> when an entry at or after \<open>i\<close> is no child of the
  shell: \<open>waitpid\<close> answers \<open>-1\<close>, \<open>removePid(-1)\<close> removes nothing, and the
  same index is examined for ever.
\<close>

definition reap_stuck :: "nat \<Rightarrow> shell \<Rightarrow> bool" where
  "reap_stuck i s \<longleftrightarrow>
     distinct (pidArray s) \<and> list_all (\<lambda>p. 0 < p) (pidArray s) \<and>
     (\<exists>q\<in>set (drop i (pidArray s)). procs s q = None)"

lemma reap_stuck_step:
  assumes st: "reap_stuck i s"
  shows "i < length (pidArray s) \<and>
         (procs s (pidArray s ! i) = None \<longrightarrow>
            reap_stuck i ((tty_write m s)\<lparr>pidArray := removePid (pidArray s) (-1)\<rparr>)) \<and>
         (\<forall>st. procs s (pidArray s ! i) = Some (Zombie st) \<longrightarrow>
            reap_stuck i ((reap_entry (pidArray s ! i) st s)\<lparr>pidArray := remove1 (pidArray s ! i) (pidArray s)\<rparr>)) \<and>
         (procs s (pidArray s ! i) \<noteq> None \<longrightarrow> reap_stuck (Suc i) s)"
proof -
  let ?xs = "pidArray s" and ?p = "pidArray s ! i"
  from st obtain q where q: "q \<in> set (drop i ?xs)" "procs s q = None"
    and dist: "distinct ?xs" and posl: "list_all (\<lambda>p. 0 < p) ?xs"
    by (auto simp: reap_stuck_def)
  have m1: "-1 \<notin> set ?xs" using posl by (auto simp: list_all_iff)
  have i: "i < length ?xs" using q(1) by (cases "i < length ?xs") auto
  have drop_i: "drop i ?xs = ?p # drop (Suc i) ?xs" using i by (simp add: Cons_nth_drop_Suc)
  have next_q: "q \<in> set (drop (Suc i) ?xs)" if "procs s ?p \<noteq> None"
    using q that drop_i by auto
  have same: "removePid ?xs (-1) = ?xs" using m1 by (simp add: removePid_eq_remove1 remove1_idem)
  have "remove1 ?p ?xs = take i ?xs @ drop (Suc i) ?xs" using dist i by (rule remove1_distinct_at)
  then have rm: "drop i (remove1 ?p ?xs) = drop (Suc i) ?xs" using i by simp
  have pos_rm: "list_all (\<lambda>p. 0 < p) (remove1 ?p ?xs)"
    using posl set_remove1_subset [of ?p ?xs] by (auto simp: list_all_iff)
  show ?thesis
    using i st q next_q same rm dist posl pos_rm
    by (auto simp: reap_stuck_def reap_entry_def tty_write_def)
qed

lemma reap_from_Some_not_stuck:
  assumes ret: "reap_from i s = Some r"
  shows "\<not> reap_stuck i s"
proof (rule reap_from.raw_induct [where P = "\<lambda>i s r. \<not> reap_stuck i s", OF _ ret])
  fix f :: "nat \<Rightarrow> shell \<Rightarrow> shell option" and i s r
  assume IH: "\<And>i s r. f i s = Some r \<Longrightarrow> \<not> reap_stuck i s"
    and body: "(if i < length (pidArray s) then
        (case waitpid (pidArray s ! i) True s of
           None \<Rightarrow> None
         | Some (r, w, s1) \<Rightarrow>
             (let s2 = s1\<lparr>childExitMethod := case_option (childExitMethod s1) id w\<rparr> in
              if r \<noteq> 0 then
                f i ((tty_write (bg_done_msg r (childExitMethod s2)) s2)
                               \<lparr>pidArray := removePid (pidArray s2) r\<rparr>)
              else f (Suc i) s2))
      else Some s) = Some r"
  show "\<not> reap_stuck i s"
  proof
    assume st: "reap_stuck i s"
    note step = reap_stuck_step [OF st]
    let ?p = "pidArray s ! i"
    have "?p \<in> set (pidArray s)" using step by simp
    then have pos: "0 < ?p" using st by (auto simp: reap_stuck_def list_all_iff)
    show False
    proof (cases "procs s ?p")
      case None
      with body step obtain r' where
        "f i ((tty_write (bg_done_msg (-1) (childExitMethod s)) s)\<lparr>pidArray := removePid (pidArray s) (-1)\<rparr>) = Some r'"
        by auto
      with IH step None show False by blast
    next
      case (Some ps)
      then show False
      proof (cases ps)
        case (Zombie st')
        from body step Some Zombie pos obtain r' where
          "f i ((reap_entry ?p st' s)\<lparr>pidArray := remove1 ?p (pidArray s)\<rparr>) = Some r'"
          by (auto simp: reap_entry_def removePid_eq_remove1 tty_write_def)
        with IH step Some Zombie show False by blast
      next
        case (Running st')
        with body step Some obtain r' where "f (Suc i) s = Some r'" by auto
        with IH step Some show False by blast
      next
        case (Stopped st')
        with body step Some obtain r' where "f (Suc i) s = Some r'" by auto
        with IH step Some show False by blast
      qed
    qed
  qed
qed

text \<open>
  C4: for a registry of distinct positive pids, the reap pass returns if and only if
  every registered pid is an unreaped child of the shell; an entry that is not
  (\<open>waitpid\<close> answers \<open>-1\<close>) makes the loop examine the same index for ever.
\<close>

theorem reapChildren_returns_iff:
  assumes "distinct (pidArray s)" and "list_all (\<lambda>p. 0 < p) (pidArray s)"
  shows "reapChildren s \<noteq> None \<longleftrightarrow> set (pidArray s) \<subseteq> dom (procs s)"
proof
  assume "reapChildren s \<noteq> None"
  then obtain r where "reap_from 0 s = Some r" by (auto simp: reapChildren_def)
  then have "\<not> reap_stuck 0 s" by (rule reap_from_Some_not_stuck)
  with assms show "set (pidArray s) \<subseteq> dom (procs s)" by (auto simp: reap_stuck_def)
next
  assume "set (pidArray s) \<subseteq> dom (procs s)"
  with assms have "registry_ok s" by (simp add: registry_ok_def)
  then show "reapChildren s \<noteq> None" using reap_from_spec [of s 0] by (simp add: reapChildren_def)
qed

section \<open>Shutdown\<close>

text \<open>\<open>killBG\<close> (lines 567--572) and \<open>reapBG\<close> (lines 583--589): one \<open>kill\<close>, then one blocking \<open>waitpid\<close>, per entry.\<close>

primrec kill_each :: "pid list \<Rightarrow> shell \<Rightarrow> shell" where
  "kill_each [] s = s"
| "kill_each (p # ps) s = kill_each ps (kill_term p s)"

definition killBG :: "shell \<Rightarrow> shell" where
  "killBG s = kill_each (pidArray s) s"

fun reap_each :: "pid list \<Rightarrow> shell \<Rightarrow> shell option" where
  "reap_each [] s = Some s"
| "reap_each (p # ps) s =
     (case waitpid p False s of
        None \<Rightarrow> None
      | Some (r, w, s1) \<Rightarrow> reap_each ps (s1\<lparr>childExitMethod := case_option (childExitMethod s1) id w\<rparr>))"

definition reapBG :: "shell \<Rightarrow> shell option" where
  "reapBG s = reap_each (pidArray s) s"

definition stopped :: "'a os_scheme \<Rightarrow> pid \<Rightarrow> bool" where
  "stopped s p \<longleftrightarrow> (case procs s p of Some (Stopped st) \<Rightarrow> True | _ \<Rightarrow> False)"

definition killed :: "pstate option \<Rightarrow> pstate option" where
  "killed x = (case x of Some (Running st) \<Rightarrow> Some (Zombie (W_TERMSIG SIGTERM)) | _ \<Rightarrow> x)"

lemma procs_kill_each:
  "procs (kill_each ps s) q = (if q \<in> set ps then killed (procs s q) else procs s q)"
proof (induction ps arbitrary: s)
  case Nil
  then show ?case by simp
next
  case (Cons p ps)
  have k: "procs (kill_term p s) q = (if q = p then killed (procs s q) else procs s q)"
    by (auto simp: kill_term_def killed_def split: option.splits pstate.splits)
  have kk: "killed (killed x) = killed x" for x
    by (auto simp: killed_def split: option.splits pstate.splits)
  show ?case using Cons.IH k kk by auto
qed

lemma pidArray_kill_each [simp]: "pidArray (kill_each ps s) = pidArray s"
  by (induction ps arbitrary: s) (simp_all add: kill_term_def split: option.splits pstate.splits)

lemma reap_each_returns:
  assumes "distinct ps" and "\<forall>p\<in>set ps. \<not> stopped s p"
  shows "\<exists>s'. reap_each ps s = Some s' \<and> (\<forall>p\<in>set ps. procs s' p = None) \<and>
              (\<forall>q. q \<notin> set ps \<longrightarrow> procs s' q = procs s q)"
  using assms
proof (induction ps arbitrary: s)
  case Nil
  then show ?case by simp
next
  case (Cons p ps)
  obtain r w s1 where wp: "waitpid p False s = Some (r, w, s1)" and p1: "procs s1 p = None"
    and o1: "\<forall>q. q \<noteq> p \<longrightarrow> procs s1 q = procs s q"
    using Cons.prems(2)
    by (cases "procs s p") (auto simp: stopped_def split: pstate.splits)
  let ?s2 = "s1\<lparr>childExitMethod := case_option (childExitMethod s1) id w\<rparr>"
  have ns: "\<forall>q\<in>set ps. \<not> stopped ?s2 q"
    using Cons.prems o1 by (auto simp: stopped_def)
  have "distinct ps" using Cons.prems(1) by simp
  from Cons.IH [OF this ns] obtain s' where r: "reap_each ps ?s2 = Some s'"
    and a: "\<forall>q\<in>set ps. procs s' q = None"
    and b: "\<forall>q. q \<notin> set ps \<longrightarrow> procs s' q = procs ?s2 q"
    by blast
  show ?case using wp r a b p1 o1 Cons.prems(1) by auto
qed

lemma reap_each_hangs:
  "p \<in> set ps \<Longrightarrow> stopped s p \<Longrightarrow> reap_each ps s = None"
proof (induction ps arbitrary: s)
  case Nil
  then show ?case by simp
next
  case (Cons q ps)
  show ?case
  proof (cases "waitpid q False s")
    case None
    then show ?thesis by simp
  next
    case (Some a)
    then obtain r w s1 where wp: "waitpid q False s = Some (r, w, s1)" by (cases a) auto
    have "q \<noteq> p" using wp Cons.prems(2) by (auto simp: stopped_def split: option.splits pstate.splits)
    then have "p \<in> set ps" using Cons.prems(1) by simp
    moreover have "stopped s1 p"
      using waitpid_procs [OF wp] \<open>q \<noteq> p\<close> Cons.prems(2) by (simp add: stopped_def)
    ultimately have "reap_each ps (s1\<lparr>childExitMethod := case_option (childExitMethod s1) id w\<rparr>) = None"
      using Cons.IH by (simp add: stopped_def)
    with wp show ?thesis by simp
  qed
qed

lemma pidArray_killBG [simp]: "pidArray (killBG s) = pidArray s"
  by (simp add: killBG_def)

lemma stopped_killBG: "stopped (killBG s) p = stopped s p"
  by (auto simp: killBG_def stopped_def procs_kill_each killed_def split: option.splits pstate.splits)

lemma reap_each_last:
  assumes "distinct ps" "ps \<noteq> []" "\<forall>p\<in>set ps. \<exists>st. procs s p = Some (Zombie st)"
    "reap_each ps s = Some s'"
  shows "Some (childExitMethod s') = zombie_status s (last ps)"
  using assms
proof (induction ps arbitrary: s)
  case Nil
  then show ?case by simp
next
  case (Cons p ps)
  obtain st where z: "procs s p = Some (Zombie st)" using Cons.prems(3) by auto
  let ?s2 = "(s\<lparr>procs := (procs s)(p := None)\<rparr>)\<lparr>childExitMethod := st\<rparr>"
  have r: "reap_each ps ?s2 = Some s'" using Cons.prems(4) z by simp
  show ?case
  proof (cases "ps = []")
    case True
    then have "s' = ?s2" using r by simp
    then show ?thesis using True z by (simp add: zombie_status_def)
  next
    case False
    have "p \<notin> set ps" using Cons.prems(1) by simp
    then have zs: "\<forall>q\<in>set ps. \<exists>st. procs ?s2 q = Some (Zombie st)" using Cons.prems(3) by auto
    have "last ps \<noteq> p" using False \<open>p \<notin> set ps\<close> last_in_set by blast
    then have "zombie_status ?s2 (last ps) = zombie_status s (last ps)" by (simp add: zombie_status_def)
    then show ?thesis using Cons.IH [OF _ False zs r] Cons.prems(1) False by simp
  qed
qed

lemma killBG_zombies:
  assumes "registry_ok s" and "\<forall>p\<in>set (pidArray s). \<not> stopped s p"
  shows "\<forall>p\<in>set (pidArray s). \<exists>st. procs (killBG s) p = Some (Zombie st)"
proof
  fix p assume p: "p \<in> set (pidArray s)"
  then obtain x where x: "procs s p = Some x" using assms(1) by (auto simp: registry_ok_def)
  then show "\<exists>st. procs (killBG s) p = Some (Zombie st)"
    using p assms(2) by (cases x) (auto simp: killBG_def procs_kill_each killed_def stopped_def)
qed

text \<open>
  C15: at shutdown, when no registered job is stopped, \<open>killBG\<close> followed by
  \<open>reapBG\<close> returns and leaves no registered job outstanding; every job that was
  still running has been terminated by \<open>SIGTERM\<close> (it is not waited for to finish
  on its own), and the status the blocking \<open>waitpid\<close> loop leaves in
  \<open>childExitMethod\<close> is the termination status of the last registered job.
\<close>

theorem shutdown_reaps_all:
  assumes "registry_ok s" and "\<forall>p\<in>set (pidArray s). \<not> stopped s p"
  shows "\<exists>s'. reapBG (killBG s) = Some s' \<and> (\<forall>p\<in>set (pidArray s). procs s' p = None) \<and>
     (\<forall>p\<in>set (pidArray s). \<forall>st. procs s p = Some (Running st) \<longrightarrow>
        procs (killBG s) p = Some (Zombie (W_TERMSIG SIGTERM))) \<and>
     (pidArray s \<noteq> [] \<longrightarrow> Some (childExitMethod s') = zombie_status (killBG s) (last (pidArray s)))"
proof -
  have d: "distinct (pidArray (killBG s))" using assms(1) by (simp add: registry_ok_def)
  moreover have "\<forall>p\<in>set (pidArray (killBG s)). \<not> stopped (killBG s) p"
    using assms(2) by (simp add: stopped_killBG)
  ultimately obtain s' where r: "reapBG (killBG s) = Some s'"
    and a: "\<forall>p\<in>set (pidArray s). procs s' p = None"
    using reap_each_returns [of "pidArray (killBG s)" "killBG s"] by (auto simp: reapBG_def)
  have k: "\<forall>p\<in>set (pidArray s). \<forall>st. procs s p = Some (Running st) \<longrightarrow>
        procs (killBG s) p = Some (Zombie (W_TERMSIG SIGTERM))"
    by (simp add: killBG_def procs_kill_each killed_def)
  have "pidArray s \<noteq> [] \<longrightarrow> Some (childExitMethod s') = zombie_status (killBG s) (last (pidArray s))"
    using reap_each_last [of "pidArray s" "killBG s" s'] d killBG_zombies [OF assms] r
    by (simp add: reapBG_def)
  then show ?thesis using r a k by blast
qed

text \<open>
  C17: if a registered background job has been stopped (by the terminal's
  \<open>SIGTSTP\<close>, which reaches the shell's whole process group), \<open>SIGTERM\<close> stays
  pending on it and the blocking \<open>waitpid\<close> of \<open>reapBG\<close> never returns: the
  shutdown sequence hangs.
\<close>

theorem shutdown_hangs_on_stopped_job:
  assumes "p \<in> set (pidArray s)" and "stopped s p"
  shows "reapBG (killBG s) = None"
proof -
  have "stopped (killBG s) p" using assms(2) by (simp add: stopped_killBG)
  with assms(1) show ?thesis by (simp add: reapBG_def reap_each_hangs)
qed

section \<open>Examples\<close>

text \<open>Two background jobs: pid 3 has exited with status 0, pid 4 is still running.\<close>

abbreviation demo_registry :: shell where
  "demo_registry \<equiv>
     \<lparr>procs = [3 \<mapsto> Zombie (W_EXITCODE 0), 4 \<mapsto> Running (W_EXITCODE 1)], next_pid = 5,
      tty = [], cwd = [], canRunBG = True, pidArray = [3, 4], childExitMethod = 0\<rparr>"

abbreviation demo_stale :: shell where
  "demo_stale \<equiv>
     \<lparr>procs = Map.empty, next_pid = 5, tty = [], cwd = [], canRunBG = True,
      pidArray = [3], childExitMethod = 0\<rparr>"

abbreviation demo_stopped :: shell where
  "demo_stopped \<equiv>
     \<lparr>procs = [3 \<mapsto> Stopped (W_EXITCODE 0)], next_pid = 5, tty = [], cwd = [],
      canRunBG = True, pidArray = [3], childExitMethod = 0\<rparr>"

theorem reapChildren_refines_witness:
  "registry_ok demo_registry \<and> reapChildren demo_registry = Some (reap_spec demo_registry) \<and>
   pidArray (reap_spec demo_registry) = [4] \<and>
   tty (reap_spec demo_registry) = ''background pid 3 is done: exit value 0'' @ [NL]"
proof -
  have ok: "registry_ok demo_registry" by (simp add: registry_ok_def)
  have "tty (reap_spec demo_registry) = ''background pid 3 is done: exit value 0'' @ [NL]"
    by (simp add: reap_spec_def zombie_status_def reap_entry_def tty_write_def bg_done_msg_def
        W_EXITCODE_def WIFEXITED_def WIFSIGNALED_def WEXITSTATUS_def int_str_def nat_str.simps digit_char_def)
  moreover have "pidArray (reap_spec demo_registry) = [4]"
    by (simp add: reap_spec_def zombie_status_def)
  ultimately show ?thesis using ok reapChildren_refines [OF ok] by simp
qed

theorem reapChildren_returns_iff_witness:
  "distinct (pidArray demo_stale) \<and> list_all (\<lambda>p. 0 < p) (pidArray demo_stale) \<and>
   reapChildren demo_stale = None"
  using reapChildren_returns_iff [of demo_stale] by simp

theorem shutdown_reaps_all_witness:
  "registry_ok demo_registry \<and> \<not> stopped demo_registry 3 \<and> \<not> stopped demo_registry 4 \<and>
   (\<exists>s'. reapBG (killBG demo_registry) = Some s' \<and> procs s' 3 = None \<and> procs s' 4 = None \<and>
        childExitMethod s' = W_TERMSIG SIGTERM)"
proof -
  have ok: "registry_ok demo_registry" by (simp add: registry_ok_def)
  have ns: "\<forall>p\<in>set (pidArray demo_registry). \<not> stopped demo_registry p"
    by (simp add: stopped_def)
  have z: "zombie_status (killBG demo_registry) 4 = Some (W_TERMSIG SIGTERM)"
    by (simp add: zombie_status_def killBG_def procs_kill_each killed_def del: kill_each.simps)
  obtain s' where "reapBG (killBG demo_registry) = Some s'" "procs s' 3 = None" "procs s' 4 = None"
      "Some (childExitMethod s') = zombie_status (killBG demo_registry) 4"
    using shutdown_reaps_all [OF ok ns] by auto
  then show ?thesis using ok ns z by auto
qed

theorem shutdown_hangs_on_stopped_job_witness:
  "3 \<in> set (pidArray demo_stopped) \<and> stopped demo_stopped 3 \<and> reapBG (killBG demo_stopped) = None"
proof -
  have m: "3 \<in> set (pidArray demo_stopped)" by simp
  have st: "stopped demo_stopped 3" by (simp add: stopped_def)
  show ?thesis using m st shutdown_hangs_on_stopped_job [OF m st] by blast
qed

end
