(* ===== verification/Parser.thy ===== *)
theory Parser
  imports Shell_State
begin

text \<open>
  The line parsing of smallsh (src/smallsh.c): \<open>tokenizeInput\<close> (lines 56--73), a
  \<open>strtok(.., " ")\<close> loop copying each token into a 50-byte buffer of the 512-slot
  array \<open>userCmds\<close>; \<open>expandPID\<close> (lines 106--152), which replaces each \<open>$$\<close> of a
  token by the shell's pid, re-searching the token from its start after each
  replacement; and \<open>checkIfBG\<close> (lines 200--212), which strips a final \<open>&\<close>. The
  array \<open>userCmds\<close> is a list of \<open>string option\<close> (\<open>None\<close> is a NULL slot); the
  buffer sizes are checked, and writing past them is the fault it is in C.
\<close>

section \<open>Tokenizer\<close>

definition MAXARGS :: nat where
  "MAXARGS = 512"

definition TOKBUF :: nat where
  "TOKBUF = 50"  \<comment> \<open>\<open>calloc(50, sizeof(char))\<close> per token\<close>

text \<open>One call of \<open>strtok\<close> with delimiter \<open>" "\<close>: skip spaces, cut the token at the next space.\<close>

definition strtok_next :: "string \<Rightarrow> (string \<times> string) option" where
  "strtok_next s =
     (let s1 = dropWhile (\<lambda>c. c = CHR '' '') s in
      if s1 = [] then None
      else Some (takeWhile (\<lambda>c. c \<noteq> CHR '' '') s1, drop 1 (dropWhile (\<lambda>c. c \<noteq> CHR '' '') s1)))"

lemma strtok_next_shorter: "strtok_next s = Some (t, r) \<Longrightarrow> length r < length s"
proof -
  assume eq: "strtok_next s = Some (t, r)"
  define s1 where "s1 = dropWhile (\<lambda>c. c = CHR '' '') s"
  have ne: "s1 \<noteq> []" and r: "r = drop 1 (dropWhile (\<lambda>c. c \<noteq> CHR '' '') s1)"
    using eq unfolding strtok_next_def Let_def s1_def[symmetric] by (simp_all split: if_splits)
  obtain c cs where s1c: "s1 = c # cs" using ne by (cases s1) auto
  have "c \<noteq> CHR '' ''" using hd_dropWhile [of "\<lambda>c. c = CHR '' ''" s] ne s1c by (simp add: s1_def)
  then have "dropWhile (\<lambda>c. c \<noteq> CHR '' '') s1 = dropWhile (\<lambda>c. c \<noteq> CHR '' '') cs" using s1c by simp
  moreover have "length (dropWhile (\<lambda>c. c \<noteq> CHR '' '') cs) \<le> length cs"
    by (rule length_dropWhile_le)
  ultimately have "length r \<le> length cs" using r by simp
  moreover have "length s1 \<le> length s" unfolding s1_def by (rule length_dropWhile_le)
  ultimately show ?thesis using s1c by simp
qed

function strtok_all :: "string \<Rightarrow> string list" where
  "strtok_all s = (case strtok_next s of None \<Rightarrow> [] | Some (t, r) \<Rightarrow> t # strtok_all r)"
  by pat_completeness auto
termination
  by (relation "measure length") (auto dest: strtok_next_shorter)

declare strtok_all.simps [simp del]

definition tokenizeInput :: "string \<Rightarrow> fault + string list" where
  "tokenizeInput line =
     (let toks = strtok_all line in
      if list_ex (\<lambda>t. TOKBUF \<le> length t) (take MAXARGS toks) then Inl Token_overflow
      else if MAXARGS < length toks then Inl Argv_overflow
      else Inr toks)"

subsection \<open>Tokens\<close>

text \<open>Printing a token list back, one space between tokens.\<close>

fun join_tokens :: "string list \<Rightarrow> string" where
  "join_tokens [] = []"
| "join_tokens [t] = t"
| "join_tokens (t # ts) = t @ CHR '' '' # join_tokens ts"

definition word_token :: "string \<Rightarrow> bool" where
  "word_token t \<longleftrightarrow> t \<noteq> [] \<and> CHR '' '' \<notin> set t"

lemma strtok_all_None: "strtok_next s = None \<Longrightarrow> strtok_all s = []"
  by (simp add: strtok_all.simps [of s])

lemma strtok_all_Some: "strtok_next s = Some (t, r) \<Longrightarrow> strtok_all s = t # strtok_all r"
  by (simp add: strtok_all.simps [of s])

lemma strtok_all_Nil: "strtok_all [] = []"
  by (simp add: strtok_all.simps [of "[]"] strtok_next_def)

lemma strtok_next_word:
  assumes w: "word_token t" and rest: "rest = [] \<or> hd rest = CHR '' ''"
  shows "strtok_next (t @ rest) = Some (t, drop 1 rest)"
proof -
  obtain c cs where t: "t = c # cs" using w by (cases t) (auto simp: word_token_def)
  have c: "c \<noteq> CHR '' ''" using w t by (auto simp: word_token_def)
  have ns: "\<And>x. x \<in> set t \<Longrightarrow> x \<noteq> CHR '' ''" using w by (auto simp: word_token_def)
  have tr: "takeWhile (\<lambda>c. c \<noteq> CHR '' '') rest = []"
    using rest by (cases rest) auto
  have dr: "dropWhile (\<lambda>c. c \<noteq> CHR '' '') rest = rest"
    using rest by (cases rest) auto
  have d: "dropWhile (\<lambda>c. c = CHR '' '') (t @ rest) = t @ rest" using c t by simp
  have tw: "takeWhile (\<lambda>c. c \<noteq> CHR '' '') (t @ rest) = t"
    using tr by (simp add: takeWhile_append2 ns)
  have dw: "dropWhile (\<lambda>c. c \<noteq> CHR '' '') (t @ rest) = rest"
    using dr by (simp add: dropWhile_append2 ns)
  have ne: "t @ rest \<noteq> []" using t by simp
  show ?thesis using d tw dw ne unfolding strtok_next_def Let_def by simp
qed

lemma strtok_all_join_tokens: "list_all word_token ts \<Longrightarrow> strtok_all (join_tokens ts) = ts"
proof (induction ts rule: join_tokens.induct)
  case 1
  then show ?case by (simp add: strtok_all_Nil)
next
  case (2 t)
  have "strtok_next (t @ []) = Some (t, drop 1 [])" using 2 by (intro strtok_next_word) simp_all
  then show ?case by (simp add: strtok_all.simps [of t] strtok_all_Nil)
next
  case (3 t u us)
  have "strtok_next (t @ CHR '' '' # join_tokens (u # us)) = Some (t, join_tokens (u # us))"
    using "3.prems" strtok_next_word [of t "CHR '' '' # join_tokens (u # us)"] by simp
  with "3.IH" "3.prems" show ?case
    by (simp add: strtok_all.simps [of "t @ CHR '' '' # join_tokens (u # us)"])
qed

lemma strtok_next_word_token:
  "strtok_next s = Some (t, r) \<Longrightarrow> word_token t"
proof -
  assume eq: "strtok_next s = Some (t, r)"
  define s1 where "s1 = dropWhile (\<lambda>c. c = CHR '' '') s"
  have ne: "s1 \<noteq> []" and t: "t = takeWhile (\<lambda>c. c \<noteq> CHR '' '') s1"
    using eq unfolding strtok_next_def Let_def s1_def[symmetric] by (simp_all split: if_splits)
  obtain c cs where s1c: "s1 = c # cs" using ne by (cases s1) auto
  have "c \<noteq> CHR '' ''" using hd_dropWhile [of "\<lambda>c. c = CHR '' ''" s] ne s1c by (simp add: s1_def)
  then have "t \<noteq> []" using t s1c by simp
  moreover have "CHR '' '' \<notin> set t" using t by (auto dest: set_takeWhileD)
  ultimately show ?thesis by (simp add: word_token_def)
qed

lemma strtok_all_word_tokens: "list_all word_token (strtok_all s)"
proof (induction s rule: strtok_all.induct)
  case (1 s)
  show ?case
  proof (cases "strtok_next s")
    case None
    then show ?thesis by (simp add: strtok_all.simps [of s])
  next
    case (Some a)
    then obtain t r where tr: "strtok_next s = Some (t, r)" by (cases a) auto
    with "1.IH" have "list_all word_token (strtok_all r)" by simp
    with tr strtok_next_word_token [OF tr] show ?thesis by (simp add: strtok_all.simps [of s])
  qed
qed


section \<open>Expansion of \<open>$$\<close>\<close>

text \<open>\<open>snprintf(pidBuff, 9, "%d", getpid())\<close>: at most eight digits.\<close>

definition pid_str :: "nat \<Rightarrow> string" where
  "pid_str n = take 8 (nat_str n)"

text \<open>\<open>strstr(s, "$$")\<close>: the index of the first occurrence.\<close>

fun find_dd :: "string \<Rightarrow> nat option" where
  "find_dd (a # b # rest) =
     (if a = CHR ''$'' \<and> b = CHR ''$'' then Some 0 else map_option Suc (find_dd (b # rest)))"
| "find_dd _ = None"

definition dollars :: "string \<Rightarrow> nat" where
  "dollars s = length (filter (\<lambda>c. c = CHR ''$'') s)"

lemma find_dd_split:
  "find_dd s = Some i \<Longrightarrow> s = take i s @ CHR ''$'' # CHR ''$'' # drop (i + 2) s"
proof (induction s arbitrary: i rule: find_dd.induct)
  case (1 a b rest)
  show ?case
  proof (cases "a = CHR ''$'' \<and> b = CHR ''$''")
    case True
    with "1.prems" show ?thesis by simp
  next
    case False
    with "1.prems" obtain j where j: "find_dd (b # rest) = Some j" and i: "i = Suc j" by auto
    from "1.IH" [OF False j] i show ?thesis by simp
  qed
qed simp_all

lemma pid_str_no_dollar: "CHR ''$'' \<notin> set (pid_str n)"
  using nat_str_no_dollar [of n] in_set_takeD by (fastforce simp: pid_str_def)

lemma dollars_replaced:
  assumes "find_dd s = Some i"
  shows "dollars (take i s @ pid_str n @ drop (Suc (Suc i)) s) < dollars s"
proof -
  have "dollars s = dollars (take i s @ CHR ''$'' # CHR ''$'' # drop (i + 2) s)"
    using find_dd_split [OF assms] by simp
  moreover have "filter (\<lambda>c. c = CHR ''$'') (pid_str n) = []"
    using pid_str_no_dollar [of n] by (auto simp: filter_empty_conv)
  ultimately show ?thesis by (simp add: dollars_def)
qed

text \<open>
  The \<open>do ... while (index)\<close> loop of \<open>expandPID\<close> on one token: copy what follows
  the \<open>$$\<close> into the 40-byte \<open>post\<close>, cut the token at the \<open>$$\<close>, append the pid and
  then \<open>post\<close>, and search again from the start.
\<close>

function expand_token :: "nat \<Rightarrow> string \<Rightarrow> fault + string" where
  "expand_token n tok =
     (case find_dd tok of
        None \<Rightarrow> Inr tok
      | Some i \<Rightarrow>
          (let pre = take i tok; post = drop (i + 2) tok; tok' = pre @ pid_str n @ post in
           if 40 \<le> length post then Inl Post_overflow
           else if TOKBUF \<le> length tok' then Inl Token_overflow
           else expand_token n tok'))"
  by pat_completeness auto
termination
  by (relation "measure (\<lambda>(n, tok). dollars tok)") (auto simp: Let_def dollars_replaced)

declare expand_token.simps [simp del]

lemma expand_token_None: "find_dd tok = None \<Longrightarrow> expand_token n tok = Inr tok"
  by (simp add: expand_token.simps [of n tok])

lemma expand_token_Some:
  "find_dd tok = Some i \<Longrightarrow>
     expand_token n tok =
       (if 40 \<le> length (drop (i + 2) tok) then Inl Post_overflow
        else if TOKBUF \<le> length (take i tok @ pid_str n @ drop (i + 2) tok) then Inl Token_overflow
        else expand_token n (take i tok @ pid_str n @ drop (i + 2) tok))"
  by (simp add: expand_token.simps [of n tok] Let_def)

fun expandPID :: "nat \<Rightarrow> string list \<Rightarrow> fault + string list" where
  "expandPID n [] = Inr []"
| "expandPID n (t # ts) =
     (case expand_token n t of
        Inl e \<Rightarrow> Inl e
      | Inr t' \<Rightarrow> (case expandPID n ts of Inl e \<Rightarrow> Inl e | Inr ts' \<Rightarrow> Inr (t' # ts')))"

section \<open>Background marker\<close>

text \<open>
  \<open>checkIfBG\<close> on the slots \<open>userCmds[0 .. cmdCount-1]\<close>: if the last one is
  \<open>"&"\<close> it is freed and set to NULL. The count is not decremented.
\<close>

definition checkIfBG :: "string option list \<Rightarrow> fault + string option list \<times> bool" where
  "checkIfBG cmds =
     (if cmds = [] then Inl Negative_index
      else (case cmds ! (length cmds - 1) of
              None \<Rightarrow> Inl Null_deref
            | Some t \<Rightarrow>
                if t = ''&'' then Inr (cmds[length cmds - 1 := None], True)
                else Inr (cmds, False)))"

lemma update_last: "xs \<noteq> [] \<Longrightarrow> xs[length xs - 1 := v] = butlast xs @ [v]"
proof -
  assume ne: "xs \<noteq> []"
  then have "xs = butlast xs @ [last xs]" by simp
  then have "xs[length xs - 1 := v] = (butlast xs @ [last xs])[length (butlast xs) := v]"
    using ne by simp
  also have "\<dots> = butlast xs @ [v]" by (rule list_update_length)
  finally show ?thesis .
qed

text \<open>C12: On a tokenized command, \<open>checkIfBG\<close> reports a background request exactly when the
  last token is \<open>&\<close>, and then NULLs that slot so it is not passed to \<open>execvp\<close>.\<close>

theorem checkIfBG_tokens:
  "toks \<noteq> [] \<Longrightarrow>
     checkIfBG (map Some toks) =
       Inr (if last toks = ''&'' then (map Some (butlast toks) @ [None], True) else (map Some toks, False))"
proof -
  assume ne: "toks \<noteq> []"
  then have l: "map Some toks ! (length toks - 1) = Some (last toks)"
    by (simp add: last_conv_nth)
  have u: "(map Some toks)[length toks - 1 := None] = map Some (butlast toks) @ [None]"
    using ne update_last [of "map Some toks" None] by (simp add: map_butlast)
  show ?thesis using ne l u by (simp add: checkIfBG_def)
qed


theorem checkIfBG_tokens_witness:
  "checkIfBG (map Some [''sleep'', ''5'', ''&'']) = Inr ([Some ''sleep'', Some ''5'', None], True)"
  using checkIfBG_tokens [of "[''sleep'', ''5'', ''&'']"] by simp

section \<open>Properties of the expansion and the tokenizer\<close>

text \<open>
  The contract of the expansion (every \<open>$$\<close>, scanned left to right, replaced by the pid), as
  a reference function to compare the re-searching loop of the code with.
\<close>

fun subst_dd :: "string \<Rightarrow> string \<Rightarrow> string" where
  "subst_dd p (a # b # rest) =
     (if a = CHR ''$'' \<and> b = CHR ''$'' then p @ subst_dd p rest else a # subst_dd p (b # rest))"
| "subst_dd p cs = cs"

lemma subst_dd_at:
  "find_dd tok = Some i \<Longrightarrow> subst_dd p tok = take i tok @ p @ subst_dd p (drop (i + 2) tok)"
proof (induction tok arbitrary: i rule: find_dd.induct)
  case (1 a b rest)
  show ?case
  proof (cases "a = CHR ''$'' \<and> b = CHR ''$''")
    case True
    with "1.prems" show ?thesis by simp
  next
    case False
    with "1.prems" obtain j where j: "find_dd (b # rest) = Some j" and i: "i = Suc j" by auto
    have "subst_dd p (a # b # rest) = a # subst_dd p (b # rest)" using False by (simp only: subst_dd.simps if_False)
    with "1.IH" [OF False j] i show ?thesis by simp
  qed
qed simp_all

lemma subst_dd_None: "find_dd tok = None \<Longrightarrow> subst_dd p tok = tok"
  by (induction p tok rule: subst_dd.induct) (auto split: if_splits)

lemma find_dd_prefix: "find_dd tok = Some i \<Longrightarrow> find_dd (take i tok) = None"
proof (induction tok arbitrary: i rule: find_dd.induct)
  case (1 a b rest)
  show ?case
  proof (cases "a = CHR ''$'' \<and> b = CHR ''$''")
    case True
    with "1.prems" show ?thesis by simp
  next
    case False
    with "1.prems" obtain j where j: "find_dd (b # rest) = Some j" and i: "i = Suc j" by auto
    have ih: "find_dd (take j (b # rest)) = None" by (rule "1.IH" [OF False j])
    show ?thesis
    proof (cases j)
      case 0
      then show ?thesis using i by simp
    next
      case (Suc k)
      then show ?thesis using i ih False by simp
    qed
  qed
qed simp_all

lemma find_dd_no_dollar: "CHR ''$'' \<notin> set ys \<Longrightarrow> find_dd ys = None"
  by (induction ys rule: find_dd.induct) auto

lemma find_dd_append_no_dollar:
  "find_dd xs = None \<Longrightarrow> CHR ''$'' \<notin> set ys \<Longrightarrow> find_dd (xs @ ys) = None"
proof (induction xs rule: induct_list012)
  case 1
  then show ?case by (simp add: find_dd_no_dollar)
next
  case (2 a)
  then show ?case by (cases ys) (auto simp: find_dd_no_dollar)
next
  case (3 a b rest)
  then show ?case by (auto split: if_splits)
qed

lemma subst_dd_skip:
  "find_dd xs = None \<Longrightarrow> (xs = [] \<or> last xs \<noteq> CHR ''$'') \<Longrightarrow> subst_dd p (xs @ ys) = xs @ subst_dd p ys"
proof (induction xs rule: induct_list012)
  case 1
  then show ?case by simp
next
  case (2 a)
  then show ?case by (cases ys) auto
next
  case (3 a b rest)
  have "\<not> (a = CHR ''$'' \<and> b = CHR ''$'')" and "find_dd (b # rest) = None"
    using "3.prems"(1) by (auto split: if_splits)
  moreover have "last (b # rest) \<noteq> CHR ''$''" using "3.prems"(2) by simp
  ultimately have "subst_dd p (b # rest @ ys) = b # rest @ subst_dd p ys"
    and "subst_dd p (a # b # rest @ ys) = a # subst_dd p (b # rest @ ys)"
    using "3.IH"(2) by (simp_all only: append_Cons subst_dd.simps if_False) simp
  then show ?case by simp
qed

lemma pid_str_nonempty: "pid_str n \<noteq> []"
  using nat_str_nonempty [of n] by (simp add: pid_str_def)

lemma subst_dd_replaced:
  assumes "find_dd tok = Some i"
  shows "subst_dd (pid_str n) (take i tok @ pid_str n @ drop (i + 2) tok) = subst_dd (pid_str n) tok"
proof -
  let ?p = "pid_str n"
  have "find_dd (take i tok @ ?p) = None"
    using find_dd_prefix [OF assms] pid_str_no_dollar by (rule find_dd_append_no_dollar)
  moreover have "last (take i tok @ ?p) \<noteq> CHR ''$''"
  proof -
    have "last (take i tok @ ?p) = last ?p" using pid_str_nonempty [of n] by simp
    moreover have "last ?p \<noteq> CHR ''$''"
      using last_in_set [OF pid_str_nonempty [of n]] pid_str_no_dollar [of n] by metis
    ultimately show ?thesis by simp
  qed
  ultimately have "subst_dd ?p ((take i tok @ ?p) @ drop (i + 2) tok) = (take i tok @ ?p) @ subst_dd ?p (drop (i + 2) tok)"
    by (intro subst_dd_skip) simp_all
  then show ?thesis using subst_dd_at [OF assms, of ?p] by simp
qed

text \<open>C10: The expansion loop, which re-searches the token from its start after each
  replacement, computes the left-to-right replacement of every \<open>$$\<close> by the pid whenever
  it does not overflow a buffer.\<close>

theorem expand_token_subst: "expand_token n tok = Inr t \<Longrightarrow> t = subst_dd (pid_str n) tok"
proof (induction n tok rule: expand_token.induct)
  case (1 n tok)
  show ?case
  proof (cases "find_dd tok")
    case None
    then show ?thesis using "1.prems" by (simp add: expand_token_None subst_dd_None)
  next
    case (Some i)
    let ?tok' = "take i tok @ pid_str n @ drop (i + 2) tok"
    have "expand_token n ?tok' = Inr t" using "1.prems" Some by (simp add: expand_token_Some split: if_splits)
    moreover have "\<not> 40 \<le> length (drop (i + 2) tok)" "\<not> TOKBUF \<le> length ?tok'"
      using "1.prems" Some by (simp_all add: expand_token_Some split: if_splits)
    ultimately have "t = subst_dd (pid_str n) ?tok'"
      using "1.IH" [OF Some] by (simp add: Let_def)
    then show ?thesis using subst_dd_replaced [OF Some] by simp
  qed
qed

text \<open>C38: \<open>snprintf(pidBuff, 9, "%d", getpid())\<close> keeps at most eight digits: a \<open>$$\<close> token
  becomes the text \<open>pid_str n\<close>, which is the decimal pid exactly when the pid is below
  \<open>10^8\<close>; a larger pid is cut to its first eight digits.\<close>

theorem expand_pid_digits:
  "expandPID n [''$$''] = Inr [pid_str n] \<and> (pid_str n = nat_str n \<longleftrightarrow> n < 10 ^ 8)"
proof
  have "length (pid_str n) \<le> 8" by (simp add: pid_str_def)
  then have "expand_token n ''$$'' = expand_token n (pid_str n)"
    by (simp add: expand_token_Some TOKBUF_def)
  also have "\<dots> = Inr (pid_str n)"
    using find_dd_no_dollar [OF pid_str_no_dollar] by (rule expand_token_None)
  finally show "expandPID n [''$$''] = Inr [pid_str n]" by simp
  show "pid_str n = nat_str n \<longleftrightarrow> n < 10 ^ 8"
    using nat_str_length_le [of 8 n] by (simp add: pid_str_def take_all_iff)
qed

text \<open>C23: A token with 40 or more bytes after a \<open>$$\<close> overflows the 40-byte \<open>post\<close> buffer of
  \<open>expandPID\<close> (\<open>strcpy(post, index2)\<close> writes the text and its terminator).\<close>

theorem expand_post_overflow:
  "find_dd tok = Some i \<Longrightarrow> 40 \<le> length tok - (i + 2) \<Longrightarrow> expand_token n tok = Inl Post_overflow"
  by (simp add: expand_token_Some)

theorem expand_token_subst_witness: "expand_token 4242 ''a$$b$$'' = Inr ''a4242b4242''
   \<and> ''a4242b4242'' = subst_dd (pid_str 4242) ''a$$b$$''"
proof -
  have "expand_token 4242 ''a$$b$$'' = Inr ''a4242b4242''"
    by (simp add: expand_token_Some expand_token_None pid_str_def nat_str.simps digit_char_def TOKBUF_def)
  then show ?thesis using expand_token_subst [of 4242 "''a$$b$$''" "''a4242b4242''"] by simp
qed

text \<open>C11: Tokenizing a line printed from space-free, nonempty tokens, at most 512 of them and each
  shorter than its 50-byte buffer, gives the tokens back.\<close>

theorem tokenizeInput_round_trip:
  assumes "list_all word_token ts" "length ts \<le> MAXARGS" "list_all (\<lambda>t. length t < TOKBUF) ts"
  shows "tokenizeInput (join_tokens ts) = Inr ts"
proof -
  have "\<not> list_ex (\<lambda>t. TOKBUF \<le> length t) (take MAXARGS ts)"
    using assms(3) by (fastforce simp: list_ex_iff list_all_iff dest: in_set_takeD)
  then show ?thesis using assms(2) strtok_all_join_tokens [OF assms(1)] by (simp add: tokenizeInput_def)
qed

theorem expand_post_overflow_witness:
  "expand_token 4242 (''$$'' @ replicate 40 (CHR ''a'')) = Inl Post_overflow"
  using expand_post_overflow [of "''$$'' @ replicate 40 (CHR ''a'')" 0 4242] by simp

theorem tokenizeInput_round_trip_witness:
  "tokenizeInput (join_tokens [''ls'', ''-la'', ''/tmp'']) = Inr [''ls'', ''-la'', ''/tmp'']
   \<and> join_tokens [''ls'', ''-la'', ''/tmp''] = ''ls -la /tmp''"
  using tokenizeInput_round_trip [of "[''ls'', ''-la'', ''/tmp'']"]
  by (simp add: word_token_def MAXARGS_def TOKBUF_def)

theorem expand_pid_digits_witness:
  "expandPID 123456789 [''$$''] = Inr [''12345678''] \<and> pid_str 123456789 \<noteq> nat_str 123456789"
  using expand_pid_digits [of 123456789] by (simp add: pid_str_def nat_str.simps digit_char_def)

end
