(* ===== verification/Launcher.thy ===== *)
theory Launcher
  imports Job_Registry Parser
begin

text \<open>
  Process creation in smallsh (src/smallsh.c): \<open>checkReDirect\<close> (lines 251--360),
  run by the child after \<open>fork\<close>, which opens the files named after \<open><\<close> and \<open>>\<close>,
  rebinds standard input and output, NULLs the operator slots, and binds the
  directions left unset to \<open>/dev/null\<close> for a background command; the child path of
  \<open>forkAndExec\<close> (lines 481--502), which restores \<open>SIGINT\<close> for a foreground command
  and calls \<open>execvp\<close>; the parent path (lines 505--527), which registers a
  background child or waits for a foreground one; and the built-in \<open>cd\<close>
  (\<open>changeDirectory\<close>, lines 164--189). A child is summarised by what it wrote to
  the terminal before it became the program (or died), the program image it
  became, and the status word it ends with.
\<close>

section \<open>Descriptors and diagnostics\<close>

datatype fd_target = Tty | File string | Dev_null

datatype disposition = Sig_ignore | Sig_default

text \<open>\<open>printf\<close> in the child reaches the terminal only while its stdout is the terminal.\<close>

definition say :: "fd_target \<Rightarrow> string \<Rightarrow> string" where
  "say t m = (if t = Tty then m else [])"

text \<open>\<open>perror(m)\<close> writes \<open>m: <strerror(errno)>\<close> to stderr, which smallsh never redirects.\<close>

definition perror_msg :: "string \<Rightarrow> string" where
  "perror_msg m = m @ '': '' @ ''<strerror(errno)>'' @ [NL]"

text \<open>\<open>printf("%s", p)\<close> with glibc: a NULL string prints as \<open>(null)\<close>.\<close>

definition cstr :: "string option \<Rightarrow> string" where
  "cstr x = (case x of Some t \<Rightarrow> t | None \<Rightarrow> ''(null)'')"

text \<open>A token that \<open>checkReDirect\<close> does not take for an operator.\<close>

definition plain_tok :: "string \<Rightarrow> bool" where
  "plain_tok t \<longleftrightarrow> t \<noteq> ''<'' \<and> t \<noteq> ''>''"

section \<open>checkReDirect\<close>

record rd =
  rd_cmds :: "string option list"
  foundIn :: bool
  foundOut :: bool
  rd_in :: fd_target
  rd_out :: fd_target

text \<open>What a child ends with before \<open>exec\<close>: its terminal output and its exit status.\<close>

type_synonym child_exit = "string \<times> wstatus"

text \<open>
  The open of the file named by slot \<open>i + 1\<close>; \<open>open(NULL, ..)\<close> fails. The
  diagnostic goes to the child's current stdout.
\<close>

definition redirect_in :: "env \<Rightarrow> nat \<Rightarrow> rd \<Rightarrow> child_exit + rd" where
  "redirect_in e i r =
     (if slot (rd_cmds r) i = Some ''<'' then
        (let f = slot (rd_cmds r) (Suc i) in
         if f \<noteq> None \<and> can_read e (the f) then
           Inr (r\<lparr>foundIn := True, rd_in := File (the f), rd_cmds := (rd_cmds r)[i := None]\<rparr>)
         else Inl (say (rd_out r) (''cannot open '' @ cstr f @ '' for input'' @ [NL]), W_EXITCODE 1))
      else Inr r)"

definition redirect_out :: "env \<Rightarrow> nat \<Rightarrow> rd \<Rightarrow> child_exit + rd" where
  "redirect_out e i r =
     (if slot (rd_cmds r) i = Some ''>'' then
        (let f = slot (rd_cmds r) (Suc i) in
         if f \<noteq> None \<and> can_write e (the f) then
           Inr (r\<lparr>foundOut := True, rd_out := File (the f), rd_cmds := (rd_cmds r)[i := None]\<rparr>)
         else Inl (say (rd_out r) (''cannot open '' @ cstr f @ '' for output'' @ [NL]), W_EXITCODE 1))
      else Inr r)"

lemma redirect_in_length: "redirect_in e i r = Inr r' \<Longrightarrow> length (rd_cmds r') = length (rd_cmds r)"
  by (auto simp: redirect_in_def Let_def split: if_splits)

lemma redirect_out_length: "redirect_out e i r = Inr r' \<Longrightarrow> length (rd_cmds r') = length (rd_cmds r)"
  by (auto simp: redirect_out_def Let_def split: if_splits)

text \<open>The loop \<open>for (i = 0; i < cmdCount; i++)\<close>: an input test, then an output test, at each slot.\<close>

function redirect_loop :: "env \<Rightarrow> nat \<Rightarrow> rd \<Rightarrow> child_exit + rd" where
  "redirect_loop e i r =
     (if i < length (rd_cmds r) then
        (case redirect_in e i r of
           Inl x \<Rightarrow> Inl x
         | Inr r1 \<Rightarrow>
             (case redirect_out e i r1 of
                Inl x \<Rightarrow> Inl x
              | Inr r2 \<Rightarrow> redirect_loop e (Suc i) r2))
      else Inr r)"
  by pat_completeness auto
termination
  by (relation "measure (\<lambda>(e, i, r). length (rd_cmds r) - i)")
     (auto dest!: redirect_in_length redirect_out_length)

declare redirect_loop.simps [simp del]

text \<open>Lines 323--359: a background command reads from and writes to \<open>/dev/null\<close> by default.\<close>

definition null_redirects :: "env \<Rightarrow> bool \<Rightarrow> bool \<Rightarrow> rd \<Rightarrow> child_exit + rd" where
  "null_redirects e bg canbg r =
     (if bg \<and> canbg then
        (if \<not> foundIn r \<and> \<not> can_read e ''/dev/null'' then
           Inl (perror_msg ''couldnt open dev/null for reading'', W_EXITCODE 1)
         else
           (let r1 = (if foundIn r then r else r\<lparr>rd_in := Dev_null\<rparr>) in
            if \<not> foundOut r1 \<and> \<not> can_write e ''/dev/null'' then
              Inl (perror_msg ''couldnt open dev/null for writing'', W_EXITCODE 1)
            else Inr (if foundOut r1 then r1 else r1\<lparr>rd_out := Dev_null\<rparr>)))
      else Inr r)"

definition init_rd :: "string option list \<Rightarrow> rd" where
  "init_rd cmds = \<lparr>rd_cmds = cmds, foundIn = False, foundOut = False, rd_in = Tty, rd_out = Tty\<rparr>"

definition checkReDirect :: "env \<Rightarrow> string option list \<Rightarrow> bool \<Rightarrow> bool \<Rightarrow> child_exit + rd" where
  "checkReDirect e cmds bg canbg =
     (case redirect_loop e 0 (init_rd cmds) of
        Inl x \<Rightarrow> Inl x
      | Inr r \<Rightarrow> null_redirects e bg canbg r)"

section \<open>The child\<close>

text \<open>\<open>execvp(userCmds[0], userCmds)\<close>: the argument vector ends at the first NULL slot.\<close>

definition argv_of :: "string option list \<Rightarrow> string list" where
  "argv_of cmds = map the (takeWhile (\<lambda>x. x \<noteq> None) cmds)"

record child =
  c_exec :: "(string list \<times> fd_target \<times> fd_target) option"  \<comment> \<open>argv, stdin, stdout of the program\<close>
  c_sigint :: disposition
  c_tty :: string
  c_status :: wstatus

definition child_run :: "env \<Rightarrow> string option list \<Rightarrow> bool \<Rightarrow> bool \<Rightarrow> child" where
  "child_run e cmds bg canbg =
     (case checkReDirect e cmds bg canbg of
        Inl (out, st) \<Rightarrow> \<lparr>c_exec = None, c_sigint = Sig_ignore, c_tty = out, c_status = st\<rparr>
      | Inr r \<Rightarrow>
          (let sig = (if \<not> bg \<or> \<not> canbg then Sig_default else Sig_ignore) in
           case slot (rd_cmds r) 0 of
             None \<Rightarrow> \<lparr>c_exec = None, c_sigint = sig, c_tty = [], c_status = W_TERMSIG SIGSEGV\<rparr>
           | Some prog \<Rightarrow>
               (case exec_result e (argv_of (rd_cmds r)) of
                  None \<Rightarrow> \<lparr>c_exec = None, c_sigint = sig, c_tty = perror_msg prog, c_status = W_EXITCODE 1\<rparr>
                | Some st \<Rightarrow>
                    \<lparr>c_exec = Some (argv_of (rd_cmds r), rd_in r, rd_out r), c_sigint = sig,
                     c_tty = [], c_status = st\<rparr>)))"

section \<open>The parent\<close>

definition sig_msg :: "wstatus \<Rightarrow> string" where
  "sig_msg st = ''terminated by signal '' @ nat_str (unat (WTERMSIG st)) @ [NL]"

text \<open>
  \<open>waitpid(spawnPid, childExitMethod, 0)\<close> and the eager report of a signal death
  (lines 515--526). The \<open>SIGTSTP\<close> handler is installed without \<open>SA_RESTART\<close>: when
  the signal arrives during the wait, the handler runs, \<open>waitpid\<close> fails with
  \<open>EINTR\<close>, and the code goes on with the old status, leaving the child unreaped.
\<close>

definition fg_wait :: "env \<Rightarrow> pid \<Rightarrow> shell \<Rightarrow> shell res" where
  "fg_wait e p s =
     (if tstp_in_wait e then
        res_bind (toggleBG (stop_children (tstp_stops e) s))
          (\<lambda>s1. Ok (if WIFSIGNALED (childExitMethod s1) then tty_write (sig_msg (childExitMethod s1)) s1 else s1))
      else
        (case waitpid p False s of
           None \<Rightarrow> Hang
         | Some (r, w, s1) \<Rightarrow>
             (let s2 = s1\<lparr>childExitMethod := case_option (childExitMethod s1) id w\<rparr> in
              Ok (if WIFSIGNALED (childExitMethod s2) then tty_write (sig_msg (childExitMethod s2)) s2 else s2))))"

definition forkAndExec :: "env \<Rightarrow> string option list \<Rightarrow> bool \<Rightarrow> shell \<Rightarrow> shell res" where
  "forkAndExec e cmds bg s =
     (if \<not> fork_ok e then Exit 1 (tty s @ perror_msg ''Hull Breach! error forking...'')
      else
        (let ch = child_run e cmds bg (canRunBG s);
             (p, s1) = spawn (c_status ch) s;
             s2 = tty_write (c_tty ch) s1 in
         if bg \<and> canRunBG s2 then
           res_bind (res_of_sum (addPid (pidArray s2) p))
             (\<lambda>xs. Ok ((tty_write (''background pid is '' @ int_str p @ [NL]) s2)\<lparr>pidArray := xs\<rparr>))
         else fg_wait e p s2))"

section \<open>The built-in cd\<close>

definition changeDirectory :: "env \<Rightarrow> string option list \<Rightarrow> shell \<Rightarrow> shell res" where
  "changeDirectory e cmds s =
     (case slot cmds 1 of
        None \<Rightarrow>
          (case home e of
             Some h \<Rightarrow> if can_chdir e h then Ok (s\<lparr>cwd := h\<rparr>)
                       else Exit 1 (tty s @ ''error changing to HOME dir'' @ [NL])
           | None \<Rightarrow> Exit 1 (tty s @ ''error changing to HOME dir'' @ [NL]))
      | Some d \<Rightarrow>
          if can_chdir e d then Ok (s\<lparr>cwd := d\<rparr>)
          else Exit 1 (tty s @ ''error changing to '' @ d @ [NL]))"

section \<open>Properties of redirection\<close>

lemma redirect_in_skip: "slot (rd_cmds r) i \<noteq> Some ''<'' \<Longrightarrow> redirect_in e i r = Inr r"
  by (simp add: redirect_in_def)

lemma redirect_out_skip: "slot (rd_cmds r) i \<noteq> Some ''>'' \<Longrightarrow> redirect_out e i r = Inr r"
  by (simp add: redirect_out_def)

lemma redirect_loop_end: "length (rd_cmds r) \<le> i \<Longrightarrow> redirect_loop e i r = Inr r"
  by (simp add: redirect_loop.simps)

lemma redirect_loop_skip:
  "i < length (rd_cmds r) \<Longrightarrow> slot (rd_cmds r) i \<noteq> Some ''<'' \<Longrightarrow> slot (rd_cmds r) i \<noteq> Some ''>''
   \<Longrightarrow> redirect_loop e i r = redirect_loop e (Suc i) r"
  by (subst redirect_loop.simps) (simp add: redirect_in_skip redirect_out_skip)

lemma redirect_loop_none:
  "i < length (rd_cmds r) \<Longrightarrow> slot (rd_cmds r) i = None \<Longrightarrow> redirect_loop e i r = redirect_loop e (Suc i) r"
  by (simp add: redirect_loop_skip)

text \<open>A run of slots holding no operator is passed over.\<close>

lemma redirect_loop_plain:
  "list_all plain_tok args \<Longrightarrow> rd_cmds r = pre @ map Some args @ post
   \<Longrightarrow> redirect_loop e (length pre) r = redirect_loop e (length pre + length args) r"
proof (induction args arbitrary: pre)
  case Nil
  then show ?case by simp
next
  case (Cons a args)
  have "slot (rd_cmds r) (length pre) = Some a" using Cons.prems(2) by (simp add: slot_def nth_append)
  moreover have "length pre < length (rd_cmds r)" using Cons.prems(2) by simp
  ultimately have "redirect_loop e (length pre) r = redirect_loop e (Suc (length pre)) r"
    using Cons.prems(1) by (intro redirect_loop_skip) (auto simp: plain_tok_def)
  also have "\<dots> = redirect_loop e (length (pre @ [Some a]) + length args) r"
    using Cons.IH [of "pre @ [Some a]"] Cons.prems by simp
  finally show ?case by simp
qed

lemma slot_map_Some_append:
  "slot (map Some xs @ ys) i = (if i < length xs then Some (xs ! i) else slot ys (i - length xs))"
  by (auto simp: slot_def nth_append)

lemma redirect_loop_step:
  "i < length (rd_cmds r) \<Longrightarrow> redirect_loop e i r =
     (case redirect_in e i r of Inl x \<Rightarrow> Inl x
      | Inr r1 \<Rightarrow> (case redirect_out e i r1 of Inl x \<Rightarrow> Inl x | Inr r2 \<Rightarrow> redirect_loop e (Suc i) r2))"
  by (subst redirect_loop.simps) simp

lemma slot_split [simp]:
  "slot (pre @ x # post) (length pre) = x"
  "slot (pre @ x # y # post) (Suc (length pre)) = y"
  by (simp_all add: slot_def nth_append)

lemma update_split [simp]: "(pre @ x # post)[length pre := v] = pre @ v # post"
  by simp

text \<open>An input operator followed by a readable file name that is not an operator.\<close>

lemma redirect_loop_in:
  assumes "rd_cmds r = pre @ Some ''<'' # Some f # post" "can_read e f" "plain_tok f"
  shows "redirect_loop e (length pre) r =
           redirect_loop e (length pre + 2)
             (r\<lparr>foundIn := True, rd_in := File f, rd_cmds := pre @ None # Some f # post\<rparr>)"
proof -
  let ?r1 = "r\<lparr>foundIn := True, rd_in := File f, rd_cmds := pre @ None # Some f # post\<rparr>"
  have "redirect_in e (length pre) r = Inr ?r1" using assms(1,2) by (simp add: redirect_in_def)
  moreover have "redirect_out e (length pre) ?r1 = Inr ?r1" by (simp add: redirect_out_skip)
  ultimately have "redirect_loop e (length pre) r = redirect_loop e (Suc (length pre)) ?r1"
    using assms(1) by (simp add: redirect_loop_step)
  also have "\<dots> = redirect_loop e (Suc (Suc (length pre))) ?r1"
    using assms(3) by (intro redirect_loop_skip) (simp_all add: plain_tok_def slot_def nth_append)
  finally show ?thesis by (simp add: numeral_2_eq_2)
qed

text \<open>An output operator followed by a writable file name that is not an operator.\<close>

lemma redirect_loop_out:
  assumes "rd_cmds r = pre @ Some ''>'' # Some g # post" "can_write e g" "plain_tok g"
  shows "redirect_loop e (length pre) r =
           redirect_loop e (length pre + 2)
             (r\<lparr>foundOut := True, rd_out := File g, rd_cmds := pre @ None # Some g # post\<rparr>)"
proof -
  let ?r1 = "r\<lparr>foundOut := True, rd_out := File g, rd_cmds := pre @ None # Some g # post\<rparr>"
  have "redirect_in e (length pre) r = Inr r" using assms(1) by (simp add: redirect_in_skip)
  moreover have "redirect_out e (length pre) r = Inr ?r1" using assms(1,2) by (simp add: redirect_out_def)
  ultimately have "redirect_loop e (length pre) r = redirect_loop e (Suc (length pre)) ?r1"
    using assms(1) by (simp add: redirect_loop_step)
  also have "\<dots> = redirect_loop e (Suc (Suc (length pre))) ?r1"
    using assms(3) by (intro redirect_loop_skip) (simp_all add: plain_tok_def slot_def nth_append)
  finally show ?thesis by (simp add: numeral_2_eq_2)
qed

lemma redirect_loop_both:
  assumes "list_all plain_tok args" "plain_tok a" "plain_tok b"
    and "rd_cmds r = map Some args @ [Some o1, Some a, Some o2, Some b]"
    and "redirect_loop e (length args) r = redirect_loop e (length args + 2) r1"
    and "rd_cmds r1 = map Some args @ [None, Some a, Some o2, Some b]"
    and "redirect_loop e (length args + 2) r1 = redirect_loop e (length args + 4) r2"
    and "rd_cmds r2 = map Some args @ [None, Some a, None, Some b]"
  shows "redirect_loop e 0 r = Inr r2"
proof -
  have "redirect_loop e 0 r = redirect_loop e (length args) r"
    using redirect_loop_plain [of args r "[]"] assms(1,4) by simp
  also have "\<dots> = redirect_loop e (length args + 4) r2" using assms(5,7) by simp
  also have "\<dots> = Inr r2" using assms(8) by (simp add: redirect_loop_end)
  finally show ?thesis .
qed

text \<open>C8: Redirection contract. For a command \<open>args < f > g\<close> or \<open>args > g < f\<close> whose
  file names are not operators and open, the child reads from \<open>f\<close>, writes to \<open>g\<close>, and the
  argument vector passed to \<open>execvp\<close> is \<open>args\<close> (the slots of both operators are NULL),
  whatever the background request.\<close>

theorem checkReDirect_both_orders:
  assumes "list_all plain_tok args" "plain_tok f" "plain_tok g" "can_read e f" "can_write e g"
  shows "checkReDirect e (map Some (args @ [''<'', f, ''>'', g])) bg canbg =
           Inr \<lparr>rd_cmds = map Some args @ [None, Some f, None, Some g], foundIn = True, foundOut = True,
                rd_in = File f, rd_out = File g\<rparr>
       \<and> checkReDirect e (map Some (args @ [''>'', g, ''<'', f])) bg canbg =
           Inr \<lparr>rd_cmds = map Some args @ [None, Some g, None, Some f], foundIn = True, foundOut = True,
                rd_in = File f, rd_out = File g\<rparr>"
proof
  let ?r = "init_rd (map Some (args @ [''<'', f, ''>'', g]))"
  let ?r1 = "?r\<lparr>foundIn := True, rd_in := File f, rd_cmds := map Some args @ None # Some f # [Some ''>'', Some g]\<rparr>"
  have "redirect_loop e (length args) ?r = redirect_loop e (length args + 2) ?r1"
    using redirect_loop_in [of ?r "map Some args" f "[Some ''>'', Some g]"] assms
    by (simp add: init_rd_def)
  moreover have "redirect_loop e (length args + 2) ?r1 =
      redirect_loop e (length args + 4) (?r1\<lparr>foundOut := True, rd_out := File g,
        rd_cmds := (map Some args @ [None, Some f]) @ None # Some g # []\<rparr>)"
    using redirect_loop_out [of ?r1 "map Some args @ [None, Some f]" g "[]"] assms by (simp add: eval_nat_numeral)
  ultimately have "redirect_loop e 0 ?r = Inr (?r1\<lparr>foundOut := True, rd_out := File g,
        rd_cmds := (map Some args @ [None, Some f]) @ None # Some g # []\<rparr>)"
    using assms(1-3) by (intro redirect_loop_both) (simp_all add: init_rd_def)
  then show "checkReDirect e (map Some (args @ [''<'', f, ''>'', g])) bg canbg =
           Inr \<lparr>rd_cmds = map Some args @ [None, Some f, None, Some g], foundIn = True, foundOut = True,
                rd_in = File f, rd_out = File g\<rparr>"
    by (simp add: checkReDirect_def null_redirects_def init_rd_def)
next
  let ?r = "init_rd (map Some (args @ [''>'', g, ''<'', f]))"
  let ?r1 = "?r\<lparr>foundOut := True, rd_out := File g, rd_cmds := map Some args @ None # Some g # [Some ''<'', Some f]\<rparr>"
  have "redirect_loop e (length args) ?r = redirect_loop e (length args + 2) ?r1"
    using redirect_loop_out [of ?r "map Some args" g "[Some ''<'', Some f]"] assms
    by (simp add: init_rd_def)
  moreover have "redirect_loop e (length args + 2) ?r1 =
      redirect_loop e (length args + 4) (?r1\<lparr>foundIn := True, rd_in := File f,
        rd_cmds := (map Some args @ [None, Some g]) @ None # Some f # []\<rparr>)"
    using redirect_loop_in [of ?r1 "map Some args @ [None, Some g]" f "[]"] assms by (simp add: eval_nat_numeral)
  ultimately have "redirect_loop e 0 ?r = Inr (?r1\<lparr>foundIn := True, rd_in := File f,
        rd_cmds := (map Some args @ [None, Some g]) @ None # Some f # []\<rparr>)"
    using assms(1-3) by (intro redirect_loop_both) (simp_all add: init_rd_def)
  then show "checkReDirect e (map Some (args @ [''>'', g, ''<'', f])) bg canbg =
           Inr \<lparr>rd_cmds = map Some args @ [None, Some g, None, Some f], foundIn = True, foundOut = True,
                rd_in = File f, rd_out = File g\<rparr>"
    by (simp add: checkReDirect_def null_redirects_def init_rd_def)
qed

lemma argv_of_prefix: "argv_of (map Some args @ None # rest) = args"
  by (induction args) (simp_all add: argv_of_def)

lemma redirect_loop_plain_all:
  "list_all plain_tok args \<Longrightarrow> rd_cmds r = map Some args \<Longrightarrow> redirect_loop e 0 r = Inr r"
  using redirect_loop_plain [of args r "[]" "[]"] by (simp add: redirect_loop_end)

text \<open>C9: Background default streams. With no operator in the command, a permitted
  background command has both streams bound to \<open>/dev/null\<close>; any other command keeps the
  terminal.\<close>

theorem checkReDirect_null_default:
  assumes "list_all plain_tok args"
    and "\<not> (bg \<and> canbg) \<or> (can_read e ''/dev/null'' \<and> can_write e ''/dev/null'')"
  shows "checkReDirect e (map Some args) bg canbg =
           Inr ((init_rd (map Some args))\<lparr>rd_in := (if bg \<and> canbg then Dev_null else Tty),
                                           rd_out := (if bg \<and> canbg then Dev_null else Tty)\<rparr>)"
  using assms redirect_loop_plain_all [of args "init_rd (map Some args)" e]
  by (auto simp: checkReDirect_def null_redirects_def init_rd_def)

lemma redirect_in_fails:
  assumes "rd_cmds r = pre @ Some ''<'' # Some f # post" "\<not> can_read e f"
  shows "redirect_loop e (length pre) r = Inl (say (rd_out r) (''cannot open '' @ f @ '' for input'' @ [NL]), W_EXITCODE 1)"
  using assms by (simp add: redirect_loop_step redirect_in_def cstr_def)

text \<open>C24: Where the input-redirect diagnostic goes. When the input file cannot be opened,
  the child exits with status 1; the message \<open>cannot open f for input\<close> reaches the
  terminal when \<open><\<close> comes first, but when \<open>>\<close> comes first it is printed after stdout was
  rebound to the output file and the terminal receives nothing.\<close>

theorem redirect_error_destination:
  assumes "list_all plain_tok args" "plain_tok f" "plain_tok g" "can_write e g" "\<not> can_read e f"
  shows "checkReDirect e (map Some (args @ [''<'', f, ''>'', g])) bg canbg =
           Inl (''cannot open '' @ f @ '' for input'' @ [NL], W_EXITCODE 1)
       \<and> checkReDirect e (map Some (args @ [''>'', g, ''<'', f])) bg canbg = Inl ([], W_EXITCODE 1)"
proof
  let ?r = "init_rd (map Some (args @ [''<'', f, ''>'', g]))"
  have "redirect_loop e 0 ?r = redirect_loop e (length args) ?r"
    using redirect_loop_plain [of args ?r "[]"] assms(1) by (simp add: init_rd_def)
  also have "\<dots> = Inl (''cannot open '' @ f @ '' for input'' @ [NL], W_EXITCODE 1)"
    using redirect_in_fails [of ?r "map Some args" f "[Some ''>'', Some g]" e] assms(5)
    by (simp add: init_rd_def say_def)
  finally show "checkReDirect e (map Some (args @ [''<'', f, ''>'', g])) bg canbg =
           Inl (''cannot open '' @ f @ '' for input'' @ [NL], W_EXITCODE 1)"
    by (simp add: checkReDirect_def)
next
  let ?r = "init_rd (map Some (args @ [''>'', g, ''<'', f]))"
  let ?r1 = "?r\<lparr>foundOut := True, rd_out := File g, rd_cmds := map Some args @ None # Some g # [Some ''<'', Some f]\<rparr>"
  have "redirect_loop e 0 ?r = redirect_loop e (length args) ?r"
    using redirect_loop_plain [of args ?r "[]"] assms(1) by (simp add: init_rd_def)
  also have "\<dots> = redirect_loop e (length args + 2) ?r1"
    using redirect_loop_out [of ?r "map Some args" g "[Some ''<'', Some f]"] assms
    by (simp add: init_rd_def)
  also have "\<dots> = Inl ([], W_EXITCODE 1)"
    using redirect_in_fails [of ?r1 "map Some args @ [None, Some g]" f "[]" e] assms(5)
    by (simp add: say_def eval_nat_numeral)
  finally show "checkReDirect e (map Some (args @ [''>'', g, ''<'', f])) bg canbg = Inl ([], W_EXITCODE 1)"
    by (simp add: checkReDirect_def)
qed

text \<open>C25: A command that starts with \<open><\<close> leaves \<open>userCmds[0]\<close> NULL after redirection, so
  \<open>execvp(NULL, ..)\<close> kills the child with \<open>SIGSEGV\<close> before any program runs.\<close>

theorem child_run_leading_redirect:
  assumes "list_all plain_tok args" "plain_tok f" "can_read e f" "\<not> (bg \<and> canbg) \<or> can_write e ''/dev/null''"
  shows "child_run e (map Some (''<'' # f # args)) bg canbg =
           \<lparr>c_exec = None, c_sigint = (if \<not> bg \<or> \<not> canbg then Sig_default else Sig_ignore),
            c_tty = [], c_status = W_TERMSIG SIGSEGV\<rparr>"
proof -
  let ?r = "init_rd (map Some (''<'' # f # args))"
  let ?r1 = "?r\<lparr>foundIn := True, rd_in := File f, rd_cmds := [] @ None # Some f # map Some args\<rparr>"
  have "redirect_loop e 0 ?r = redirect_loop e 2 ?r1"
    using redirect_loop_in [of ?r "[]" f "map Some args"] assms by (simp add: init_rd_def eval_nat_numeral)
  also have "\<dots> = Inr ?r1"
    using redirect_loop_plain [of args ?r1 "[None, Some f]" "[]"] assms(1)
    by (simp add: redirect_loop_end eval_nat_numeral)
  finally show ?thesis using assms(4)
    by (auto simp: child_run_def checkReDirect_def null_redirects_def init_rd_def slot_def Let_def)
qed

lemma redirect_loop_trailing:
  assumes "rd_cmds r = pre @ [Some op]" "op = ''<'' \<or> op = ''>''" "rd_out r = Tty"
  shows "redirect_loop e (length pre) r =
           Inl (''cannot open (null) for '' @ (if op = ''<'' then ''input'' else ''output'') @ [NL], W_EXITCODE 1)"
  using assms by (auto simp: redirect_loop_step redirect_in_def redirect_out_def slot_def nth_append cstr_def say_def)

text \<open>C34: The cases the spec leaves open (its design note on a single left-to-right scan): an
  operator with no token after it reads the NULL slot that ends the array, \<open>open(NULL)\<close>
  fails and the child prints \<open>cannot open (null) for input\<close> (or \<open>output\<close>) and exits 1;
  with two output operators both files are opened in turn and the last one is standard
  output, and \<open>execvp\<close> gets only the arguments before the first operator.\<close>

theorem redirect_edge_cases:
  assumes "list_all plain_tok args" "plain_tok a" "plain_tok b" "can_write e a" "can_write e b" "can_read e ''/dev/null''"
  shows "checkReDirect e (map Some (args @ [''<''])) bg canbg = Inl (''cannot open (null) for input'' @ [NL], W_EXITCODE 1)
       \<and> checkReDirect e (map Some (args @ [''>''])) bg canbg = Inl (''cannot open (null) for output'' @ [NL], W_EXITCODE 1)
       \<and> checkReDirect e (map Some (args @ [''>'', a, ''>'', b])) bg canbg =
           Inr \<lparr>rd_cmds = map Some args @ [None, Some a, None, Some b], foundIn = False, foundOut = True,
                rd_in = (if bg \<and> canbg then Dev_null else Tty), rd_out = File b\<rparr>"
proof (intro conjI)
  have plain: "redirect_loop e 0 r = redirect_loop e (length args) r"
    if "rd_cmds r = map Some args @ post" for r post
    using redirect_loop_plain [of args r "[]" post] assms(1) that by simp
  show "checkReDirect e (map Some (args @ [''<''])) bg canbg = Inl (''cannot open (null) for input'' @ [NL], W_EXITCODE 1)"
    using plain [of "init_rd (map Some (args @ [''<'']))" "[Some ''<'']"]
      redirect_loop_trailing [of "init_rd (map Some (args @ [''<'']))" "map Some args" "''<''" e]
    by (simp add: checkReDirect_def init_rd_def)
  show "checkReDirect e (map Some (args @ [''>''])) bg canbg = Inl (''cannot open (null) for output'' @ [NL], W_EXITCODE 1)"
    using plain [of "init_rd (map Some (args @ [''>'']))" "[Some ''>'']"]
      redirect_loop_trailing [of "init_rd (map Some (args @ [''>'']))" "map Some args" "''>''" e]
    by (simp add: checkReDirect_def init_rd_def)
  let ?r = "init_rd (map Some (args @ [''>'', a, ''>'', b]))"
  let ?r1 = "?r\<lparr>foundOut := True, rd_out := File a, rd_cmds := map Some args @ None # Some a # [Some ''>'', Some b]\<rparr>"
  let ?r2 = "?r1\<lparr>foundOut := True, rd_out := File b, rd_cmds := (map Some args @ [None, Some a]) @ None # Some b # []\<rparr>"
  have "redirect_loop e 0 ?r = redirect_loop e (length args) ?r" by (rule plain) (simp add: init_rd_def)
  also have "\<dots> = redirect_loop e (length args + 2) ?r1"
    using redirect_loop_out [of ?r "map Some args" a "[Some ''>'', Some b]"] assms(2,4) by (simp add: init_rd_def)
  also have "\<dots> = redirect_loop e (length (map Some args @ [None, Some a]) + 2) ?r2"
    using redirect_loop_out [of ?r1 "map Some args @ [None, Some a]" b "[]"] assms(3,5) by simp
  also have "\<dots> = Inr ?r2" by (simp add: redirect_loop_end)
  finally show "checkReDirect e (map Some (args @ [''>'', a, ''>'', b])) bg canbg =
           Inr \<lparr>rd_cmds = map Some args @ [None, Some a, None, Some b], foundIn = False, foundOut = True,
                rd_in = (if bg \<and> canbg then Dev_null else Tty), rd_out = File b\<rparr>"
    using assms(6) by (simp add: checkReDirect_def null_redirects_def init_rd_def)
qed

section \<open>Properties of the launcher\<close>

text \<open>C6: Launching a permitted background job with room in the registry returns at once:
  the child is running, its pid is appended to \<open>pidArray\<close>, and the notice
  \<open>background pid is P\<close> follows whatever the child printed before exec.\<close>

theorem forkAndExec_bg:
  assumes "fork_ok e" "canRunBG s" "length (pidArray s) < MAXBG"
  shows "forkAndExec e cmds True s =
           Ok (s\<lparr>procs := (procs s)(next_pid s \<mapsto> Running (c_status (child_run e cmds True True))),
                 next_pid := next_pid s + 1,
                 tty := tty s @ c_tty (child_run e cmds True True) @ ''background pid is '' @ int_str (next_pid s) @ [NL],
                 pidArray := pidArray s @ [next_pid s]\<rparr>)"
  using assms by (simp add: forkAndExec_def spawn_def tty_write_def addPid_def Let_def)

text \<open>C22: A background launch with 50 jobs already registered writes past \<open>pid_t pidArray[50]\<close>.\<close>

theorem forkAndExec_bg_full:
  assumes "fork_ok e" "canRunBG s" "length (pidArray s) = MAXBG"
  shows "forkAndExec e cmds True s = UB Pid_array_overflow"
  using assms by (simp add: forkAndExec_def spawn_def tty_write_def addPid_def Let_def)

lemma forkAndExec_fg_path:
  assumes "fork_ok e" "\<not> (bg \<and> canRunBG s)"
  shows "forkAndExec e cmds bg s =
           fg_wait e (next_pid s)
             (tty_write (c_tty (child_run e cmds bg (canRunBG s)))
               (snd (spawn (c_status (child_run e cmds bg (canRunBG s))) s)))"
  using assms by (cases bg) (simp_all add: forkAndExec_def spawn_def tty_write_def Let_def)

text \<open>C7: A foreground launch with no interrupting \<open>SIGTSTP\<close> waits for the child, reaps
  it, stores its status in \<open>childExitMethod\<close>, and reports a signal death at once.\<close>

theorem forkAndExec_fg:
  assumes "fork_ok e" "\<not> tstp_in_wait e" "\<not> (bg \<and> canRunBG s)" "procs s (next_pid s) = None"
  shows "forkAndExec e cmds bg s =
           Ok (s\<lparr>next_pid := next_pid s + 1,
                 tty := tty s @ c_tty (child_run e cmds bg (canRunBG s))
                        @ (if WIFSIGNALED (c_status (child_run e cmds bg (canRunBG s)))
                           then sig_msg (c_status (child_run e cmds bg (canRunBG s))) else []),
                 childExitMethod := c_status (child_run e cmds bg (canRunBG s))\<rparr>)"
proof -
  let ?st = "c_status (child_run e cmds bg (canRunBG s))"
  have "(procs s)(next_pid s \<mapsto> Running ?st, next_pid s := None) = procs s"
    using assms(4) by (simp add: fun_upd_idem)
  then show ?thesis using assms
    by (simp add: forkAndExec_fg_path spawn_def tty_write_def fg_wait_def)
qed

text \<open>C18: A \<open>SIGTSTP\<close> during the foreground wait interrupts \<open>waitpid\<close>: the mode flips,
  the stopped child is neither reaped nor registered, and the shell keeps the previous
  command's status.\<close>

theorem forkAndExec_tstp:
  assumes "fork_ok e" "tstp_in_wait e" "\<not> (bg \<and> canRunBG s)" "next_pid s \<in> tstp_stops e"
  shows "\<exists>s'. forkAndExec e cmds bg s = Ok s'
          \<and> procs s' (next_pid s) = Some (Stopped (c_status (child_run e cmds bg (canRunBG s))))
          \<and> pidArray s' = pidArray s \<and> childExitMethod s' = childExitMethod s
          \<and> canRunBG s' = (\<not> canRunBG s)"
proof -
  let ?st = "c_status (child_run e cmds bg (canRunBG s))"
  obtain p s2 where sp: "(p, s2) = (next_pid s, tty_write (c_tty (child_run e cmds bg (canRunBG s))) (snd (spawn ?st s)))"
    by simp
  have s2: "procs s2 (next_pid s) = Some (Running ?st)" "pidArray s2 = pidArray s"
    "childExitMethod s2 = childExitMethod s" "canRunBG s2 = canRunBG s"
    using sp by (simp_all add: spawn_def tty_write_def)
  let ?s3 = "stop_children (tstp_stops e) s2"
  have s3: "procs ?s3 (next_pid s) = Some (Stopped ?st)" using s2(1) assms(4) by (simp add: stop_children_def)
  obtain s4 where t: "toggleBG ?s3 = Ok s4" "canRunBG s4 = (\<not> canRunBG s)"
    using s2(4) by (cases "canRunBG s") (auto simp: toggleBG_on toggleBG_off stop_children_def)
  have fr: "procs s4 = procs ?s3" "pidArray s4 = pidArray s" "childExitMethod s4 = childExitMethod s"
    using toggleBG_frame [OF t(1)] s2 by (simp_all add: stop_children_def)
  have "forkAndExec e cmds bg s = fg_wait e p s2"
    using forkAndExec_fg_path [OF assms(1,3)] sp by simp
  also have "\<dots> = Ok (if WIFSIGNALED (childExitMethod s4) then tty_write (sig_msg (childExitMethod s4)) s4 else s4)"
    using assms(2) t(1) by (simp add: fg_wait_def)
  finally show ?thesis using s3 fr t(2) by (simp add: tty_write_def)
qed

section \<open>Examples\<close>

text \<open>An environment where \<open>in.txt\<close> is readable, \<open>out.txt\<close> writable, and every program exits 0.\<close>

abbreviation demo_env :: env where
  "demo_env \<equiv> \<lparr>fork_ok = True, can_read = (\<lambda>f. f = ''in.txt'' \<or> f = ''/dev/null''),
     can_write = (\<lambda>f. f = ''out.txt'' \<or> f = ''/dev/null''),
     exec_result = (\<lambda>argv. Some (W_EXITCODE 0)), home = Some ''/home/u'',
     can_chdir = (\<lambda>d. d = ''/home/u''), shell_pid = 4242, tstp_in_wait = False, tstp_stops = {}\<rparr>"

abbreviation demo_env_tstp :: env where
  "demo_env_tstp \<equiv> \<lparr>fork_ok = True, can_read = (\<lambda>f. f = ''in.txt'' \<or> f = ''/dev/null''),
     can_write = (\<lambda>f. f = ''out.txt'' \<or> f = ''/dev/null''),
     exec_result = (\<lambda>argv. Some (W_EXITCODE 0)), home = Some ''/home/u'',
     can_chdir = (\<lambda>d. d = ''/home/u''), shell_pid = 4242, tstp_in_wait = True, tstp_stops = {100}\<rparr>"

theorem checkReDirect_both_orders_witness:
  "checkReDirect demo_env (map Some [''sort'', ''<'', ''in.txt'', ''>'', ''out.txt'']) True True =
     Inr \<lparr>rd_cmds = [Some ''sort'', None, Some ''in.txt'', None, Some ''out.txt''], foundIn = True,
          foundOut = True, rd_in = File ''in.txt'', rd_out = File ''out.txt''\<rparr>
   \<and> argv_of [Some ''sort'', None, Some ''in.txt'', None, Some ''out.txt''] = [''sort'']"
  using checkReDirect_both_orders [where args = "[''sort'']" and f = "''in.txt''" and g = "''out.txt''"
      and e = demo_env and bg = True and canbg = True]
  by (simp add: plain_tok_def argv_of_def)

theorem checkReDirect_null_default_witness:
  "checkReDirect demo_env (map Some [''sleep'', ''5'']) True True =
     Inr \<lparr>rd_cmds = [Some ''sleep'', Some ''5''], foundIn = False, foundOut = False,
          rd_in = Dev_null, rd_out = Dev_null\<rparr>"
  using checkReDirect_null_default [where args = "[''sleep'', ''5'']" and e = demo_env and bg = True and canbg = True]
  by (simp add: plain_tok_def init_rd_def)

theorem redirect_error_destination_witness:
  "checkReDirect demo_env (map Some [''wc'', ''>'', ''out.txt'', ''<'', ''nosuch'']) False True =
     Inl ([], W_EXITCODE 1)"
  using redirect_error_destination [where args = "[''wc'']" and f = "''nosuch''" and g = "''out.txt''"
      and e = demo_env and bg = False and canbg = True]
  by (simp add: plain_tok_def)

theorem child_run_leading_redirect_witness:
  "c_status (child_run demo_env (map Some [''<'', ''in.txt'', ''wc'']) False True) = W_TERMSIG SIGSEGV"
  using child_run_leading_redirect [where args = "[''wc'']" and f = "''in.txt''" and e = demo_env
      and bg = False and canbg = True]
  by (simp add: plain_tok_def)

theorem redirect_edge_cases_witness:
  "checkReDirect demo_env (map Some [''ls'', ''<'']) False True = Inl (''cannot open (null) for input'' @ [NL], W_EXITCODE 1)
   \<and> checkReDirect demo_env (map Some [''ls'', ''>'']) False True = Inl (''cannot open (null) for output'' @ [NL], W_EXITCODE 1)
   \<and> checkReDirect demo_env (map Some [''ls'', ''>'', ''/dev/null'', ''>'', ''out.txt'']) False True =
       Inr \<lparr>rd_cmds = [Some ''ls'', None, Some ''/dev/null'', None, Some ''out.txt''], foundIn = False, foundOut = True,
            rd_in = Tty, rd_out = File ''out.txt''\<rparr>"
  using redirect_edge_cases [where args = "[''ls'']" and a = "''/dev/null''" and b = "''out.txt''" and e = demo_env
      and bg = False and canbg = True]
  by (simp add: plain_tok_def)

abbreviation demo_shell :: shell where
  "demo_shell \<equiv> \<lparr>procs = Map.empty, next_pid = 100, tty = [], cwd = ''/'',
     canRunBG = True, pidArray = [], childExitMethod = W_EXITCODE 0\<rparr>"

lemma demo_child_sleep:
  "child_run demo_env [Some ''sleep'', Some ''5''] bg canbg =
     \<lparr>c_exec = Some ([''sleep'', ''5''], if bg \<and> canbg then Dev_null else Tty, if bg \<and> canbg then Dev_null else Tty),
      c_sigint = (if \<not> bg \<or> \<not> canbg then Sig_default else Sig_ignore), c_tty = [], c_status = W_EXITCODE 0\<rparr>"
  by (simp add: child_run_def checkReDirect_def null_redirects_def init_rd_def redirect_loop_step
      redirect_loop_end redirect_in_def redirect_out_def slot_def argv_of_def Let_def)

theorem forkAndExec_bg_witness:
  "forkAndExec demo_env [Some ''sleep'', Some ''5''] True demo_shell =
     Ok (demo_shell\<lparr>procs := [100 \<mapsto> Running (W_EXITCODE 0)], next_pid := 101,
          tty := ''background pid is 100'' @ [NL], pidArray := [100]\<rparr>)"
  using forkAndExec_bg [where e = demo_env and s = demo_shell and cmds = "[Some ''sleep'', Some ''5'']"]
  by (simp add: demo_child_sleep MAXBG_def int_str_def nat_str.simps digit_char_def)

theorem forkAndExec_bg_full_witness:
  "forkAndExec demo_env [Some ''sleep'', Some ''5''] True (demo_shell\<lparr>pidArray := [1..50]\<rparr>) = UB Pid_array_overflow"
  using forkAndExec_bg_full [where e = demo_env and s = "demo_shell\<lparr>pidArray := [1..50]\<rparr>"
      and cmds = "[Some ''sleep'', Some ''5'']"]
  by (simp add: MAXBG_def)

theorem forkAndExec_fg_witness:
  "forkAndExec demo_env [Some ''sleep'', Some ''5''] False demo_shell =
     Ok (demo_shell\<lparr>next_pid := 101, childExitMethod := W_EXITCODE 0\<rparr>)"
  using forkAndExec_fg [where e = demo_env and s = demo_shell and cmds = "[Some ''sleep'', Some ''5'']" and bg = False]
  by (simp add: demo_child_sleep W_EXITCODE_exited WIFEXITED_not_WIFSIGNALED)

theorem forkAndExec_tstp_witness:
  "\<exists>s'. forkAndExec demo_env_tstp [Some ''sleep'', Some ''5''] False demo_shell = Ok s'
      \<and> procs s' 100 = Some (Stopped (W_EXITCODE 0)) \<and> pidArray s' = [] \<and> childExitMethod s' = W_EXITCODE 0
      \<and> canRunBG s' = False"
proof -
  have c: "child_run demo_env_tstp [Some ''sleep'', Some ''5''] False True =
     \<lparr>c_exec = Some ([''sleep'', ''5''], Tty, Tty), c_sigint = Sig_default, c_tty = [], c_status = W_EXITCODE 0\<rparr>"
    by (simp add: child_run_def checkReDirect_def null_redirects_def init_rd_def redirect_loop_step
      redirect_loop_end redirect_in_def redirect_out_def slot_def argv_of_def)
  show ?thesis
    using forkAndExec_tstp [where e = demo_env_tstp and s = demo_shell
        and cmds = "[Some ''sleep'', Some ''5'']" and bg = False]
    by (simp add: c)
qed

end
