(* ===== verification/Shell_Loop.thy ===== *)
theory Shell_Loop
  imports Launcher
begin

text \<open>
  The main loop of smallsh (src/smallsh.c, \<open>shellLoop\<close> lines 600--728 and \<open>main\<close>
  lines 733--772). One read attempt prints the prompt and calls \<open>getline\<close>; a
  failed read (end of input, or a signal) clears the error and tries again; a line
  has its last byte cut, and is then classified: \<open>exit\<close> ends the loop, an empty
  line or a comment only reaps, anything else is tokenized, expanded, and run as
  \<open>cd\<close>, \<open>status\<close> or an external command, followed by a reap pass. On \<open>exit\<close> the
  loop kills and reaps the background jobs, and \<open>main\<close> prints a newline and
  exits 0. The asynchronous world (a child finishing, \<open>SIGTSTP\<close> from the terminal
  while the shell waits at the prompt) enters as events between read attempts.
\<close>

section \<open>One line\<close>

text \<open>\<open>userInput[strlen(userInput) - 1] = '\0'\<close> on the bytes \<open>getline\<close> returned.\<close>

definition chop_line :: "string \<Rightarrow> fault + string" where
  "chop_line raw =
     (let n = length (takeWhile (\<lambda>c. c \<noteq> CHR 0x00) raw) in
      if n = 0 then Inl Negative_index else Inr (take (n - 1) raw))"

text \<open>
  Lines 680--697: the built-ins are recognised by \<open>strcmp(userCmds[0], ..)\<close>, which
  dereferences NULL when the line held no token; any other command goes through
  \<open>checkIfBG\<close> and \<open>forkAndExec\<close>.
\<close>

definition dispatch :: "env \<Rightarrow> string list \<Rightarrow> shell \<Rightarrow> shell res" where
  "dispatch e toks s =
     (case toks of
        [] \<Rightarrow> UB Null_deref
      | t # _ \<Rightarrow>
          if t = ''cd'' then changeDirectory e (map Some toks) s
          else if t = ''status'' then Ok (checkStatus s)
          else res_bind (res_of_sum (checkIfBG (map Some toks))) (\<lambda>(cmds, bg). forkAndExec e cmds bg s))"

text \<open>
  Lines 650--698 on a line already read: the flag \<open>wantToExit\<close> and the new state.
\<close>

definition run_command :: "env \<Rightarrow> string \<Rightarrow> shell \<Rightarrow> (bool \<times> shell) res" where
  "run_command e line s =
     (if line = ''exit'' then Ok (True, s)
      else if line = [] \<or> hd line = CHR ''#'' then
        res_bind (res_of_option (reapChildren s)) (\<lambda>s1. Ok (False, s1))
      else
        res_bind (res_of_sum (tokenizeInput line)) (\<lambda>toks.
        res_bind (res_of_sum (expandPID (shell_pid e) toks)) (\<lambda>toks'.
        res_bind (dispatch e toks' s) (\<lambda>s1.
        res_bind (res_of_option (reapChildren s1)) (\<lambda>s2. Ok (False, s2))))))"

section \<open>Events and the loop\<close>

datatype event =
    Input string env    \<comment> \<open>\<open>getline\<close> returns these bytes; the command meets this environment\<close>
  | Read_fail           \<comment> \<open>\<open>getline\<close> returns \<open>-1\<close>: end of input, or a signal other than \<open>SIGTSTP\<close>\<close>
  | Tstp "pid set"      \<comment> \<open>\<open>SIGTSTP\<close> during \<open>getline\<close>; it also stops these children\<close>
  | Child_exit pid      \<comment> \<open>a running child finishes\<close>

text \<open>
  One read attempt of lines 619--640 (or an event of the world between two of them).
  A \<open>SIGTSTP\<close> at the prompt runs \<open>toggleBG\<close> and makes \<open>getline\<close> fail with \<open>EINTR\<close>,
  since the handler is installed without \<open>SA_RESTART\<close>.
\<close>

fun shell_step :: "event \<Rightarrow> shell \<Rightarrow> (bool \<times> shell) res" where
  "shell_step (Input raw e) s =
     res_bind (res_of_sum (chop_line raw)) (\<lambda>line. run_command e line (printPrompt s))"
| "shell_step Read_fail s = Ok (False, printPrompt s)"
| "shell_step (Tstp S) s =
     res_bind (toggleBG (stop_children S (printPrompt s))) (\<lambda>s1. Ok (False, s1))"
| "shell_step (Child_exit p) s = Ok (False, child_exits p s)"

text \<open>Lines 718--721 and 762--763: \<open>killBG\<close>, \<open>reapBG\<close>, \<open>printf("\n")\<close>, \<open>exit(0)\<close>.\<close>

definition shutdown :: "shell \<Rightarrow> shell res" where
  "shutdown s =
     (case reapBG (killBG s) of
        None \<Rightarrow> Hang
      | Some s1 \<Rightarrow> Exit 0 (tty s1 @ [NL]))"

text \<open>
  The loop on a finite sequence of events: \<open>Ok s\<close> when the events run out while the
  shell still waits for input, otherwise how the process ended.
\<close>

fun shellLoop :: "event list \<Rightarrow> shell \<Rightarrow> shell res" where
  "shellLoop [] s = Ok s"
| "shellLoop (ev # evs) s =
     (case shell_step ev s of
        Ok (True, s1) \<Rightarrow> shutdown s1
      | Ok (False, s1) \<Rightarrow> shellLoop evs s1
      | Exit n out \<Rightarrow> Exit n out
      | UB f \<Rightarrow> UB f
      | Hang \<Rightarrow> Hang)"

text \<open>The process from \<open>main\<close>: first pid \<open>p0\<close> for children, started in \<open>dir\<close>.\<close>

definition smallsh :: "pid \<Rightarrow> string \<Rightarrow> event list \<Rightarrow> shell res" where
  "smallsh p0 dir evs = shellLoop evs (init_shell p0 dir)"

section \<open>Reachable states\<close>

inductive reachable :: "shell \<Rightarrow> bool" where
  init: "0 < p0 \<Longrightarrow> reachable (init_shell p0 dir)"
| step: "reachable s \<Longrightarrow> shell_step ev s = Ok (False, s') \<Longrightarrow> reachable s'"

definition shell_inv :: "shell \<Rightarrow> bool" where
  "shell_inv s \<longleftrightarrow>
     registry_ok s \<and> length (pidArray s) \<le> MAXBG \<and> 0 < next_pid s \<and>
     (\<forall>p\<in>dom (procs s). 0 < p \<and> p < next_pid s)"

section \<open>The invariant\<close>

lemma inv_frame:
  assumes "shell_inv s" "pidArray s' = pidArray s" "next_pid s' = next_pid s" "dom (procs s') = dom (procs s)"
  shows "shell_inv s'"
  using assms by (simp add: shell_inv_def registry_ok_def)

lemma procs_reap_scan:
  "procs (reap_scan ps s) q = (if q \<in> set ps \<and> zombie_status s q \<noteq> None then None else procs s q)"
proof (induction ps arbitrary: s)
  case Nil
  then show ?case by simp
next
  case (Cons p ps)
  show ?case
  proof (cases "zombie_status s p")
    case None
    then show ?thesis using Cons.IH [of s] by auto
  next
    case (Some st)
    have "zombie_status (reap_entry p st s) q = (if q = p then None else zombie_status s q)"
      "procs (reap_entry p st s) q = (if q = p then None else procs s q)"
      by (simp_all add: reap_entry_def tty_write_def zombie_status_def)
    then show ?thesis using Some Cons.IH [of "reap_entry p st s"] by auto
  qed
qed

lemma reap_scan_frame [simp]:
  "pidArray (reap_scan ps s) = pidArray s" "next_pid (reap_scan ps s) = next_pid s"
  "canRunBG (reap_scan ps s) = canRunBG s" "cwd (reap_scan ps s) = cwd s"
  by (induction ps arbitrary: s) (simp_all add: reap_entry_def tty_write_def split: option.splits)

lemma reap_spec_inv: "shell_inv s \<Longrightarrow> shell_inv (reap_spec s)"
proof -
  assume inv: "shell_inv s"
  let ?xs = "filter (\<lambda>p. zombie_status s p = None) (pidArray s)"
  have pa: "pidArray (reap_spec s) = ?xs" by (simp add: reap_spec_def)
  have pr: "procs (reap_spec s) = procs (reap_scan (pidArray s) s)" by (simp add: reap_spec_def)
  have dom: "dom (procs (reap_spec s)) \<subseteq> dom (procs s)"
    using pr by (auto simp: procs_reap_scan split: if_splits)
  have "set ?xs \<subseteq> dom (procs (reap_spec s))"
    using inv pr by (auto simp: shell_inv_def registry_ok_def procs_reap_scan)
  moreover have "length ?xs \<le> MAXBG"
    using inv length_filter_le [of "\<lambda>p. zombie_status s p = None" "pidArray s"]
    unfolding shell_inv_def by linarith
  moreover have "\<forall>p\<in>dom (procs (reap_spec s)). 0 < p \<and> p < next_pid (reap_spec s)"
  proof
    fix p assume "p \<in> dom (procs (reap_spec s))"
    then have "p \<in> dom (procs s)" using dom by blast
    then show "0 < p \<and> p < next_pid (reap_spec s)" using inv by (simp add: shell_inv_def reap_spec_def)
  qed
  ultimately show ?thesis using inv unfolding shell_inv_def registry_ok_def pa
    by (simp add: list_all_iff reap_spec_def)
qed

lemma reapChildren_inv:
  "shell_inv s \<Longrightarrow> reapChildren s = Some s' \<Longrightarrow> shell_inv s'"
  using reap_from_spec [of s 0] reap_spec_inv [of s]
  by (simp add: reapChildren_def reap_spec_def shell_inv_def)

lemma reapChildren_total: "shell_inv s \<Longrightarrow> reapChildren s \<noteq> None"
  using reap_from_spec [of s 0] by (simp add: reapChildren_def shell_inv_def)

lemma inv_shrink:
  assumes "shell_inv s" "pidArray s' = pidArray s" "next_pid s' = next_pid s"
    "dom (procs s') \<subseteq> dom (procs s)" "set (pidArray s) \<subseteq> dom (procs s')"
  shows "shell_inv s'"
  using assms unfolding shell_inv_def registry_ok_def by (simp add: subset_iff)

lemma fg_wait_running:
  assumes "procs s p = Some (Running st)"
  shows "fg_wait e p s \<noteq> Hang"
    and "fg_wait e p s = Ok s' \<Longrightarrow> pidArray s' = pidArray s \<and> next_pid s' = next_pid s \<and>
           procs s' = (if tstp_in_wait e then procs (stop_children (tstp_stops e) s) else (procs s)(p := None))"
proof -
  show "fg_wait e p s \<noteq> Hang"
    using assms by (cases "canRunBG s") (auto simp: fg_wait_def toggleBG_on toggleBG_off stop_children_def Let_def)
  assume ok: "fg_wait e p s = Ok s'"
  show "pidArray s' = pidArray s \<and> next_pid s' = next_pid s \<and>
           procs s' = (if tstp_in_wait e then procs (stop_children (tstp_stops e) s) else (procs s)(p := None))"
  proof (cases "tstp_in_wait e")
    case True
    then obtain s1 where t: "toggleBG (stop_children (tstp_stops e) s) = Ok s1"
      and s': "s' = (if WIFSIGNALED (childExitMethod s1) then tty_write (sig_msg (childExitMethod s1)) s1 else s1)"
      using ok by (auto simp: fg_wait_def)
    show ?thesis using toggleBG_frame [OF t] s' True by (simp add: tty_write_def stop_children_def)
  next
    case False
    then show ?thesis using ok assms by (auto simp: fg_wait_def tty_write_def Let_def)
  qed
qed

lemma spawn_inv:
  assumes "shell_inv s"
  shows "next_pid s \<notin> dom (procs s)" and "next_pid s \<notin> set (pidArray s)"
    and "shell_inv (s\<lparr>procs := (procs s)(next_pid s \<mapsto> x), next_pid := next_pid s + 1, tty := t\<rparr>)"
proof -
  show nd: "next_pid s \<notin> dom (procs s)" using assms by (auto simp: shell_inv_def)
  then show "next_pid s \<notin> set (pidArray s)" using assms by (auto simp: shell_inv_def registry_ok_def)
  let ?s = "s\<lparr>procs := (procs s)(next_pid s \<mapsto> x), next_pid := next_pid s + 1, tty := t\<rparr>"
  have "\<forall>p\<in>dom (procs ?s). 0 < p \<and> p < next_pid ?s"
  proof
    fix p assume "p \<in> dom (procs ?s)"
    then consider "p = next_pid s" | "p \<in> dom (procs s)" by auto
    then show "0 < p \<and> p < next_pid ?s"
    proof cases
      case 1
      then show ?thesis using assms by (simp add: shell_inv_def)
    next
      case 2
      with assms have "0 < p \<and> p < next_pid s" by (simp add: shell_inv_def)
      then show ?thesis by simp
    qed
  qed
  moreover have "set (pidArray ?s) \<subseteq> dom (procs ?s)" using assms by (auto simp: shell_inv_def registry_ok_def)
  ultimately show "shell_inv ?s" using assms by (simp add: shell_inv_def registry_ok_def)
qed

lemma forkAndExec_bg_path:
  assumes "fork_ok e" "bg \<and> canRunBG s"
  shows "forkAndExec e cmds bg s =
           res_bind (res_of_sum (addPid (pidArray s) (next_pid s)))
             (\<lambda>xs. Ok ((s\<lparr>procs := (procs s)(next_pid s \<mapsto> Running (c_status (child_run e cmds bg (canRunBG s)))),
                          next_pid := next_pid s + 1,
                          tty := tty s @ c_tty (child_run e cmds bg (canRunBG s))
                                 @ ''background pid is '' @ int_str (next_pid s) @ [NL]\<rparr>)\<lparr>pidArray := xs\<rparr>))"
  using assms by (simp add: forkAndExec_def spawn_def tty_write_def Let_def)

lemma forkAndExec_inv:
  assumes inv: "shell_inv s" and ok: "forkAndExec e cmds bg s = Ok s'"
  shows "shell_inv s'"
proof -
  let ?ch = "child_run e cmds bg (canRunBG s)"
  let ?s2 = "s\<lparr>procs := (procs s)(next_pid s \<mapsto> Running (c_status ?ch)), next_pid := next_pid s + 1,
                tty := tty s @ c_tty ?ch\<rparr>"
  have f: "fork_ok e" using ok by (cases "fork_ok e") (simp_all add: forkAndExec_def)
  have inv2: "shell_inv ?s2" by (rule spawn_inv(3) [OF inv])
  show ?thesis
  proof (cases "bg \<and> canRunBG s")
    case True
    obtain xs where a: "addPid (pidArray s) (next_pid s) = Inr xs"
      and s': "s' = ?s2\<lparr>tty := tty ?s2 @ ''background pid is '' @ int_str (next_pid s) @ [NL], pidArray := xs\<rparr>"
      using ok forkAndExec_bg_path [OF f True] by auto
    have xs: "xs = pidArray s @ [next_pid s]" "length xs \<le> MAXBG"
      using a by (auto simp: addPid_def split: if_splits)
    have "set (pidArray s) \<subseteq> dom (procs s)" using inv by (simp add: shell_inv_def registry_ok_def)
    then have "registry_ok s'"
      using inv spawn_inv(2) [OF inv] s' xs(1) by (auto simp: shell_inv_def registry_ok_def)
    then show ?thesis using inv2 s' xs(2) by (simp add: shell_inv_def)
  next
    case False
    have w: "fg_wait e (next_pid s) ?s2 = Ok s'"
      using ok forkAndExec_fg_path [OF f False] by (simp add: spawn_def tty_write_def)
    have r: "procs ?s2 (next_pid s) = Some (Running (c_status ?ch))" by simp
    note fr = fg_wait_running(2) [OF r w]
    have "set (pidArray s) \<subseteq> dom (procs s')"
      using inv spawn_inv(2) [OF inv] fr
      by (auto simp: shell_inv_def registry_ok_def stop_children_def split: if_splits option.splits pstate.splits)
    moreover have "dom (procs s') \<subseteq> dom (procs ?s2)" using fr by (auto split: if_splits)
    ultimately show ?thesis using inv_shrink [OF inv2] fr by simp
  qed
qed

lemma inv_tty [simp]: "shell_inv (tty_write m s) = shell_inv s"
  by (simp add: shell_inv_def registry_ok_def tty_write_def)

lemma inv_toggleBG: "shell_inv s \<Longrightarrow> toggleBG s = Ok s' \<Longrightarrow> shell_inv s'"
  using toggleBG_frame [of s s'] by (auto intro: inv_frame)

lemma inv_stop_children: "shell_inv s \<Longrightarrow> shell_inv (stop_children S s)"
  by (rule inv_frame [OF _ _ _ dom_stop_children]) (simp_all add: stop_children_def)

lemma inv_child_exits: "shell_inv s \<Longrightarrow> shell_inv (child_exits p s)"
  by (rule inv_frame [OF _ _ _ dom_child_exits]) (simp_all add: child_exits_def split: option.splits pstate.splits)

lemma changeDirectory_Ok:
  "changeDirectory e cmds s = Ok s' \<Longrightarrow> procs s' = procs s \<and> pidArray s' = pidArray s \<and> next_pid s' = next_pid s"
  by (auto simp: changeDirectory_def split: option.splits if_splits)

lemma dispatch_inv: "shell_inv s \<Longrightarrow> dispatch e toks s = Ok s' \<Longrightarrow> shell_inv s'"
proof (cases toks)
  case Nil
  then show "dispatch e toks s = Ok s' \<Longrightarrow> shell_inv s'" by (simp add: dispatch_def)
next
  case (Cons t ts)
  assume inv: "shell_inv s" and ok: "dispatch e toks s = Ok s'"
  consider "t = ''cd''" | "t \<noteq> ''cd''" "t = ''status''" | "t \<noteq> ''cd''" "t \<noteq> ''status''" by blast
  then show ?thesis
  proof cases
    case 1
    then have "changeDirectory e (map Some toks) s = Ok s'" using ok Cons by (simp add: dispatch_def)
    then show ?thesis using inv changeDirectory_Ok inv_frame by metis
  next
    case 2
    then show ?thesis using ok inv Cons by (auto simp: dispatch_def checkStatus_def)
  next
    case 3
    then have "res_bind (res_of_sum (checkIfBG (map Some toks))) (\<lambda>(cmds, bg). forkAndExec e cmds bg s) = Ok s'"
      using ok Cons by (simp add: dispatch_def)
    then obtain cmds bg where "forkAndExec e cmds bg s = Ok s'"
      by (auto split: prod.splits)
    then show ?thesis using inv by (rule forkAndExec_inv [rotated])
  qed
qed

lemma run_command_inv:
  assumes inv: "shell_inv s" and ok: "run_command e line s = Ok (b, s')"
  shows "shell_inv s'"
proof -
  consider "line = ''exit''" | "line \<noteq> ''exit''" "line = [] \<or> hd line = CHR ''#''"
    | "line \<noteq> ''exit''" "\<not> (line = [] \<or> hd line = CHR ''#'')" by blast
  then show ?thesis
  proof cases
    case 1
    then show ?thesis using inv ok by (simp add: run_command_def)
  next
    case 2
    then have "reapChildren s = Some s'" using ok by (auto simp: run_command_def)
    then show ?thesis using inv reapChildren_inv by blast
  next
    case 3
    then obtain toks s1 where d: "dispatch e toks s = Ok s1" and r: "reapChildren s1 = Some s'"
      using ok by (auto simp: run_command_def)
    show ?thesis using reapChildren_inv [OF dispatch_inv [OF inv d] r] .
  qed
qed

lemma shell_step_inv:
  assumes inv: "shell_inv s" and ok: "shell_step ev s = Ok (b, s')"
  shows "shell_inv s'"
proof (cases ev)
  case (Input raw e)
  then obtain line where "run_command e line (printPrompt s) = Ok (b, s')" using ok by auto
  moreover have "shell_inv (printPrompt s)" using inv by (simp add: printPrompt_def)
  ultimately show ?thesis by (rule run_command_inv [rotated])
next
  case Read_fail
  then show ?thesis using inv ok by (auto simp: printPrompt_def)
next
  case (Tstp S)
  then have "toggleBG (stop_children S (printPrompt s)) = Ok s'" using ok by auto
  moreover have "shell_inv (stop_children S (printPrompt s))"
    using inv by (simp add: inv_stop_children printPrompt_def)
  ultimately show ?thesis by (rule inv_toggleBG [rotated])
next
  case (Child_exit p)
  then show ?thesis using inv ok inv_child_exits by auto
qed

lemma init_inv: "0 < p0 \<Longrightarrow> shell_inv (init_shell p0 dir)"
  by (simp add: shell_inv_def registry_ok_def init_shell_def)

lemma reachable_inv: "reachable s \<Longrightarrow> shell_inv s"
proof (induction rule: reachable.induct)
  case (init p0 dir)
  then show ?case by (rule init_inv)
next
  case (step s ev s')
  then show ?case by (blast intro: shell_step_inv)
qed

lemma forkAndExec_no_hang: "shell_inv s \<Longrightarrow> forkAndExec e cmds bg s \<noteq> Hang"
proof (cases "fork_ok e \<and> \<not> (bg \<and> canRunBG s)")
  case True
  let ?ch = "child_run e cmds bg (canRunBG s)"
  let ?s2 = "s\<lparr>procs := (procs s)(next_pid s \<mapsto> Running (c_status ?ch)), next_pid := next_pid s + 1,
                tty := tty s @ c_tty ?ch\<rparr>"
  have "fg_wait e (next_pid s) ?s2 \<noteq> Hang" by (rule fg_wait_running(1)) simp
  then show ?thesis using forkAndExec_fg_path [of e bg s cmds] True by (simp add: spawn_def tty_write_def)
next
  case False
  show ?thesis
  proof (cases "fork_ok e")
    case True
    with False have "bg \<and> canRunBG s" by simp
    then show ?thesis using True by (simp add: forkAndExec_bg_path)
  qed (simp add: forkAndExec_def)
qed

lemma dispatch_no_hang: "shell_inv s \<Longrightarrow> dispatch e toks s \<noteq> Hang"
  using forkAndExec_no_hang
  by (auto simp: dispatch_def changeDirectory_def split: list.splits option.splits prod.splits)

lemma reap_then_ok: "shell_inv s \<Longrightarrow> \<exists>s'. res_bind (res_of_option (reapChildren s)) (\<lambda>s1. Ok (False, s1)) = Ok (False, s')"
  using reapChildren_total [of s] by (cases "reapChildren s") auto

lemma run_command_no_hang:
  assumes inv: "shell_inv s"
  shows "run_command e line s \<noteq> Hang"
proof
  assume h: "run_command e line s = Hang"
  show False
  proof (cases "line = ''exit'' \<or> line = [] \<or> hd line = CHR ''#''")
    case True
    then show False using h reap_then_ok [OF inv] by (auto simp: run_command_def split: if_splits)
  next
    case False
    then obtain toks s1 where "dispatch e toks s = Hang \<or>
        (dispatch e toks s = Ok s1 \<and> res_bind (res_of_option (reapChildren s1)) (\<lambda>s2. Ok (False, s2)) = Hang)"
      using h by (auto simp: run_command_def)
    then show False using dispatch_no_hang [OF inv] dispatch_inv [OF inv] reap_then_ok by fastforce
  qed
qed

lemma shell_step_no_hang: "shell_inv s \<Longrightarrow> shell_step ev s \<noteq> Hang"
proof (cases ev)
  case (Input raw e)
  assume "shell_inv s"
  then have "shell_inv (printPrompt s)" by (simp add: printPrompt_def)
  then show ?thesis using Input run_command_no_hang by auto
next
  case (Tstp S)
  then show ?thesis
    by (cases "canRunBG s") (simp_all add: toggleBG_on toggleBG_off stop_children_def printPrompt_def tty_write_def)
qed simp_all

text \<open>C2: Every reachable state satisfies the invariant: the registry holds distinct, positive
  pids of unreaped children, at most 50 of them, and every child pid is below the next pid
  to be allocated.\<close>

theorem reachable_shell_inv: "reachable s \<Longrightarrow> shell_inv s"
proof (induction rule: reachable.induct)
  case (init p0 dir)
  then show ?case by (rule init_inv)
next
  case (step s ev s')
  then show ?case using shell_step_inv by blast
qed

text \<open>C3: From a reachable state, every event's processing returns: no reap pass loops and no
  foreground wait blocks forever.\<close>

theorem reachable_step_returns: "reachable s \<Longrightarrow> shell_step ev s \<noteq> Hang"
  using reachable_inv shell_step_no_hang by blast

text \<open>C20: A line of spaces only (not empty, so neither the empty-line nor the comment case)
  tokenizes to no token, and \<open>strcmp(userCmds[0], "cd")\<close> reads a NULL pointer.\<close>

theorem whitespace_line_ub:
  assumes "line \<noteq> []" "list_all (\<lambda>c. c = CHR '' '') line"
  shows "run_command e line s = UB Null_deref"
proof -
  have "dropWhile (\<lambda>c. c = CHR '' '') line = []" using assms(2) by (simp add: dropWhile_eq_Nil_conv list_all_iff)
  then have "tokenizeInput line = Inr []" by (simp add: tokenizeInput_def strtok_all_None strtok_next_def)
  moreover have "hd line = CHR '' ''" using assms by (cases line) auto
  moreover have "line \<noteq> ''exit''" using assms(2) by auto
  ultimately show ?thesis using assms(1) by (simp add: run_command_def dispatch_def)
qed

lemma reapChildren_empty: "pidArray s = [] \<Longrightarrow> reapChildren s = Some s"
  using reap_from_spec [of s 0] by (simp add: reapChildren_def registry_ok_def)

lemma tokenize_status: "tokenizeInput ''status'' = Inr [''status'']"
  by (simp add: tokenizeInput_def strtok_all_Some strtok_all_None strtok_next_def MAXARGS_def TOKBUF_def)

lemma expand_status: "expandPID n [''status''] = Inr [''status'']"
  by (simp add: expand_token_None)

text \<open>C19: The reap pass stores a finished background job's status in \<open>childExitMethod\<close>, the
  variable \<open>status\<close> reads: after an empty line collects the job, \<open>status\<close> prints the
  background job's status, not the last foreground command's.\<close>

theorem status_reports_background_job:
  assumes "shell_inv s" "pidArray s = [p]" "procs s p = Some (Zombie st)"
  shows "\<exists>s'. run_command e [] s = Ok (False, s') \<and> childExitMethod s' = st
            \<and> run_command e ''status'' s' = Ok (False, tty_write (status_msg st) s')"
proof -
  have "reapChildren s = Some (reap_spec s)"
    using reap_from_spec [of s 0] assms(1) by (simp add: reapChildren_def reap_spec_def shell_inv_def)
  moreover have "childExitMethod (reap_spec s) = st" "pidArray (reap_spec s) = []"
    using assms(2,3) by (simp_all add: reap_spec_def zombie_status_def reap_entry_def tty_write_def)
  moreover have "run_command e ''status'' (reap_spec s) = Ok (False, tty_write (status_msg st) (reap_spec s))"
    using calculation(2,3)
    by (simp add: run_command_def tokenize_status expand_token_None dispatch_def checkStatus_def
        reapChildren_empty tty_write_def)
  ultimately show ?thesis by (simp add: run_command_def)
qed

lemma changeDirectory_Exit: "changeDirectory e cmds s = Exit n out \<Longrightarrow> n = 1"
  by (auto simp: changeDirectory_def split: option.splits if_splits)

lemma toggleBG_not_Exit: "toggleBG s \<noteq> Exit n out"
  by (cases "canRunBG s") (simp_all add: toggleBG_on toggleBG_off)

lemma fg_wait_not_Exit: "fg_wait e p s \<noteq> Exit n out"
  using toggleBG_not_Exit
  by (auto simp: fg_wait_def Let_def split: option.splits prod.splits)

lemma forkAndExec_Exit: "forkAndExec e cmds bg s = Exit n out \<Longrightarrow> n = 1"
proof (cases "fork_ok e")
  case True
  assume x: "forkAndExec e cmds bg s = Exit n out"
  show ?thesis
  proof (cases "bg \<and> canRunBG s")
    case True
    then show ?thesis using x \<open>fork_ok e\<close> by (simp add: forkAndExec_bg_path)
  next
    case False
    then show ?thesis using x \<open>fork_ok e\<close> fg_wait_not_Exit by (simp add: forkAndExec_fg_path)
  qed
qed (simp add: forkAndExec_def)

lemma dispatch_Exit: "dispatch e toks s = Exit n out \<Longrightarrow> n = 1"
proof (cases toks)
  case (Cons t ts)
  assume x: "dispatch e toks s = Exit n out"
  consider "t = ''cd''" | "t \<noteq> ''cd''" "t = ''status''" | "t \<noteq> ''cd''" "t \<noteq> ''status''" by blast
  then show ?thesis
  proof cases
    case 1
    then show ?thesis using x Cons changeDirectory_Exit by (simp add: dispatch_def)
  next
    case 2
    then show ?thesis using x Cons by (simp add: dispatch_def)
  next
    case 3
    then obtain a where "(case a of (cmds, bg) \<Rightarrow> forkAndExec e cmds bg s) = Exit n out"
      using x Cons by (auto simp: dispatch_def)
    then show ?thesis using forkAndExec_Exit by (cases a) simp
  qed
qed (simp add: dispatch_def)

lemma run_command_Exit: "run_command e line s = Exit n out \<Longrightarrow> n = 1"
  using dispatch_Exit by (simp add: run_command_def split: if_splits) blast

lemma run_command_True: "run_command e line s = Ok (True, s') \<Longrightarrow> line = ''exit''"
  by (auto simp: run_command_def split: if_splits)

lemma shell_step_True:
  "shell_step ev s = Ok (True, s') \<Longrightarrow> \<exists>raw e. ev = Input raw e \<and> chop_line raw = Inr ''exit''"
  using run_command_True by (cases ev) (auto simp: toggleBG_def c_write_def fg_msg_lengths)

lemma shell_step_Exit: "shell_step ev s = Exit n out \<Longrightarrow> n = 1"
  using run_command_Exit by (cases ev) (auto simp: toggleBG_not_Exit)

text \<open>C16: The shell ends with status 0 only after reading the line \<open>exit\<close>; end of input,
  signals, and child events never end it.\<close>

theorem exit_needs_exit_line:
  "shellLoop evs s = Exit 0 out \<Longrightarrow> \<exists>raw e. Input raw e \<in> set evs \<and> chop_line raw = Inr ''exit''"
proof (induction evs arbitrary: s)
  case Nil
  then show ?case by simp
next
  case (Cons ev evs)
  show ?case
  proof (cases "shell_step ev s")
    case (Ok r)
    show ?thesis
    proof (cases r)
      case (Pair b s1)
      show ?thesis
      proof (cases b)
        case True
        then show ?thesis using shell_step_True [of ev s s1] Ok Pair by auto
      next
        case False
        then have "shellLoop evs s1 = Exit 0 out" using Cons.prems Ok Pair by simp
        then obtain raw e where "Input raw e \<in> set evs" "chop_line raw = Inr ''exit''"
          using Cons.IH by blast
        then show ?thesis by auto
      qed
    qed
  next
    case (Exit n out')
    then show ?thesis using Cons.prems shell_step_Exit [OF Exit] by simp
  qed (use Cons.prems in simp_all)
qed

text \<open>C21: At end of input \<open>getline\<close> fails at every call; the loop clears the error and
  prints the prompt again, without end: after any number of failed reads the shell is
  still running and has printed one prompt per read.\<close>

theorem eof_loops:
  "shellLoop (replicate n Read_fail) s = Ok (s\<lparr>tty := tty s @ concat (replicate n '': '')\<rparr>)"
proof (induction n arbitrary: s)
  case 0
  then show ?case by simp
next
  case (Suc n)
  have "shellLoop (replicate (Suc n) Read_fail) s = shellLoop (replicate n Read_fail) (printPrompt s)" by simp
  then show ?case using Suc.IH [of "printPrompt s"] by (simp add: printPrompt_def tty_write_def)
qed

section \<open>Examples\<close>

text \<open>A registry holding one finished background job, pid 3, that exited with 7.\<close>

abbreviation demo_zombie :: shell where
  "demo_zombie \<equiv> \<lparr>procs = [3 \<mapsto> Zombie (W_EXITCODE 7)], next_pid = 4, tty = [], cwd = ''/'',
     canRunBG = True, pidArray = [3], childExitMethod = W_EXITCODE 0\<rparr>"

theorem status_reports_background_job_witness:
  "\<exists>s'. run_command demo_env [] demo_zombie = Ok (False, s') \<and> childExitMethod s' = W_EXITCODE 7
      \<and> run_command demo_env ''status'' s' = Ok (False, tty_write (''exit value 7'' @ [NL]) s')"
proof -
  have "shell_inv demo_zombie" by (simp add: shell_inv_def registry_ok_def MAXBG_def)
  then show ?thesis
    using status_reports_background_job [where s = demo_zombie and p = 3 and st = "W_EXITCODE 7" and e = demo_env]
    by (simp add: status_msg_exit nat_str.simps digit_char_def)
qed

theorem whitespace_line_ub_witness: "run_command demo_env ''   '' demo_shell = UB Null_deref"
  using whitespace_line_ub [where line = "''   ''" and e = demo_env and s = demo_shell] by simp

theorem exit_needs_exit_line_witness:
  "shellLoop [Read_fail, Input (''exit'' @ [NL]) demo_env] demo_shell = Exit 0 ('': : '' @ [NL])
   \<and> chop_line (''exit'' @ [NL]) = Inr ''exit''"
proof -
  have "shellLoop [Read_fail, Input (''exit'' @ [NL]) demo_env] demo_shell = Exit 0 ('': : '' @ [NL])"
    by (simp add: chop_line_def run_command_def printPrompt_def tty_write_def shutdown_def
        killBG_def reapBG_def)
  then show ?thesis
    using exit_needs_exit_line [where evs = "[Read_fail, Input (''exit'' @ [NL]) demo_env]" and s = demo_shell]
    by (simp add: chop_line_def)
qed

theorem reachable_shell_inv_witness:
  "reachable (init_shell 100 ''/'') \<and> registry_ok (init_shell 100 ''/'') \<and> next_pid (init_shell 100 ''/'') = 100"
proof -
  have r: "reachable (init_shell 100 ''/'')" by (rule reachable.init) simp
  then have "shell_inv (init_shell 100 ''/'')" by (rule reachable_shell_inv)
  then show ?thesis using r by (simp add: shell_inv_def init_shell_def)
qed

theorem reachable_step_returns_witness:
  "shell_step (Input (''status'' @ [NL]) demo_env) (init_shell 100 ''/'') \<noteq> Hang"
proof -
  have r: "reachable (init_shell 100 ''/'')" by (rule reachable.init) simp
  show ?thesis by (rule reachable_step_returns [OF r])
qed

end
