(* ===== verification/Session.thy ===== *)
theory Session
  imports Shell_Loop
begin

text \<open>
  Whole runs of smallsh (src/smallsh.c) from \<open>main\<close>'s initial state, as sequences of
  events fed to \<open>shellLoop\<close>: they compose the tokenizer, \<open>expandPID\<close>, \<open>checkIfBG\<close>,
  \<open>forkAndExec\<close>, the reap pass, \<open>toggleBG\<close> and the shutdown of \<open>main\<close>. The lemmas
  give the effect of one event on a state of a given shape; each session is a chain of
  them. The environment \<open>session_env\<close> lets \<open>fork\<close> succeed, opens \<open>/dev/null\<close>, and
  sends no \<open>SIGTSTP\<close> during a foreground wait. The theory also runs the built-in \<open>cd\<close>
  as a whole line, and shows that from any reachable state a finished background job is
  reported by the next line's reap pass.
\<close>

definition session_env :: "env \<Rightarrow> bool" where
  "session_env e \<longleftrightarrow> fork_ok e \<and> can_read e ''/dev/null'' \<and> can_write e ''/dev/null'' \<and> \<not> tstp_in_wait e"

section \<open>Steps\<close>

lemma tok_echo: "tokenizeInput ''echo hi &'' = Inr [''echo'', ''hi'', ''&'']"
proof -
  have "strtok_all (join_tokens [''echo'', ''hi'', ''&'']) = [''echo'', ''hi'', ''&'']"
    by (rule strtok_all_join_tokens) (simp add: word_token_def)
  then show ?thesis by (simp add: tokenizeInput_def TOKBUF_def MAXARGS_def)
qed

lemma exp_echo: "expandPID n [''echo'', ''hi'', ''&''] = Inr [''echo'', ''hi'', ''&'']"
  by (simp add: expand_token_None)

lemma child_echo:
  "session_env e \<Longrightarrow> exec_result e [''echo'', ''hi''] = Some st \<Longrightarrow>
     child_run e [Some ''echo'', Some ''hi'', None] True canbg =
       \<lparr>c_exec = Some ([''echo'', ''hi''], if canbg then Dev_null else Tty, if canbg then Dev_null else Tty),
        c_sigint = (if canbg then Sig_ignore else Sig_default), c_tty = [], c_status = st\<rparr>"
  by (simp add: session_env_def child_run_def checkReDirect_def null_redirects_def init_rd_def redirect_loop_step
      redirect_loop_end redirect_in_def redirect_out_def slot_def argv_of_def Let_def)

lemma reap_one_running:
  "pidArray s = [p] \<Longrightarrow> procs s p = Some (Running st) \<Longrightarrow> reapChildren s = Some s"
  using reap_from_live [of 0 s] by (simp add: reapChildren_def zombie_status_def domIff reap_from.simps [of "Suc 0" s])

lemma reap_one_zombie:
  assumes "pidArray s = [p]" "procs s p = Some (Zombie st)" "p \<noteq> 0"
  shows "reapChildren s = Some ((reap_entry p st s)\<lparr>pidArray := []\<rparr>)"
proof -
  have "reap_from 0 s = reap_from 0 ((reap_entry p st s)\<lparr>pidArray := []\<rparr>)"
    using reap_from_zombie [of 0 s st] assms by (simp add: zombie_status_def)
  then show ?thesis by (simp add: reapChildren_def reap_from.simps [of 0 "(reap_entry p st s)\<lparr>pidArray := []\<rparr>"])
qed

lemma run_echo:
  "run_command e ''echo hi &'' s =
     res_bind (forkAndExec e [Some ''echo'', Some ''hi'', None] True s)
       (\<lambda>s1. res_bind (res_of_option (reapChildren s1)) (\<lambda>s2. Ok (False, s2)))"
  by (simp add: run_command_def tok_echo exp_echo dispatch_def checkIfBG_def del: expandPID.simps)

lemma echo_bg_step:
  assumes "session_env e" "exec_result e [''echo'', ''hi''] = Some st"
    and "canRunBG s" "pidArray s = []"
  shows "shell_step (Input (''echo hi &'' @ [NL]) e) s =
     Ok (False, s\<lparr>procs := (procs s)(next_pid s \<mapsto> Running st), next_pid := next_pid s + 1,
          tty := tty s @ '': background pid is '' @ int_str (next_pid s) @ [NL], pidArray := [next_pid s]\<rparr>)"
    (is "_ = Ok (False, ?s1)")
proof -
  have f: "forkAndExec e [Some ''echo'', Some ''hi'', None] True (printPrompt s) = Ok ?s1"
    using assms child_echo [OF assms(1,2)]
    by (simp add: session_env_def forkAndExec_def spawn_def tty_write_def addPid_def MAXBG_def printPrompt_def Let_def)
  have r: "reapChildren ?s1 = Some ?s1" by (rule reap_one_running [where st = st]) auto
  show ?thesis using f r by (simp add: chop_line_def run_echo)
qed

lemma echo_fg_step:
  assumes "session_env e" "exec_result e [''echo'', ''hi''] = Some st" "\<not> WIFSIGNALED st"
    and "\<not> canRunBG s" "pidArray s = []" "procs s (next_pid s) = None"
  shows "shell_step (Input (''echo hi &'' @ [NL]) e) s =
     Ok (False, s\<lparr>next_pid := next_pid s + 1, tty := tty s @ '': '', childExitMethod := st\<rparr>)"
proof -
  have "(procs s)(next_pid s \<mapsto> Running st, next_pid s := None) = procs s"
    using assms(6) by (simp add: fun_upd_idem)
  then have f: "forkAndExec e [Some ''echo'', Some ''hi'', None] True (printPrompt s) =
            Ok (s\<lparr>next_pid := next_pid s + 1, tty := tty s @ '': '', childExitMethod := st\<rparr>)"
    using assms child_echo [OF assms(1,2)]
    by (simp add: session_env_def forkAndExec_def spawn_def tty_write_def printPrompt_def fg_wait_def Let_def)
  show ?thesis using f assms(5) by (simp add: chop_line_def run_echo reapChildren_empty)
qed

lemma stop_children_none [simp]: "stop_children {} s = s"
  by (simp add: stop_children_def fun_eq_iff split: option.splits pstate.splits)

lemma tstp_step:
  "shell_step (Tstp {}) s =
     Ok (False, s\<lparr>tty := tty s @ '': '' @ (if canRunBG s then fg_enter_msg else fg_exit_msg),
                  canRunBG := \<not> canRunBG s\<rparr>)"
  by (cases "canRunBG s") (simp_all add: toggleBG_on toggleBG_off printPrompt_def tty_write_def)

lemma shellLoop_continue: "shell_step ev s = Ok (False, s') \<Longrightarrow> shellLoop (ev # evs) s = shellLoop evs s'"
  by simp

lemma shellLoop_stop: "shell_step ev s = Ok (True, s') \<Longrightarrow> shellLoop (ev # evs) s = shutdown s'"
  by simp

lemma bg_done_exit:
  "bg_done_msg p (W_EXITCODE c) = ''background pid '' @ int_str p @ '' is done: exit value '' @ nat_str (c mod 256) @ [NL]"
  by (simp add: bg_done_msg_def W_EXITCODE_exited WIFEXITED_not_WIFSIGNALED W_EXITCODE_status)

section \<open>Sessions\<close>

text \<open>C30: A session that launches \<open>echo hi &\<close>, lets it finish, enters an empty line and
  then \<open>exit\<close>: the launch prints the background notice and returns to the prompt without
  waiting, the reap pass after the empty line reports the job's exit value, and the shell
  exits 0 after printing a newline. The terminal shows exactly these lines and prompts.\<close>

theorem echo_bg_session:
  assumes "session_env e" "exec_result e [''echo'', ''hi''] = Some (W_EXITCODE c)" "0 < p0"
  shows "smallsh p0 dir [Input (''echo hi &'' @ [NL]) e, Child_exit p0, Input [NL] e, Input (''exit'' @ [NL]) e] =
     Exit 0 ('': background pid is '' @ int_str p0 @ [NL] @
             '': background pid '' @ int_str p0 @ '' is done: exit value '' @ nat_str (c mod 256) @ [NL] @
             '': '' @ [NL])"
proof -
  let ?s0 = "init_shell p0 dir"
  let ?s1 = "?s0\<lparr>procs := (procs ?s0)(next_pid ?s0 \<mapsto> Running (W_EXITCODE c)), next_pid := next_pid ?s0 + 1,
               tty := tty ?s0 @ '': background pid is '' @ int_str (next_pid ?s0) @ [NL], pidArray := [next_pid ?s0]\<rparr>"
  let ?s2 = "?s1\<lparr>procs := [p0 \<mapsto> Zombie (W_EXITCODE c)]\<rparr>"
  let ?s3 = "(reap_entry p0 (W_EXITCODE c) (printPrompt ?s2))\<lparr>pidArray := []\<rparr>"
  have s1: "shell_step (Input (''echo hi &'' @ [NL]) e) ?s0 = Ok (False, ?s1)"
    by (rule echo_bg_step [OF assms(1,2)]) (simp_all add: init_shell_def)
  have s2: "shell_step (Child_exit p0) ?s1 = Ok (False, ?s2)" by (simp add: child_exits_def init_shell_def)
  have r3: "reapChildren (printPrompt ?s2) = Some ?s3"
    using assms(3) by (intro reap_one_zombie) (simp_all add: printPrompt_def tty_write_def init_shell_def)
  have s3: "shell_step (Input [NL] e) ?s2 = Ok (False, ?s3)"
    using r3 by (simp add: chop_line_def run_command_def)
  have s4: "shell_step (Input (''exit'' @ [NL]) e) ?s3 = Ok (True, printPrompt ?s3)"
    by (simp add: chop_line_def run_command_def)
  have sd: "shutdown (printPrompt ?s3) = Exit 0 (tty (printPrompt ?s3) @ [NL])"
    by (simp add: shutdown_def killBG_def reapBG_def printPrompt_def tty_write_def reap_entry_def)
  have "smallsh p0 dir [Input (''echo hi &'' @ [NL]) e, Child_exit p0, Input [NL] e, Input (''exit'' @ [NL]) e] =
          shellLoop [Child_exit p0, Input [NL] e, Input (''exit'' @ [NL]) e] ?s1"
    unfolding smallsh_def by (rule shellLoop_continue [OF s1])
  also have "\<dots> = shellLoop [Input [NL] e, Input (''exit'' @ [NL]) e] ?s2" by (rule shellLoop_continue [OF s2])
  also have "\<dots> = shellLoop [Input (''exit'' @ [NL]) e] ?s3" by (rule shellLoop_continue [OF s3])
  also have "\<dots> = shutdown (printPrompt ?s3)" by (rule shellLoop_stop [OF s4])
  finally show ?thesis using sd
    by (simp add: printPrompt_def tty_write_def reap_entry_def bg_done_exit init_shell_def)
qed

text \<open>C31: After one \<open>SIGTSTP\<close> at the prompt, \<open>echo hi &\<close> runs in the foreground: the
  shell waits for it, records its status and registers nothing. After a second \<open>SIGTSTP\<close>
  the same line starts a registered background job. The terminal shows the entry and exit
  messages of foreground-only mode and one background notice.\<close>

theorem fg_only_session:
  assumes "session_env e" "exec_result e [''echo'', ''hi''] = Some (W_EXITCODE c)"
  shows "smallsh p0 dir [Tstp {}, Input (''echo hi &'' @ [NL]) e, Tstp {}, Input (''echo hi &'' @ [NL]) e] =
     Ok ((init_shell p0 dir)\<lparr>procs := [p0 + 1 \<mapsto> Running (W_EXITCODE c)], next_pid := p0 + 2,
           tty := '': '' @ fg_enter_msg @ '': '' @ '': '' @ fg_exit_msg @
                  '': background pid is '' @ int_str (p0 + 1) @ [NL],
           pidArray := [p0 + 1], childExitMethod := W_EXITCODE c\<rparr>)"
proof -
  let ?s0 = "init_shell p0 dir"
  let ?s1 = "?s0\<lparr>tty := tty ?s0 @ '': '' @ (if canRunBG ?s0 then fg_enter_msg else fg_exit_msg),
                  canRunBG := \<not> canRunBG ?s0\<rparr>"
  let ?s2 = "?s1\<lparr>next_pid := next_pid ?s1 + 1, tty := tty ?s1 @ '': '', childExitMethod := W_EXITCODE c\<rparr>"
  let ?s3 = "?s2\<lparr>tty := tty ?s2 @ '': '' @ (if canRunBG ?s2 then fg_enter_msg else fg_exit_msg),
                  canRunBG := \<not> canRunBG ?s2\<rparr>"
  let ?s4 = "?s3\<lparr>procs := (procs ?s3)(next_pid ?s3 \<mapsto> Running (W_EXITCODE c)), next_pid := next_pid ?s3 + 1,
               tty := tty ?s3 @ '': background pid is '' @ int_str (next_pid ?s3) @ [NL], pidArray := [next_pid ?s3]\<rparr>"
  have s2: "shell_step (Input (''echo hi &'' @ [NL]) e) ?s1 = Ok (False, ?s2)"
    by (rule echo_fg_step [OF assms(1,2)])
       (simp_all add: init_shell_def W_EXITCODE_exited WIFEXITED_not_WIFSIGNALED)
  have s4: "shell_step (Input (''echo hi &'' @ [NL]) e) ?s3 = Ok (False, ?s4)"
    by (rule echo_bg_step [OF assms(1,2)]) (simp_all add: init_shell_def)
  have "smallsh p0 dir [Tstp {}, Input (''echo hi &'' @ [NL]) e, Tstp {}, Input (''echo hi &'' @ [NL]) e] =
          shellLoop [Input (''echo hi &'' @ [NL]) e, Tstp {}, Input (''echo hi &'' @ [NL]) e] ?s1"
    unfolding smallsh_def by (rule shellLoop_continue [OF tstp_step])
  also have "\<dots> = shellLoop [Tstp {}, Input (''echo hi &'' @ [NL]) e] ?s2" by (rule shellLoop_continue [OF s2])
  also have "\<dots> = shellLoop [Input (''echo hi &'' @ [NL]) e] ?s3" by (rule shellLoop_continue [OF tstp_step])
  also have "\<dots> = Ok ?s4" using shellLoop_continue [OF s4, of "[]"] by simp
  finally show ?thesis by (simp add: init_shell_def)
qed

section \<open>The built-in cd\<close>

lemma reapChildren_frame:
  "shell_inv s \<Longrightarrow> reapChildren s = Some s' \<Longrightarrow> cwd s' = cwd s \<and> next_pid s' = next_pid s"
  using reap_from_spec [of s 0] by (auto simp: reapChildren_def shell_inv_def)

lemma tok_cd:
  assumes "word_token d" "length d < TOKBUF"
  shows "tokenizeInput (''cd '' @ d) = Inr [''cd'', d]"
proof -
  have "strtok_all (join_tokens [''cd'', d]) = [''cd'', d]"
    using assms(1) by (intro strtok_all_join_tokens) (simp add: word_token_def)
  then show ?thesis using assms(2) by (simp add: tokenizeInput_def TOKBUF_def MAXARGS_def)
qed

lemma tok_cd_home: "tokenizeInput ''cd'' = Inr [''cd'']"
proof -
  have "strtok_all (join_tokens [''cd'']) = [''cd'']" by (rule strtok_all_join_tokens) (simp add: word_token_def)
  then show ?thesis by (simp add: tokenizeInput_def TOKBUF_def MAXARGS_def)
qed

lemma builtin_then_reap:
  assumes "shell_inv s" "cwd s1 = c" "next_pid s1 = next_pid s" "shell_inv s1"
  shows "\<exists>s'. res_bind (res_of_option (reapChildren s1)) (\<lambda>s2. Ok (False, s2)) = Ok (False, s')
              \<and> cwd s' = c \<and> next_pid s' = next_pid s"
  using assms reapChildren_total [OF assms(4)] reapChildren_frame [OF assms(4)] by fastforce

text \<open>C35: The built-in \<open>cd\<close> as a whole line: \<open>cd d\<close> changes the working directory to
  \<open>d\<close>, and \<open>cd\<close> alone to \<open>HOME\<close>, without forking (the next pid is unchanged), and the
  shell goes on after its reap pass; when \<open>chdir\<close> fails, or \<open>HOME\<close> is unset, the shell
  itself prints the diagnostic and exits with status 1.\<close>

theorem cd_line:
  assumes "shell_inv s" "word_token d" "find_dd d = None" "length d < TOKBUF"
  shows "(can_chdir e d \<longrightarrow>
            (\<exists>s'. run_command e (''cd '' @ d) s = Ok (False, s') \<and> cwd s' = d \<and> next_pid s' = next_pid s))
       \<and> (\<not> can_chdir e d \<longrightarrow> run_command e (''cd '' @ d) s = Exit 1 (tty s @ ''error changing to '' @ d @ [NL]))
       \<and> (home e = Some h \<longrightarrow> can_chdir e h \<longrightarrow>
            (\<exists>s'. run_command e ''cd'' s = Ok (False, s') \<and> cwd s' = h \<and> next_pid s' = next_pid s))
       \<and> (home e = None \<longrightarrow> run_command e ''cd'' s = Exit 1 (tty s @ ''error changing to HOME dir'' @ [NL]))"
proof -
  have line: "''cd '' @ d \<noteq> ''exit'' \<and> ''cd '' @ d \<noteq> [] \<and> hd (''cd '' @ d) \<noteq> CHR ''#''" by simp
  have x: "expandPID (shell_pid e) [''cd'', d] = Inr [''cd'', d]" using assms(3) by (simp add: expand_token_None)
  have x1: "expandPID (shell_pid e) [''cd''] = Inr [''cd'']" by (simp add: expand_token_None)
  have arg: "run_command e (''cd '' @ d) s =
               res_bind (changeDirectory e [Some ''cd'', Some d] s)
                 (\<lambda>s1. res_bind (res_of_option (reapChildren s1)) (\<lambda>s2. Ok (False, s2)))"
    using tok_cd [OF assms(2,4)] x line by (simp add: run_command_def dispatch_def del: expandPID.simps)
  have home: "run_command e ''cd'' s =
               res_bind (changeDirectory e [Some ''cd''] s)
                 (\<lambda>s1. res_bind (res_of_option (reapChildren s1)) (\<lambda>s2. Ok (False, s2)))"
    using tok_cd_home x1 by (simp add: run_command_def dispatch_def del: expandPID.simps)
  have i: "shell_inv (s\<lparr>cwd := c\<rparr>)" for c using assms(1) by (simp add: shell_inv_def registry_ok_def)
  show ?thesis
  proof (intro conjI impI)
    assume "can_chdir e d"
    then show "\<exists>s'. run_command e (''cd '' @ d) s = Ok (False, s') \<and> cwd s' = d \<and> next_pid s' = next_pid s"
      using arg builtin_then_reap [OF assms(1) _ _ i, of d] by (simp add: changeDirectory_def slot_def)
  next
    assume "\<not> can_chdir e d"
    then show "run_command e (''cd '' @ d) s = Exit 1 (tty s @ ''error changing to '' @ d @ [NL])"
      using arg by (simp add: changeDirectory_def slot_def)
  next
    assume "home e = Some h" "can_chdir e h"
    then show "\<exists>s'. run_command e ''cd'' s = Ok (False, s') \<and> cwd s' = h \<and> next_pid s' = next_pid s"
      using home builtin_then_reap [OF assms(1) _ _ i, of h] by (simp add: changeDirectory_def slot_def)
  next
    assume "home e = None"
    then show "run_command e ''cd'' s = Exit 1 (tty s @ ''error changing to HOME dir'' @ [NL])"
      using home by (simp add: changeDirectory_def slot_def)
  qed
qed

section \<open>Reporting finished jobs\<close>

lemma tty_reap_scan_prefix: "\<exists>post. tty (reap_scan xs t) = tty t @ post"
proof (induction xs arbitrary: t)
  case (Cons x xs)
  show ?case
  proof (cases "zombie_status t x")
    case None
    then show ?thesis using Cons.IH [of t] by simp
  next
    case (Some a)
    obtain post where "tty (reap_scan xs (reap_entry x a t)) = tty (reap_entry x a t) @ post"
      using Cons.IH by blast
    then show ?thesis using Some by (simp add: reap_entry_def tty_write_def)
  qed
qed simp

lemma tty_reap_scan:
  assumes "distinct ps" "p \<in> set ps" "zombie_status s p = Some st"
  shows "\<exists>pre post. tty (reap_scan ps s) = tty s @ pre @ bg_done_msg p st @ post"
  using assms
proof (induction ps arbitrary: s)
  case Nil
  then show ?case by simp
next
  case (Cons q ps)
  show ?case
  proof (cases "q = p")
    case True
    obtain post where "tty (reap_scan ps (reap_entry p st s)) = tty (reap_entry p st s) @ post"
      using tty_reap_scan_prefix by blast
    then show ?thesis using True Cons.prems(3) by (auto simp: reap_entry_def tty_write_def)
  next
    case False
    then have p: "p \<in> set ps" using Cons.prems(2) by simp
    show ?thesis
    proof (cases "zombie_status s q")
      case None
      then show ?thesis using Cons.IH [OF _ p Cons.prems(3)] Cons.prems(1) by simp
    next
      case (Some sq)
      have z: "zombie_status (reap_entry q sq s) p = Some st"
        using False Cons.prems(3) by (simp add: reap_entry_def)
      obtain pre post where "tty (reap_scan ps (reap_entry q sq s)) = tty (reap_entry q sq s) @ pre @ bg_done_msg p st @ post"
        using Cons.IH [OF _ p z] Cons.prems(1) by auto
      then have "tty (reap_scan (q # ps) s) = tty s @ (bg_done_msg q sq @ pre) @ bg_done_msg p st @ post"
        using Some by (simp add: reap_entry_def tty_write_def)
      then show ?thesis by blast
    qed
  qed
qed

text \<open>C36: A finished background job is reported at the next line: from any state the loop
  reaches, when a registered job has exited, an empty line (the shortest line that reaches
  a reap pass) prints \<open>background pid P is done: ..\<close> for it, collects it and removes it
  from the registry.\<close>

theorem finished_job_reported:
  assumes "reachable s" "p \<in> set (pidArray s)" "procs s p = Some (Zombie st)"
  shows "\<exists>s'. shell_step (Input [NL] e) s = Ok (False, s') \<and> p \<notin> set (pidArray s') \<and> procs s' p = None
            \<and> (\<exists>pre post. tty s' = tty s @ '': '' @ pre @ bg_done_msg p st @ post)"
proof -
  have inv: "shell_inv (printPrompt s)" using reachable_inv [OF assms(1)] by (simp add: printPrompt_def)
  let ?s = "printPrompt s"
  have r: "reapChildren ?s = Some (reap_spec ?s)"
    using reap_from_spec [of ?s 0] inv by (simp add: reapChildren_def reap_spec_def shell_inv_def)
  have z: "zombie_status ?s p = Some st" using assms(3) by (simp add: zombie_status_def printPrompt_def tty_write_def)
  have d: "distinct (pidArray ?s)" using inv by (simp add: shell_inv_def registry_ok_def)
  have p: "p \<in> set (pidArray ?s)" using assms(2) by (simp add: printPrompt_def tty_write_def)
  obtain pre post where t: "tty (reap_scan (pidArray ?s) ?s) = tty ?s @ pre @ bg_done_msg p st @ post"
    using tty_reap_scan [OF d p z] by blast
  have "procs (reap_spec ?s) p = None" using p z by (simp add: reap_spec_def procs_reap_scan)
  moreover have "p \<notin> set (pidArray (reap_spec ?s))" using z by (simp add: reap_spec_def)
  moreover have "tty (reap_spec ?s) = tty s @ '': '' @ pre @ bg_done_msg p st @ post"
    using t by (simp add: reap_spec_def printPrompt_def tty_write_def)
  ultimately show ?thesis using r by (auto simp: chop_line_def run_command_def)
qed

section \<open>Examples\<close>

theorem echo_bg_session_witness:
  "session_env demo_env \<and> exec_result demo_env [''echo'', ''hi''] = Some (W_EXITCODE 0)
   \<and> smallsh 100 ''/'' [Input (''echo hi &'' @ [NL]) demo_env, Child_exit 100, Input [NL] demo_env,
                         Input (''exit'' @ [NL]) demo_env] =
       Exit 0 ('': background pid is 100'' @ [NL] @ '': background pid 100 is done: exit value 0'' @ [NL] @
               '': '' @ [NL])"
  using echo_bg_session [of demo_env 0 100 "''/''"]
  by (simp add: session_env_def int_str_def nat_str.simps digit_char_def)

theorem fg_only_session_witness:
  "session_env demo_env \<and> exec_result demo_env [''echo'', ''hi''] = Some (W_EXITCODE 0)
   \<and> smallsh 100 ''/'' [Tstp {}, Input (''echo hi &'' @ [NL]) demo_env, Tstp {},
                         Input (''echo hi &'' @ [NL]) demo_env] =
       Ok ((init_shell 100 ''/'')\<lparr>procs := [101 \<mapsto> Running (W_EXITCODE 0)], next_pid := 102,
             tty := '': '' @ fg_enter_msg @ '': '' @ '': '' @ fg_exit_msg @ '': background pid is 101'' @ [NL],
             pidArray := [101], childExitMethod := W_EXITCODE 0\<rparr>)"
  using fg_only_session [of demo_env 0 100 "''/''"]
  by (simp add: session_env_def int_str_def nat_str.simps digit_char_def)

theorem cd_line_witness:
  "(\<exists>s'. run_command demo_env (''cd '' @ ''/home/u'') (init_shell 100 ''/'') = Ok (False, s') \<and> cwd s' = ''/home/u''
         \<and> next_pid s' = 100)
   \<and> run_command demo_env (''cd '' @ ''/tmp'') (init_shell 100 ''/'') = Exit 1 (''error changing to /tmp'' @ [NL])
   \<and> (\<exists>s'. run_command demo_env ''cd'' (init_shell 100 ''/'') = Ok (False, s') \<and> cwd s' = ''/home/u'')
   \<and> run_command (demo_env\<lparr>home := None\<rparr>) ''cd'' (init_shell 100 ''/'') = Exit 1 (''error changing to HOME dir'' @ [NL])"
proof -
  have i: "shell_inv (init_shell 100 ''/'')" by (rule init_inv) simp
  have w1: "word_token ''/home/u''" "find_dd ''/home/u'' = None" "length ''/home/u'' < TOKBUF"
    by (simp_all add: word_token_def TOKBUF_def)
  have w2: "word_token ''/tmp''" "find_dd ''/tmp'' = None" "length ''/tmp'' < TOKBUF"
    by (simp_all add: word_token_def TOKBUF_def)
  show ?thesis
    using cd_line [OF i w1, of demo_env "''/home/u''"] cd_line [OF i w2, of demo_env "''/home/u''"]
      cd_line [OF i w2, of "demo_env\<lparr>home := None\<rparr>" "''/home/u''"]
    by (auto simp: init_shell_def)
qed

theorem finished_job_reported_witness:
  "reachable ((init_shell 100 ''/'')\<lparr>procs := [100 \<mapsto> Zombie (W_EXITCODE 0)], next_pid := 101,
                 tty := '': background pid is 100'' @ [NL], pidArray := [100]\<rparr>)
   \<and> (\<exists>s'. shell_step (Input [NL] demo_env)
              ((init_shell 100 ''/'')\<lparr>procs := [100 \<mapsto> Zombie (W_EXITCODE 0)], next_pid := 101,
                 tty := '': background pid is 100'' @ [NL], pidArray := [100]\<rparr>) = Ok (False, s')
         \<and> 100 \<notin> set (pidArray s') \<and> procs s' 100 = None
         \<and> (\<exists>pre post. tty s' = '': background pid is 100'' @ [NL] @ '': '' @ pre @
                                  bg_done_msg 100 (W_EXITCODE 0) @ post))"
proof -
  let ?s1 = "(init_shell 100 ''/'')\<lparr>procs := [100 \<mapsto> Running (W_EXITCODE 0)], next_pid := 101,
                 tty := '': background pid is 100'' @ [NL], pidArray := [100]\<rparr>"
  let ?s2 = "(init_shell 100 ''/'')\<lparr>procs := [100 \<mapsto> Zombie (W_EXITCODE 0)], next_pid := 101,
                 tty := '': background pid is 100'' @ [NL], pidArray := [100]\<rparr>"
  have e: "session_env demo_env" by (simp add: session_env_def)
  have s1: "shell_step (Input (''echo hi &'' @ [NL]) demo_env) (init_shell 100 ''/'') = Ok (False, ?s1)"
    using echo_bg_step [OF e, of "W_EXITCODE 0" "init_shell 100 ''/''"]
    by (simp add: init_shell_def int_str_def nat_str.simps digit_char_def)
  have s2: "shell_step (Child_exit 100) ?s1 = Ok (False, ?s2)" by (simp add: child_exits_def init_shell_def)
  have r: "reachable ?s2"
    by (rule reachable.step [OF reachable.step [OF reachable.init s1] s2]) simp
  show ?thesis
    using r finished_job_reported [OF r, of 100 "W_EXITCODE 0" demo_env] by (simp add: init_shell_def)
qed

end
