(* ===== verification/Signals.thy ===== *)
theory Signals
  imports Launcher
begin

text \<open>
  Signal dispositions in smallsh (src/smallsh.c): \<open>main\<close> (lines 737--758) builds three
  \<open>struct sigaction\<close> values from zero-initialised structs and installs two of them, so
  that the shell ignores \<open>SIGINT\<close> and runs \<open>toggleBG\<close> on \<open>SIGTSTP\<close>, with a full mask
  and no flags (in particular no \<open>SA_RESTART\<close>). A child inherits the table across
  \<open>fork\<close>; a foreground child installs \<open>normal_action\<close> for \<open>SIGINT\<close> (lines 487--491);
  \<open>execvp\<close> then resets every caught signal to its default and keeps ignored ones
  ignored (POSIX \<open>execve\<close>). What a delivered signal does is read off the table.
\<close>

section \<open>Actions and tables\<close>

datatype sig_handler = SIG_DFL | SIG_IGN | Handler_toggleBG

record sigaction_t =
  sa_handler :: sig_handler
  sa_mask_full :: bool   \<comment> \<open>\<open>sigfillset(&act.sa_mask)\<close>\<close>
  sa_restart :: bool     \<comment> \<open>\<open>SA_RESTART\<close> in \<open>sa_flags\<close>\<close>

datatype signo = Sig_INT | Sig_TSTP

record sigtable =
  on_sigint :: sigaction_t
  on_sigtstp :: sigaction_t

text \<open>\<open>struct sigaction x = {0}\<close>: handler \<open>0\<close> is \<open>SIG_DFL\<close>, empty mask, no flags.\<close>

definition zero_action :: sigaction_t where
  "zero_action = \<lparr>sa_handler = SIG_DFL, sa_mask_full = False, sa_restart = False\<rparr>"

definition ignore_action :: sigaction_t where
  "ignore_action = zero_action\<lparr>sa_handler := SIG_IGN, sa_mask_full := True, sa_restart := False\<rparr>"

definition normal_action :: sigaction_t where
  "normal_action = zero_action\<lparr>sa_handler := SIG_DFL\<rparr>"

definition SIGTSTP_action :: sigaction_t where
  "SIGTSTP_action = zero_action\<lparr>sa_handler := Handler_toggleBG, sa_mask_full := True, sa_restart := False\<rparr>"

text \<open>\<open>sigaction(signo, act, NULL)\<close>.\<close>

definition sigaction :: "signo \<Rightarrow> sigaction_t \<Rightarrow> sigtable \<Rightarrow> sigtable" where
  "sigaction n a t = (case n of Sig_INT \<Rightarrow> t\<lparr>on_sigint := a\<rparr> | Sig_TSTP \<Rightarrow> t\<lparr>on_sigtstp := a\<rparr>)"

definition action_of :: "sigtable \<Rightarrow> signo \<Rightarrow> sigaction_t" where
  "action_of t n = (case n of Sig_INT \<Rightarrow> on_sigint t | Sig_TSTP \<Rightarrow> on_sigtstp t)"

text \<open>A process starts with every signal at its default.\<close>

definition start_table :: sigtable where
  "start_table = \<lparr>on_sigint = zero_action, on_sigtstp = zero_action\<rparr>"

text \<open>Lines 756--757 of \<open>main\<close>.\<close>

definition main_signals :: sigtable where
  "main_signals = sigaction Sig_TSTP SIGTSTP_action (sigaction Sig_INT ignore_action start_table)"

section \<open>Children\<close>

text \<open>\<open>execve\<close>: a caught signal is reset to \<open>SIG_DFL\<close>; \<open>SIG_IGN\<close> and \<open>SIG_DFL\<close> are kept.\<close>

definition exec_reset_action :: "sigaction_t \<Rightarrow> sigaction_t" where
  "exec_reset_action a = (if sa_handler a = Handler_toggleBG then zero_action else a)"

definition exec_reset :: "sigtable \<Rightarrow> sigtable" where
  "exec_reset t = \<lparr>on_sigint = exec_reset_action (on_sigint t), on_sigtstp = exec_reset_action (on_sigtstp t)\<rparr>"

text \<open>Lines 487--491: the child's table before \<open>execvp\<close>.\<close>

definition child_signals :: "bool \<Rightarrow> bool \<Rightarrow> sigtable \<Rightarrow> sigtable" where
  "child_signals bg canbg t = (if \<not> bg \<or> \<not> canbg then sigaction Sig_INT normal_action t else t)"

text \<open>The table of the program a child becomes.\<close>

definition exec_image :: "bool \<Rightarrow> bool \<Rightarrow> sigtable" where
  "exec_image bg canbg = exec_reset (child_signals bg canbg main_signals)"

section \<open>Delivery\<close>

datatype effect =
    Ignored
  | Terminates
  | Stops
  | Runs_handler bool  \<comment> \<open>the handler runs; \<open>True\<close>: an interrupted blocking call is restarted\<close>

text \<open>The default actions: \<open>SIGINT\<close> terminates, \<open>SIGTSTP\<close> stops.\<close>

definition delivered :: "sigtable \<Rightarrow> signo \<Rightarrow> effect" where
  "delivered t n =
     (case sa_handler (action_of t n) of
        SIG_IGN \<Rightarrow> Ignored
      | SIG_DFL \<Rightarrow> (case n of Sig_INT \<Rightarrow> Terminates | Sig_TSTP \<Rightarrow> Stops)
      | Handler_toggleBG \<Rightarrow> Runs_handler (sa_restart (action_of t n)))"

definition sig_disposition :: "effect \<Rightarrow> disposition" where
  "sig_disposition x = (if x = Ignored then Sig_ignore else Sig_default)"

section \<open>Properties\<close>

lemma exec_image_table:
  "exec_image bg canbg =
     \<lparr>on_sigint = (if bg \<and> canbg then ignore_action else normal_action), on_sigtstp = zero_action\<rparr>"
  by (simp add: exec_image_def exec_reset_def exec_reset_action_def child_signals_def main_signals_def
      sigaction_def start_table_def ignore_action_def normal_action_def SIGTSTP_action_def zero_action_def)

text \<open>C26: The two conditions of \<open>forkAndExec\<close> agree: the program a forked child
  becomes ignores \<open>SIGINT\<close> (the child kept the inherited \<open>SIG_IGN\<close> at lines 489--491)
  exactly when the parent registers its pid as a background job (line 508). A child the
  shell waits for can be interrupted from the terminal; one it leaves running cannot.\<close>

theorem sigint_ignored_iff_registered:
  assumes "fork_ok e" "\<not> tstp_in_wait e" "length (pidArray s) < MAXBG"
    "procs s (next_pid s) = None" "next_pid s \<notin> set (pidArray s)"
  shows "\<exists>s'. forkAndExec e cmds bg s = Ok s' \<and>
           (delivered (exec_image bg (canRunBG s)) Sig_INT = Ignored \<longleftrightarrow> next_pid s \<in> set (pidArray s'))"
proof (cases "bg \<and> canRunBG s")
  case True
  then have "delivered (exec_image bg (canRunBG s)) Sig_INT = Ignored"
    by (simp add: exec_image_table delivered_def action_of_def ignore_action_def zero_action_def)
  then show ?thesis using True forkAndExec_bg [OF assms(1) _ assms(3), of cmds] by auto
next
  case False
  then have "delivered (exec_image bg (canRunBG s)) Sig_INT = Terminates"
    by (simp only: exec_image_table if_False) (simp add: exec_image_table delivered_def action_of_def normal_action_def zero_action_def)
  then show ?thesis using False assms(5) forkAndExec_fg [OF assms(1,2) False assms(4), of cmds] by auto
qed

theorem sigint_ignored_iff_registered_witness:
  "\<exists>s'. forkAndExec demo_env [Some ''sleep'', Some ''5''] True (demo_shell\<lparr>canRunBG := False\<rparr>) = Ok s'
      \<and> 100 \<notin> set (pidArray s') \<and> delivered (exec_image True False) Sig_INT = Terminates"
proof -
  have t: "delivered (exec_image True False) Sig_INT = Terminates"
    by (simp add: exec_image_table delivered_def action_of_def normal_action_def zero_action_def)
  have h: "fork_ok demo_env" "\<not> tstp_in_wait demo_env"
    "length (pidArray (demo_shell\<lparr>canRunBG := False\<rparr>)) < MAXBG"
    "procs (demo_shell\<lparr>canRunBG := False\<rparr>) (next_pid (demo_shell\<lparr>canRunBG := False\<rparr>)) = None"
    "next_pid (demo_shell\<lparr>canRunBG := False\<rparr>) \<notin> set (pidArray (demo_shell\<lparr>canRunBG := False\<rparr>))"
    by (simp_all add: MAXBG_def)
  show ?thesis
    using sigint_ignored_iff_registered [OF h, of "[Some ''sleep'', Some ''5'']" True] t by auto
qed

end
