(* ===== verification/Cmd_Array.thy ===== *)
theory Cmd_Array
  imports Parser
begin

text \<open>
  The token array \<open>userCmds\<close> of \<open>shellLoop\<close> (src/smallsh.c) as memory: it is
  \<open>calloc\<close>'ed once with \<open>MAXARGS\<close> NULL slots (line 619); \<open>tokenizeInput\<close> stores
  each token in a fresh 50-byte block (lines 64--69); \<open>checkIfBG\<close> frees the block of a
  final \<open>&\<close> and NULLs its slot (lines 206--207); after each command the loop frees
  every non-NULL slot below \<open>cmdCount\<close> and NULLs it (lines 703--712); the debug printer
  \<open>printInput\<close> (lines 83--89) reads the slots. Slots hold block numbers, the heap maps a
  live block to its string, and freeing a block that is not live is the fault
  \<open>Double_free\<close>.
\<close>

section \<open>Memory of the array\<close>

record cmd_mem =
  slots :: "nat option list"   \<comment> \<open>\<open>userCmds[0 .. MAXARGS-1]\<close>\<close>
  heap :: "nat \<rightharpoonup> string"     \<comment> \<open>the live token blocks\<close>
  next_blk :: nat

text \<open>Line 619: \<open>calloc(MAXARGS, sizeof(char*))\<close>.\<close>

definition calloc_cmds :: cmd_mem where
  "calloc_cmds = \<lparr>slots = replicate MAXARGS None, heap = Map.empty, next_blk = 0\<rparr>"

text \<open>Lines 64--69: \<open>userCmds[*cmdCount] = calloc(50, 1); strcpy(..); (*cmdCount)++\<close>.\<close>

fun store_tokens :: "nat \<Rightarrow> string list \<Rightarrow> cmd_mem \<Rightarrow> cmd_mem" where
  "store_tokens i [] m = m"
| "store_tokens i (t # ts) m =
     store_tokens (Suc i) ts
       (m\<lparr>slots := (slots m)[i := Some (next_blk m)], heap := (heap m)(next_blk m \<mapsto> t),
          next_blk := Suc (next_blk m)\<rparr>)"

definition free_blk :: "nat \<Rightarrow> cmd_mem \<Rightarrow> fault + cmd_mem" where
  "free_blk b m = (if b \<in> dom (heap m) then Inr (m\<lparr>heap := (heap m)(b := None)\<rparr>) else Inl Double_free)"

text \<open>Lines 203--207: the final slot is freed and NULLed when it holds \<open>"&"\<close>.\<close>

definition bg_free :: "nat \<Rightarrow> cmd_mem \<Rightarrow> fault + cmd_mem" where
  "bg_free n m =
     (case slots m ! (n - 1) of
        None \<Rightarrow> Inl Null_deref
      | Some b \<Rightarrow>
          if heap m b = Some ''&'' then
            (case free_blk b m of
               Inl f \<Rightarrow> Inl f
             | Inr m1 \<Rightarrow> Inr (m1\<lparr>slots := (slots m1)[n - 1 := None]\<rparr>))
          else Inr m)"

text \<open>Lines 703--712: \<open>for (i = 0; i < cmdCount; i++) if (userCmds[i]) { free(..); userCmds[i] = NULL; }\<close>.\<close>

function cleanup :: "nat \<Rightarrow> nat \<Rightarrow> cmd_mem \<Rightarrow> fault + cmd_mem" where
  "cleanup i n m =
     (if i < n then
        (case slots m ! i of
           None \<Rightarrow> cleanup (Suc i) n m
         | Some b \<Rightarrow>
             (case free_blk b m of
                Inl f \<Rightarrow> Inl f
              | Inr m1 \<Rightarrow> cleanup (Suc i) n (m1\<lparr>slots := (slots m1)[i := None]\<rparr>)))
      else Inr m)"
  by pat_completeness auto
termination
  by (relation "measure (\<lambda>(i, n, m). n - i)") auto

declare cleanup.simps [simp del]

text \<open>
  The memory effect of one iteration on a line of tokens \<open>toks\<close> (after expansion, which
  rewrites the blocks in place): store them, let \<open>checkIfBG\<close> free a final \<open>&\<close> when the
  command is external, and clean up with \<open>cmdCount = length toks\<close>.
\<close>

definition line_memory :: "string list \<Rightarrow> bool \<Rightarrow> cmd_mem \<Rightarrow> fault + cmd_mem" where
  "line_memory toks external m =
     (let m1 = store_tokens 0 toks m in
      case (if external then bg_free (length toks) m1 else Inr m1) of
        Inl f \<Rightarrow> Inl f
      | Inr m2 \<Rightarrow> cleanup 0 (length toks) m2)"

text \<open>
  Lines 83--89: \<open>printInput\<close> prints a header, then \<open>printf("%s\n", userCmds[i])\<close> for each
  \<open>i < cmdCount\<close>. A NULL slot or a freed block is undefined behaviour; a count past the
  512 slots reads outside the array. (Its two calls in \<open>shellLoop\<close> are commented out.)
\<close>

fun print_slots :: "cmd_mem \<Rightarrow> nat option list \<Rightarrow> fault + string" where
  "print_slots m [] = Inr []"
| "print_slots m (None # xs) = Inl Null_deref"
| "print_slots m (Some b # xs) =
     (case heap m b of
        None \<Rightarrow> Inl Use_after_free
      | Some t \<Rightarrow> (case print_slots m xs of Inl f \<Rightarrow> Inl f | Inr out \<Rightarrow> Inr (t @ [NL] @ out)))"

definition printInput :: "cmd_mem \<Rightarrow> nat \<Rightarrow> fault + string" where
  "printInput m cmdCount =
     (if length (slots m) < cmdCount then Inl Argv_overflow
      else
        (case print_slots m (take cmdCount (slots m)) of
           Inl f \<Rightarrow> Inl f
         | Inr out \<Rightarrow> Inr (''tokenized input is:'' @ [NL] @ out)))"

text \<open>What the rest of the code reads through \<open>userCmds\<close>: the string of each non-NULL slot.\<close>

definition cmd_view :: "cmd_mem \<Rightarrow> string option list" where
  "cmd_view m = map (\<lambda>x. case x of None \<Rightarrow> None | Some b \<Rightarrow> heap m b) (slots m)"

definition live_blocks :: "cmd_mem \<Rightarrow> nat \<Rightarrow> nat \<Rightarrow> nat list" where
  "live_blocks m i n = concat (map (\<lambda>j. case slots m ! j of None \<Rightarrow> [] | Some b \<Rightarrow> [b]) [i..<n])"

definition mem_clean :: "cmd_mem \<Rightarrow> bool" where
  "mem_clean m \<longleftrightarrow> slots m = replicate MAXARGS None \<and> heap m = Map.empty"

text \<open>
  The typing of the array: a non-NULL slot points to a live block, allocated before the
  counter, that no other slot points to.
\<close>

definition ptrs_ok :: "nat option list \<Rightarrow> (nat \<rightharpoonup> string) \<Rightarrow> nat \<Rightarrow> bool" where
  "ptrs_ok xs h k \<longleftrightarrow>
     (\<forall>i<length xs. case xs ! i of
        None \<Rightarrow> True
      | Some b \<Rightarrow> h b \<noteq> None \<and> b < k \<and> (\<forall>j<length xs. j \<noteq> i \<longrightarrow> xs ! j \<noteq> Some b))"

definition slots_ok :: "cmd_mem \<Rightarrow> bool" where
  "slots_ok m \<longleftrightarrow> length (slots m) = MAXARGS \<and> ptrs_ok (slots m) (heap m) (next_blk m)"

section \<open>Properties\<close>

lemma next_blk_store_tokens [simp]: "next_blk (store_tokens i ts m) = next_blk m + length ts"
  by (induction ts arbitrary: i m) simp_all

lemma heap_store_tokens:
  "heap (store_tokens i ts m) =
     (\<lambda>b. if next_blk m \<le> b \<and> b < next_blk m + length ts then Some (ts ! (b - next_blk m)) else heap m b)"
proof (induction ts arbitrary: i m)
  case Nil
  then show ?case by (auto simp: fun_eq_iff)
next
  case (Cons t ts)
  then show ?case by (auto simp: fun_eq_iff nth_Cons' le_Suc_eq)
qed

lemma slots_store_tokens:
  "i + length ts \<le> length (slots m) \<Longrightarrow>
     slots (store_tokens i ts m) =
       take i (slots m) @ map Some [next_blk m..<next_blk m + length ts] @ drop (i + length ts) (slots m)"
proof (induction ts arbitrary: i m)
  case Nil
  then show ?case by simp
next
  case (Cons t ts)
  let ?m = "m\<lparr>slots := (slots m)[i := Some (next_blk m)], heap := (heap m)(next_blk m \<mapsto> t),
              next_blk := Suc (next_blk m)\<rparr>"
  have len: "Suc i + length ts \<le> length (slots ?m)" using Cons.prems by simp
  have "slots (store_tokens i (t # ts) m) =
          take (Suc i) (slots ?m) @ map Some [Suc (next_blk m)..<Suc (next_blk m) + length ts]
          @ drop (Suc i + length ts) (slots ?m)"
    using Cons.IH [OF len] by simp
  moreover have "take (Suc i) (slots ?m) = take i (slots m) @ [Some (next_blk m)]"
    using Cons.prems by (simp add: take_Suc_conv_app_nth)
  moreover have "[next_blk m..<next_blk m + length (t # ts)] = next_blk m # [Suc (next_blk m)..<Suc (next_blk m) + length ts]"
    by (subst upt_rec) simp
  ultimately show ?case by simp
qed

lemma live_blocks_Cons:
  "i < n \<Longrightarrow> live_blocks m i n = (case slots m ! i of None \<Rightarrow> [] | Some b \<Rightarrow> [b]) @ live_blocks m (Suc i) n"
  by (simp add: live_blocks_def upt_conv_Cons)

lemma live_blocks_cong:
  "(\<And>j. i \<le> j \<Longrightarrow> j < n \<Longrightarrow> slots m' ! j = slots m ! j) \<Longrightarrow> live_blocks m' i n = live_blocks m i n"
  unfolding live_blocks_def by (rule arg_cong [where f = concat]) (rule map_cong; simp)

lemma take_Suc_None:
  assumes "i < n" "i < length xs" "xs ! i = None"
  shows "take (Suc i) xs @ replicate (n - Suc i) None @ ys = take i xs @ replicate (n - i) None @ ys"
proof -
  have "n - i = Suc (n - Suc i)" using assms(1) by simp
  then show ?thesis using assms(2,3) by (simp add: take_Suc_conv_app_nth)
qed

lemma cleanup_frees:
  assumes "i \<le> n" "n \<le> length (slots m)" "distinct (live_blocks m i n)" "set (live_blocks m i n) = dom (heap m)"
  shows "cleanup i n m = Inr (m\<lparr>slots := take i (slots m) @ replicate (n - i) None @ drop n (slots m), heap := Map.empty\<rparr>)"
  using assms
proof (induction i n m rule: cleanup.induct)
  case (1 i n m)
  show ?case
  proof (cases "i < n")
    case False
    then have "i = n" using "1.prems"(1) by simp
    then have "dom (heap m) = {}" using "1.prems"(4) by (simp add: live_blocks_def)
    then have "heap m = Map.empty" by simp
    then show ?thesis using \<open>i = n\<close> by (simp add: cleanup.simps [of n n m])
  next
    case True
    show ?thesis
    proof (cases "slots m ! i")
      case None
      then have l: "live_blocks m i n = live_blocks m (Suc i) n" using True by (simp add: live_blocks_Cons)
      have "cleanup i n m = cleanup (Suc i) n m" using True None by (simp add: cleanup.simps [of i n m])
      also have "\<dots> = Inr (m\<lparr>slots := take (Suc i) (slots m) @ replicate (n - Suc i) None @ drop n (slots m),
                           heap := Map.empty\<rparr>)"
        using "1.IH"(1) [OF True None] True "1.prems" l by simp
      also have "take (Suc i) (slots m) @ replicate (n - Suc i) None @ drop n (slots m) =
                 take i (slots m) @ replicate (n - i) None @ drop n (slots m)"
        using True None "1.prems"(2) by (intro take_Suc_None) simp_all
      finally show ?thesis .
    next
      case (Some b)
      have l: "live_blocks m i n = b # live_blocks m (Suc i) n" using True Some by (simp add: live_blocks_Cons)
      have bdom: "b \<in> dom (heap m)" using "1.prems"(4) l by auto
      let ?m1 = "m\<lparr>heap := (heap m)(b := None)\<rparr>"
      let ?m2 = "?m1\<lparr>slots := (slots ?m1)[i := None]\<rparr>"
      have f: "free_blk b m = Inr ?m1" using bdom by (simp add: free_blk_def)
      have l2: "live_blocks ?m2 (Suc i) n = live_blocks m (Suc i) n" by (rule live_blocks_cong) simp
      have d2: "distinct (live_blocks ?m2 (Suc i) n)" and b2: "b \<notin> set (live_blocks m (Suc i) n)"
        using "1.prems"(3) l l2 by simp_all
      have s2: "set (live_blocks ?m2 (Suc i) n) = dom (heap ?m2)" using "1.prems"(4) l l2 b2 by auto
      have "cleanup i n m = cleanup (Suc i) n ?m2" using True Some f by (simp add: cleanup.simps [of i n m])
      also have "\<dots> = Inr (?m2\<lparr>slots := take (Suc i) (slots ?m2) @ replicate (n - Suc i) None @ drop n (slots ?m2),
                           heap := Map.empty\<rparr>)"
      proof -
        have le1: "Suc i \<le> n" and le2: "n \<le> length (slots ?m2)" using True "1.prems"(2) by simp_all
        show ?thesis by (rule "1.IH"(2) [OF True Some f le1 le2 d2 s2])
      qed
      also have "take (Suc i) (slots ?m2) @ replicate (n - Suc i) None @ drop n (slots ?m2) =
                 take i (slots ?m2) @ replicate (n - i) None @ drop n (slots ?m2)"
        using True "1.prems"(2) by (intro take_Suc_None) simp_all
      finally show ?thesis using True by simp
    qed
  qed
qed

lemma live_blocks_eq:
  assumes "n \<le> length (slots m)" "\<And>j. j < n \<Longrightarrow> slots m ! j = g j"
  shows "live_blocks m 0 n = concat (map (\<lambda>j. case g j of None \<Rightarrow> [] | Some b \<Rightarrow> [b]) [0..<n])"
  unfolding live_blocks_def using assms(2) by (intro arg_cong [where f = concat] map_cong) simp_all

lemma map_plus_upt: "map ((+) k) [0..<n] = [k..<k + n]"
  by (induction n) simp_all

lemma stored_state:
  assumes "mem_clean m" "length toks \<le> MAXARGS"
  shows "slots (store_tokens 0 toks m) = map Some [next_blk m..<next_blk m + length toks] @ replicate (MAXARGS - length toks) None"
    and "heap (store_tokens 0 toks m) =
           (\<lambda>b. if next_blk m \<le> b \<and> b < next_blk m + length toks then Some (toks ! (b - next_blk m)) else None)"
proof -
  have c: "slots m = replicate MAXARGS None" "heap m = Map.empty" using assms(1) by (simp_all add: mem_clean_def)
  show "slots (store_tokens 0 toks m) = map Some [next_blk m..<next_blk m + length toks] @ replicate (MAXARGS - length toks) None"
    using slots_store_tokens [of 0 toks m] c(1) assms(2) by simp
  show "heap (store_tokens 0 toks m) =
           (\<lambda>b. if next_blk m \<le> b \<and> b < next_blk m + length toks then Some (toks ! (b - next_blk m)) else None)"
    unfolding heap_store_tokens c(2) by simp
qed

lemma cleanup_clean:
  assumes "length (slots m) = MAXARGS" "n \<le> MAXARGS" "\<forall>j\<in>{n..<MAXARGS}. slots m ! j = None"
    "distinct (live_blocks m 0 n)" "set (live_blocks m 0 n) = dom (heap m)"
  shows "cleanup 0 n m = Inr (m\<lparr>slots := replicate MAXARGS None, heap := Map.empty\<rparr>)"
proof -
  have "replicate n None @ drop n (slots m) = replicate MAXARGS None"
  proof (rule nth_equalityI)
    show "length (replicate n None @ drop n (slots m)) = length (replicate MAXARGS (None :: nat option))"
      using assms(1,2) by simp
    fix j assume "j < length (replicate n None @ drop n (slots m))"
    then show "(replicate n None @ drop n (slots m)) ! j = replicate MAXARGS None ! j"
      using assms(1-3) by (auto simp: nth_append)
  qed
  then show ?thesis using cleanup_frees [of 0 n m] assms by simp
qed

lemma stored_slot:
  assumes "mem_clean m" "length toks \<le> MAXARGS" "j < MAXARGS"
  shows "slots (store_tokens 0 toks m) ! j = (if j < length toks then Some (next_blk m + j) else None)"
  using stored_state(1) [OF assms(1,2)] assms(2,3) by (auto simp: nth_append)

lemma stored_live:
  assumes "mem_clean m" "length toks \<le> MAXARGS"
  shows "live_blocks (store_tokens 0 toks m) 0 (length toks) = [next_blk m..<next_blk m + length toks]"
proof -
  have "live_blocks (store_tokens 0 toks m) 0 (length toks) =
          concat (map (\<lambda>j. case Some (next_blk m + j) of None \<Rightarrow> [] | Some b \<Rightarrow> [b]) [0..<length toks])"
    using assms stored_slot [OF assms] stored_state(1) [OF assms] by (intro live_blocks_eq) simp_all
  then show ?thesis by (simp add: map_plus_upt)
qed

lemma stored_dom:
  assumes "mem_clean m" "length toks \<le> MAXARGS"
  shows "dom (heap (store_tokens 0 toks m)) = {next_blk m..<next_blk m + length toks}"
  using stored_state(2) [OF assms] by (auto simp: dom_def split: if_splits)

lemma stored_length: "mem_clean m \<Longrightarrow> length toks \<le> MAXARGS \<Longrightarrow> length (slots (store_tokens 0 toks m)) = MAXARGS"
  using stored_state(1) by simp

lemma stored_bg_free:
  assumes "mem_clean m" "toks \<noteq> []" "length toks \<le> MAXARGS"
  shows "bg_free (length toks) (store_tokens 0 toks m) =
           Inr (if last toks = ''&'' then
                  (store_tokens 0 toks m)\<lparr>heap := (heap (store_tokens 0 toks m))(next_blk m + (length toks - 1) := None),
                     slots := (slots (store_tokens 0 toks m))[length toks - 1 := None]\<rparr>
                else store_tokens 0 toks m)"
proof -
  let ?m1 = "store_tokens 0 toks m" and ?n = "length toks"
  have "?n - 1 < MAXARGS" using assms(3) by (simp add: MAXARGS_def)
  moreover have "?n - 1 < ?n" using assms(2) by simp
  ultimately have sl: "slots ?m1 ! (?n - 1) = Some (next_blk m + (?n - 1))"
    using stored_slot [OF assms(1,3), of "?n - 1"] by simp
  have hp: "heap ?m1 (next_blk m + (?n - 1)) = Some (last toks)"
    using stored_state(2) [OF assms(1,3)] assms(2) by (simp add: last_conv_nth)
  show ?thesis using sl hp by (simp add: bg_free_def free_blk_def domIff)
qed

lemma after_bg_free:
  assumes "mem_clean m" "toks \<noteq> []" "length toks \<le> MAXARGS"
  defines "m2 \<equiv> (store_tokens 0 toks m)\<lparr>heap := (heap (store_tokens 0 toks m))(next_blk m + (length toks - 1) := None),
                     slots := (slots (store_tokens 0 toks m))[length toks - 1 := None]\<rparr>"
  shows "live_blocks m2 0 (length toks) = [next_blk m..<next_blk m + (length toks - 1)]"
    and "dom (heap m2) = {next_blk m..<next_blk m + (length toks - 1)}"
    and "length (slots m2) = MAXARGS" and "\<forall>j\<in>{length toks..<MAXARGS}. slots m2 ! j = None"
proof -
  let ?n = "length toks" and ?k = "next_blk m"
  have len: "length (slots m2) = MAXARGS" using stored_length [OF assms(1,3)] by (simp add: m2_def)
  then show "length (slots m2) = MAXARGS" .
  have sl: "\<And>j. j < MAXARGS \<Longrightarrow> slots m2 ! j = (if j < ?n - 1 then Some (?k + j) else None)"
    using stored_slot [OF assms(1,3)] stored_length [OF assms(1,3)] assms(2) by (auto simp: m2_def nth_list_update)
  then show "\<forall>j\<in>{?n..<MAXARGS}. slots m2 ! j = None" by auto
  have "live_blocks m2 0 ?n = concat (map (\<lambda>j. case (if j < ?n - 1 then Some (?k + j) else None) of
                                          None \<Rightarrow> [] | Some b \<Rightarrow> [b]) [0..<?n])"
    using sl assms(3) len by (intro live_blocks_eq) simp_all
  also have "[0..<?n] = [0..<?n - 1] @ [?n - 1]" using assms(2) by (cases ?n) simp_all
  finally have l: "live_blocks m2 0 ?n = concat (map (\<lambda>j. case (if j < ?n - 1 then Some (?k + j) else None) of
                                          None \<Rightarrow> [] | Some b \<Rightarrow> [b]) [0..<?n - 1])" by simp
  have "map (\<lambda>j. case (if j < ?n - 1 then Some (?k + j) else None) of None \<Rightarrow> [] | Some b \<Rightarrow> [b]) [0..<?n - 1]
          = map (\<lambda>j. [?k + j]) [0..<?n - 1]" (is "?lhs = _") by (rule map_cong) auto
  then show "live_blocks m2 0 ?n = [?k..<?k + (?n - 1)]" unfolding l by (simp only:) (simp add: map_plus_upt)
  show "dom (heap m2) = {?k..<?k + (?n - 1)}"
    using stored_dom [OF assms(1,3)] assms(2) by (auto simp: m2_def)
qed

lemma line_memory_cleans:
  assumes "mem_clean m" "toks \<noteq> []" "length toks \<le> MAXARGS"
  shows "\<exists>m'. line_memory toks external m = Inr m' \<and> mem_clean m'"
proof -
  let ?m1 = "store_tokens 0 toks m" and ?n = "length toks" and ?k = "next_blk m"
  have c1: "cleanup 0 ?n ?m1 = Inr (?m1\<lparr>slots := replicate MAXARGS None, heap := Map.empty\<rparr>)"
  proof (rule cleanup_clean)
    show "length (slots ?m1) = MAXARGS" by (rule stored_length [OF assms(1,3)])
    show "\<forall>j\<in>{?n..<MAXARGS}. slots ?m1 ! j = None" using stored_slot [OF assms(1,3)] by simp
  qed (use assms stored_live [OF assms(1,3)] stored_dom [OF assms(1,3)] in simp_all)
  show ?thesis
  proof (cases "external \<and> last toks = ''&''")
    case True
    let ?m2 = "?m1\<lparr>heap := (heap ?m1)(?k + (?n - 1) := None), slots := (slots ?m1)[?n - 1 := None]\<rparr>"
    note a = after_bg_free [OF assms]
    have "cleanup 0 ?n ?m2 = Inr (?m2\<lparr>slots := replicate MAXARGS None, heap := Map.empty\<rparr>)"
      by (rule cleanup_clean) (use a assms in simp_all)
    then show ?thesis using True stored_bg_free [OF assms] by (simp add: line_memory_def mem_clean_def)
  next
    case False
    then show ?thesis using c1 stored_bg_free [OF assms]
      by (cases external) (simp_all add: line_memory_def mem_clean_def)
  qed
qed

text \<open>C27: Whatever line is run, an iteration leaves the token memory as it found it: starting
  from an all-NULL array and no live token block, storing the tokens, the \<open>checkIfBG\<close> free of a
  final \<open>&\<close> and the cleanup loop never free a block twice, free every block, and NULL every
  slot.\<close>

theorem line_memory_clean:
  assumes "mem_clean m" "toks \<noteq> []" "length toks \<le> MAXARGS"
  shows "\<exists>m'. line_memory toks external m = Inr m' \<and> mem_clean m'"
  using assms by (rule line_memory_cleans)

lemma cmd_view_stored:
  assumes "mem_clean m" "length toks \<le> MAXARGS"
  shows "cmd_view (store_tokens 0 toks m) = map Some toks @ replicate (MAXARGS - length toks) None"
proof (rule nth_equalityI)
  show "length (cmd_view (store_tokens 0 toks m)) = length (map Some toks @ replicate (MAXARGS - length toks) None)"
    using stored_length [OF assms] assms(2) by (simp add: cmd_view_def)
  fix j assume "j < length (cmd_view (store_tokens 0 toks m))"
  then have j: "j < MAXARGS" using stored_length [OF assms] by (simp add: cmd_view_def)
  show "cmd_view (store_tokens 0 toks m) ! j = (map Some toks @ replicate (MAXARGS - length toks) None) ! j"
    using j stored_slot [OF assms j] stored_state(2) [OF assms] stored_length [OF assms]
    by (simp add: cmd_view_def nth_append)
qed

lemma cmd_view_bg_freed:
  assumes "mem_clean m" "toks \<noteq> []" "length toks \<le> MAXARGS"
  shows "cmd_view ((store_tokens 0 toks m)\<lparr>heap := (heap (store_tokens 0 toks m))(next_blk m + (length toks - 1) := None),
                     slots := (slots (store_tokens 0 toks m))[length toks - 1 := None]\<rparr>) =
         (cmd_view (store_tokens 0 toks m))[length toks - 1 := None]"
proof (rule nth_equalityI)
  let ?m1 = "store_tokens 0 toks m"
  show "length (cmd_view (?m1\<lparr>heap := (heap ?m1)(next_blk m + (length toks - 1) := None),
                     slots := (slots ?m1)[length toks - 1 := None]\<rparr>)) = length ((cmd_view ?m1)[length toks - 1 := None])"
    by (simp add: cmd_view_def)
  fix j assume "j < length (cmd_view (?m1\<lparr>heap := (heap ?m1)(next_blk m + (length toks - 1) := None),
                     slots := (slots ?m1)[length toks - 1 := None]\<rparr>))"
  then have j: "j < MAXARGS" using stored_length [OF assms(1,3)] by (simp add: cmd_view_def)
  show "cmd_view (?m1\<lparr>heap := (heap ?m1)(next_blk m + (length toks - 1) := None),
                     slots := (slots ?m1)[length toks - 1 := None]\<rparr>) ! j = (cmd_view ?m1)[length toks - 1 := None] ! j"
  proof (cases "j = length toks - 1")
    case True
    then show ?thesis using j stored_length [OF assms(1,3)] by (simp add: cmd_view_def)
  next
    case False
    then show ?thesis using j stored_slot [OF assms(1,3) j] stored_length [OF assms(1,3)]
      by (simp add: cmd_view_def) linarith
  qed
qed

text \<open>C28: The array the launcher reads through \<open>userCmds\<close> after \<open>checkIfBG\<close> is exactly the slot
  list the model passes on (\<open>checkIfBG (map Some toks)\<close>), followed by NULL slots: the model's
  reading of a slot past the tokens as NULL is what the \<open>calloc\<close>'ed, cleaned array gives.\<close>

theorem cmd_view_checkIfBG:
  assumes "mem_clean m" "toks \<noteq> []" "length toks \<le> MAXARGS" "checkIfBG (map Some toks) = Inr (cmds, bg)"
  shows "\<exists>m2. bg_free (length toks) (store_tokens 0 toks m) = Inr m2
            \<and> cmd_view m2 = cmds @ replicate (MAXARGS - length toks) None"
proof (cases "last toks = ''&''")
  case True
  then have c: "cmds = map Some (butlast toks) @ [None]" using checkIfBG_tokens [OF assms(2)] assms(4) by simp
  have "(map Some toks @ replicate (MAXARGS - length toks) None)[length toks - 1 := None] =
          map Some (butlast toks) @ [None] @ replicate (MAXARGS - length toks) None"
    using assms(2) update_last [of "map Some toks" None] by (simp add: list_update_append map_butlast)
  then show ?thesis
    using True c stored_bg_free [OF assms(1-3)] cmd_view_bg_freed [OF assms(1-3)] cmd_view_stored [OF assms(1,3)]
    by simp
next
  case False
  then have c: "cmds = map Some toks" using checkIfBG_tokens [OF assms(2)] assms(4) by simp
  then show ?thesis using False stored_bg_free [OF assms(1-3)] cmd_view_stored [OF assms(1,3)] by simp
qed

subsection \<open>Slot typing\<close>

lemma ptrs_ok_iff:
  "ptrs_ok xs h k \<longleftrightarrow>
     (\<forall>i b. i < length xs \<longrightarrow> xs ! i = Some b \<longrightarrow>
        h b \<noteq> None \<and> b < k \<and> (\<forall>j<length xs. xs ! j = Some b \<longrightarrow> j = i))"
  unfolding ptrs_ok_def by (auto split: option.splits)

lemma ptrs_ok_alloc:
  assumes ok: "ptrs_ok xs h k" and i: "i < length xs"
  shows "ptrs_ok (xs[i := Some k]) (h(k \<mapsto> t)) (Suc k)"
  unfolding ptrs_ok_iff
proof (intro allI impI)
  fix j b assume j: "j < length (xs[i := Some k])" and s: "xs[i := Some k] ! j = Some b"
  have old: "xs ! j' = Some c \<Longrightarrow> j' < length xs \<Longrightarrow>
               h c \<noteq> None \<and> c < k \<and> (\<forall>j''<length xs. xs ! j'' = Some c \<longrightarrow> j'' = j')" for j' c
    using ok unfolding ptrs_ok_iff by blast
  show "(h(k \<mapsto> t)) b \<noteq> None \<and> b < Suc k \<and>
        (\<forall>j'<length (xs[i := Some k]). xs[i := Some k] ! j' = Some b \<longrightarrow> j' = j)"
  proof (cases "j = i")
    case True
    then have "b = k" using s i by simp
    moreover have "xs[i := Some k] ! j' = Some k \<Longrightarrow> j' < length xs \<Longrightarrow> j' = i" for j'
      using old [of j' k] by (cases "j' = i") simp_all
    ultimately show ?thesis using True by simp
  next
    case False
    then have xb: "xs ! j = Some b" using s by simp
    then have b: "h b \<noteq> None" "b < k" using old [OF xb] j by simp_all
    have "xs[i := Some k] ! j' = Some b \<Longrightarrow> j' < length xs \<Longrightarrow> j' = j" for j'
      using old [OF xb] j b(2) by (cases "j' = i") simp_all
    then show ?thesis using b by simp
  qed
qed

lemma ptrs_ok_free:
  assumes ok: "ptrs_ok xs h k" and i: "i < length xs" and xi: "xs ! i = Some b"
  shows "ptrs_ok (xs[i := None]) (h(b := None)) k"
  unfolding ptrs_ok_iff
proof (intro allI impI)
  fix j c assume j: "j < length (xs[i := None])" and s: "xs[i := None] ! j = Some c"
  have old: "xs ! j' = Some c' \<Longrightarrow> j' < length xs \<Longrightarrow>
               h c' \<noteq> None \<and> c' < k \<and> (\<forall>j''<length xs. xs ! j'' = Some c' \<longrightarrow> j'' = j')" for j' c'
    using ok unfolding ptrs_ok_iff by blast
  have ji: "j \<noteq> i" using s i by (cases "j = i") simp_all
  then have xc: "xs ! j = Some c" using s by simp
  have "c \<noteq> b" using old [OF xc] j i xi ji by auto
  moreover have "xs[i := None] ! j' = Some c \<Longrightarrow> j' < length xs \<Longrightarrow> j' = j" for j'
    using old [OF xc] j by (cases "j' = i") simp_all
  ultimately show "(h(b := None)) c \<noteq> None \<and> c < k \<and>
        (\<forall>j'<length (xs[i := None]). xs[i := None] ! j' = Some c \<longrightarrow> j' = j)"
    using old [OF xc] j by simp
qed

lemma slots_ok_calloc: "slots_ok calloc_cmds"
  by (simp add: slots_ok_def ptrs_ok_def calloc_cmds_def)

lemma slots_ok_store:
  "slots_ok m \<Longrightarrow> i + length ts \<le> MAXARGS \<Longrightarrow> slots_ok (store_tokens i ts m)"
proof (induction ts arbitrary: i m)
  case Nil
  then show ?case by simp
next
  case (Cons t ts)
  have "i < length (slots m)" using Cons.prems by (simp add: slots_ok_def)
  then have "slots_ok (m\<lparr>slots := (slots m)[i := Some (next_blk m)], heap := (heap m)(next_blk m \<mapsto> t),
                           next_blk := Suc (next_blk m)\<rparr>)"
    using Cons.prems(1) ptrs_ok_alloc by (simp add: slots_ok_def)
  then show ?case using Cons.IH Cons.prems(2) by simp
qed

lemma slots_ok_free:
  assumes "slots_ok m" "i < MAXARGS" "slots m ! i = Some b"
  shows "free_blk b m = Inr (m\<lparr>heap := (heap m)(b := None)\<rparr>)"
    and "slots_ok (m\<lparr>heap := (heap m)(b := None), slots := (slots m)[i := None]\<rparr>)"
proof -
  have ok: "ptrs_ok (slots m) (heap m) (next_blk m)" and len: "length (slots m) = MAXARGS"
    using assms(1) by (simp_all add: slots_ok_def)
  then show "free_blk b m = Inr (m\<lparr>heap := (heap m)(b := None)\<rparr>)"
    using assms(2,3) unfolding ptrs_ok_iff free_blk_def by auto
  show "slots_ok (m\<lparr>heap := (heap m)(b := None), slots := (slots m)[i := None]\<rparr>)"
    using ptrs_ok_free [OF ok _ assms(3)] assms(2) len by (simp add: slots_ok_def)
qed

lemma slots_ok_cleanup:
  "slots_ok m \<Longrightarrow> n \<le> MAXARGS \<Longrightarrow> \<exists>m'. cleanup i n m = Inr m' \<and> slots_ok m'"
proof (induction i n m rule: cleanup.induct)
  case (1 i n m)
  show ?case
  proof (cases "i < n")
    case True
    then have i: "i < MAXARGS" using "1.prems"(2) by simp
    show ?thesis
    proof (cases "slots m ! i")
      case None
      then show ?thesis using True "1.IH"(1) [OF True None "1.prems"] by (simp add: cleanup.simps)
    next
      case (Some b)
      note f = slots_ok_free [OF "1.prems"(1) i Some]
      have "\<exists>m'. cleanup (Suc i) n (m\<lparr>heap := (heap m)(b := None), slots := (slots m)[i := None]\<rparr>) = Inr m'
                  \<and> slots_ok m'"
        using "1.IH"(2) [OF True Some f(1)] f(2) "1.prems"(2) by simp
      then show ?thesis using True Some f(1) by (simp add: cleanup.simps)
    qed
  next
    case False
    then show ?thesis using "1.prems"(1) by (simp add: cleanup.simps)
  qed
qed

lemma slots_ok_bg_free:
  assumes "slots_ok m" "0 < n" "n \<le> MAXARGS" "slots m ! (n - 1) \<noteq> None"
  shows "\<exists>m'. bg_free n m = Inr m' \<and> slots_ok m'"
proof -
  obtain b where b: "slots m ! (n - 1) = Some b" using assms(4) by auto
  note f = slots_ok_free [OF assms(1) _ b]
  show ?thesis using assms(1-3) b f by (simp add: bg_free_def)
qed

lemma print_slots_blocks:
  "\<forall>j<length ts. heap m (k + j) = Some (ts ! j) \<Longrightarrow>
     print_slots m (map Some [k..<k + length ts]) = Inr (concat (map (\<lambda>t. t @ [NL]) ts))"
proof (induction ts arbitrary: k)
  case Nil
  then show ?case by simp
next
  case (Cons t ts)
  have h: "heap m k = Some t" using Cons.prems by (metis add_0_right length_Cons nth_Cons_0 zero_less_Suc)
  have "\<forall>j<length ts. heap m (Suc k + j) = Some (ts ! j)" using Cons.prems by auto
  then have "print_slots m (map Some [Suc k..<Suc k + length ts]) = Inr (concat (map (\<lambda>t. t @ [NL]) ts))"
    by (rule Cons.IH)
  moreover have "[k..<k + length (t # ts)] = k # [Suc k..<Suc k + length ts]" by (simp add: upt_rec)
  ultimately show ?case using h by simp
qed

lemma print_slots_append_None:
  "\<forall>x\<in>set xs. \<exists>b t. x = Some b \<and> heap m b = Some t \<Longrightarrow> print_slots m (xs @ None # ys) = Inl Null_deref"
  by (induction xs) auto

text \<open>C32: Right after \<open>tokenizeInput\<close> the debug printer \<open>printInput\<close> prints the header
  and each token on a line of its own; once \<open>checkIfBG\<close> has freed and NULLed a final \<open>&\<close>,
  the same call, with the unchanged \<open>cmdCount\<close>, passes NULL to \<open>printf("%s")\<close>.\<close>

theorem printInput_tokens:
  assumes "mem_clean m" "length toks \<le> MAXARGS"
  shows "printInput (store_tokens 0 toks m) (length toks) =
           Inr (''tokenized input is:'' @ [NL] @ concat (map (\<lambda>t. t @ [NL]) toks))
         \<and> (toks \<noteq> [] \<longrightarrow> last toks = ''&'' \<longrightarrow> bg_free (length toks) (store_tokens 0 toks m) = Inr m2 \<longrightarrow>
            printInput m2 (length toks) = Inl Null_deref)"
proof (intro conjI impI)
  let ?m1 = "store_tokens 0 toks m" and ?k = "next_blk m" and ?n = "length toks"
  have t: "take ?n (slots ?m1) = map Some [?k..<?k + ?n]" using stored_state(1) [OF assms] by simp
  have "\<forall>j<?n. heap ?m1 (?k + j) = Some (toks ! j)" using stored_state(2) [OF assms] by simp
  then show "printInput ?m1 ?n = Inr (''tokenized input is:'' @ [NL] @ concat (map (\<lambda>t. t @ [NL]) toks))"
    using t print_slots_blocks stored_length [OF assms] assms(2) by (simp add: printInput_def)
  assume ne: "toks \<noteq> []" and l: "last toks = ''&''" and b: "bg_free ?n ?m1 = Inr m2"
  show "printInput m2 ?n = Inl Null_deref"
  proof -
    have m2: "m2 = ?m1\<lparr>heap := (heap ?m1)(?k + (?n - 1) := None), slots := (slots ?m1)[?n - 1 := None]\<rparr>"
      using b l stored_bg_free [OF assms(1) ne assms(2)] by simp
    have "take ?n (slots m2) = map Some [?k..<?k + (?n - 1)] @ None # []"
    proof -
      have "[?k..<?k + ?n] = [?k..<?k + (?n - 1)] @ [?k + (?n - 1)]" using ne by (cases ?n) simp_all
      then show ?thesis using t ne m2 stored_length [OF assms] assms(2)
        by (simp add: take_update_swap list_update_append del: upt_Suc)
    qed
    moreover have "\<forall>x\<in>set (map Some [?k..<?k + (?n - 1)]). \<exists>b t. x = Some b \<and> heap m2 b = Some t"
      using stored_state(2) [OF assms] m2 by auto
    ultimately show ?thesis using m2 stored_length [OF assms] assms(2) print_slots_append_None
      by (simp add: printInput_def)
  qed
qed

text \<open>C29: The token array is well typed: every non-NULL slot points to a live block of its
  own, below the allocation counter. The \<open>calloc\<close>'ed array is, storing tokens within the 512
  slots keeps it so, and on a well-typed array the \<open>checkIfBG\<close> free of a non-NULL last
  slot and the cleanup loop never free a block twice and keep it well typed.\<close>

theorem cmd_mem_typed:
  "slots_ok calloc_cmds \<and>
   (slots_ok m \<longrightarrow> i + length ts \<le> MAXARGS \<longrightarrow> slots_ok (store_tokens i ts m)) \<and>
   (slots_ok m \<longrightarrow> 0 < n \<longrightarrow> n \<le> MAXARGS \<longrightarrow> slots m ! (n - 1) \<noteq> None \<longrightarrow>
      (\<exists>m'. bg_free n m = Inr m' \<and> slots_ok m')) \<and>
   (slots_ok m \<longrightarrow> n \<le> MAXARGS \<longrightarrow> (\<exists>m'. cleanup i n m = Inr m' \<and> slots_ok m'))"
  using slots_ok_calloc slots_ok_store slots_ok_bg_free slots_ok_cleanup by blast

text \<open>C37: The argument vector has its terminator only below the bound: after \<open>tokenizeInput\<close>
  and \<open>checkIfBG\<close>, \<open>userCmds\<close> holds a NULL slot exactly when the line had fewer than 512
  tokens or ended in \<open>&\<close>. A line of 512 tokens leaves no NULL in the array, so \<open>execvp\<close>
  and the \<open>userCmds[i + 1]\<close> reads of \<open>checkReDirect\<close> run past its end.\<close>

theorem userCmds_terminator:
  assumes "mem_clean m" "toks \<noteq> []" "length toks \<le> MAXARGS"
  shows "\<exists>m2. bg_free (length toks) (store_tokens 0 toks m) = Inr m2
            \<and> (None \<in> set (cmd_view m2) \<longleftrightarrow> length toks < MAXARGS \<or> last toks = ''&'')"
proof (cases "last toks = ''&''")
  case True
  have "None \<in> set ((map Some toks @ replicate (MAXARGS - length toks) None)[length toks - 1 := None])"
    using assms(2) by (intro set_update_memI) (simp add: less_add_same_cancel1 diff_less trans_less_add1)
  then show ?thesis
    using True stored_bg_free [OF assms] cmd_view_bg_freed [OF assms] cmd_view_stored [OF assms(1,3)] by simp
next
  case False
  then show ?thesis using stored_bg_free [OF assms] cmd_view_stored [OF assms(1,3)] assms(3) by auto
qed

section \<open>Examples\<close>

theorem line_memory_clean_witness:
  "mem_clean calloc_cmds \<and> (\<exists>m'. line_memory [''sleep'', ''5'', ''&''] True calloc_cmds = Inr m' \<and> mem_clean m')"
proof -
  have c: "mem_clean calloc_cmds" by (simp add: mem_clean_def calloc_cmds_def)
  then show ?thesis using line_memory_clean [of calloc_cmds "[''sleep'', ''5'', ''&'']" True]
    by (simp add: MAXARGS_def)
qed

theorem cmd_view_checkIfBG_witness:
  "checkIfBG (map Some [''sleep'', ''5'', ''&'']) = Inr ([Some ''sleep'', Some ''5'', None], True)
   \<and> (\<exists>m2. bg_free (length [''sleep'', ''5'', ''&'']) (store_tokens 0 [''sleep'', ''5'', ''&''] calloc_cmds) = Inr m2
          \<and> cmd_view m2 = [Some ''sleep'', Some ''5'', None] @ replicate (MAXARGS - length [''sleep'', ''5'', ''&'']) None)"
proof -
  have c: "mem_clean calloc_cmds" by (simp add: mem_clean_def calloc_cmds_def)
  have b: "checkIfBG (map Some [''sleep'', ''5'', ''&'']) = Inr ([Some ''sleep'', Some ''5'', None], True)"
    by (simp add: checkIfBG_def)
  have "\<exists>m2. bg_free (length [''sleep'', ''5'', ''&'']) (store_tokens 0 [''sleep'', ''5'', ''&''] calloc_cmds) = Inr m2
          \<and> cmd_view m2 = [Some ''sleep'', Some ''5'', None] @ replicate (MAXARGS - length [''sleep'', ''5'', ''&'']) None"
    by (rule cmd_view_checkIfBG [OF c _ _ b]) (simp_all add: MAXARGS_def)
  with b show ?thesis by (rule conjI)
qed

theorem cmd_mem_typed_witness:
  "slots_ok (store_tokens 0 [''sleep'', ''&''] calloc_cmds)
   \<and> (\<exists>m'. bg_free 2 (store_tokens 0 [''sleep'', ''&''] calloc_cmds) = Inr m' \<and> slots_ok m')
   \<and> (\<exists>m'. cleanup 0 2 (store_tokens 0 [''sleep'', ''&''] calloc_cmds) = Inr m' \<and> slots_ok m')"
proof -
  have c: "slots_ok calloc_cmds" using cmd_mem_typed by blast
  have s: "slots_ok (store_tokens 0 [''sleep'', ''&''] calloc_cmds)"
    using c cmd_mem_typed [of calloc_cmds 0 "[''sleep'', ''&'']"] by (simp del: store_tokens.simps add: MAXARGS_def)
  have "slots (store_tokens 0 [''sleep'', ''&''] calloc_cmds) ! 1 = Some 1"
    by (simp add: calloc_cmds_def MAXARGS_def)
  then show ?thesis using s cmd_mem_typed [of "store_tokens 0 [''sleep'', ''&''] calloc_cmds" 0 "[]" 2]
    by (simp del: store_tokens.simps add: MAXARGS_def)
qed

theorem printInput_tokens_witness:
  "printInput (store_tokens 0 [''sleep'', ''&''] calloc_cmds) 2 =
     Inr (''tokenized input is:'' @ [NL] @ ''sleep'' @ [NL] @ ''&'' @ [NL])
   \<and> (\<exists>m2. bg_free 2 (store_tokens 0 [''sleep'', ''&''] calloc_cmds) = Inr m2 \<and> printInput m2 2 = Inl Null_deref)"
proof -
  have c: "mem_clean calloc_cmds" by (simp add: mem_clean_def calloc_cmds_def)
  have l: "length [''sleep'', ''&''] \<le> MAXARGS" by (simp add: MAXARGS_def)
  obtain m2 where b: "bg_free (length [''sleep'', ''&'']) (store_tokens 0 [''sleep'', ''&''] calloc_cmds) = Inr m2"
    using stored_bg_free [OF c _ l] by simp
  show ?thesis
    using printInput_tokens [OF c l, of m2] b
    by (simp del: store_tokens.simps add: numeral_2_eq_2)
qed

theorem userCmds_terminator_witness:
  "(\<exists>m2. bg_free 512 (store_tokens 0 (replicate 512 ''x'') calloc_cmds) = Inr m2 \<and> None \<notin> set (cmd_view m2))
   \<and> (\<exists>m2. bg_free 2 (store_tokens 0 [''sleep'', ''&''] calloc_cmds) = Inr m2 \<and> None \<in> set (cmd_view m2))"
proof -
  have c: "mem_clean calloc_cmds" by (simp add: mem_clean_def calloc_cmds_def)
  show ?thesis
    using userCmds_terminator [OF c, of "replicate 512 ''x''"] userCmds_terminator [OF c, of "[''sleep'', ''&'']"]
    by (simp del: store_tokens.simps add: MAXARGS_def numeral_2_eq_2)
qed

end
