(* ===== verification/Loop_Memory.thy ===== *)
theory Loop_Memory
  imports Shell_Loop Cmd_Array
begin

text \<open>
  The shell loop of src/smallsh.c together with the memory of its token array: one
  iteration (lines 623--711) is the loop model's \<open>shell_step\<close> and, for a line that is
  tokenized, the effect on \<open>userCmds\<close> of \<open>tokenizeInput\<close>, of the \<open>checkIfBG\<close> that
  only an external command reaches (lines 677--689), and of the cleanup loop. \<open>exit\<close>, an
  empty line and a comment leave \<open>cmdCount = 0\<close>, so the cleanup frees nothing (the
  \<open>continue\<close> of the empty and comment lines skips it altogether). \<open>expandPID\<close>
  rewrites the token blocks in place, so the blocks hold the expanded tokens. The loop
  with memory refines the loop model: projected to the shell state it is the same
  loop, and the memory is clean after each iteration.
\<close>

section \<open>The loop with its token memory\<close>

text \<open>Lines 677--689: \<open>checkIfBG\<close> runs only when the first token is neither \<open>cd\<close> nor \<open>status\<close>.\<close>

definition external_cmd :: "string list \<Rightarrow> bool" where
  "external_cmd toks \<longleftrightarrow> toks \<noteq> [] \<and> hd toks \<noteq> ''cd'' \<and> hd toks \<noteq> ''status''"

text \<open>Lines 646--711: the memory effect of one iteration on the line read.\<close>

definition iteration_memory :: "env \<Rightarrow> string \<Rightarrow> cmd_mem \<Rightarrow> fault + cmd_mem" where
  "iteration_memory e line m =
     (if line = ''exit'' \<or> line = [] \<or> hd line = CHR ''#'' then Inr m
      else
        (case tokenizeInput line of
           Inl f \<Rightarrow> Inl f
         | Inr toks \<Rightarrow>
             (case expandPID (shell_pid e) toks of
                Inl f \<Rightarrow> Inl f
              | Inr toks' \<Rightarrow> line_memory toks' (external_cmd toks') m)))"

text \<open>Lines 623--711: one read attempt, with the token memory.\<close>

definition mem_step :: "event \<Rightarrow> shell \<times> cmd_mem \<Rightarrow> (bool \<times> shell \<times> cmd_mem) res" where
  "mem_step ev sm =
     (case sm of (s, m) \<Rightarrow>
        res_bind (shell_step ev s) (\<lambda>(b, s1).
          case ev of
            Input raw e \<Rightarrow>
              res_bind (res_of_sum (chop_line raw)) (\<lambda>line.
              res_bind (res_of_sum (iteration_memory e line m)) (\<lambda>m1. Ok (b, s1, m1)))
          | _ \<Rightarrow> Ok (b, s1, m)))"

text \<open>Lines 600--722: the loop, and on \<open>exit\<close> the shutdown (the array itself is not freed).\<close>

fun mem_loop :: "event list \<Rightarrow> shell \<times> cmd_mem \<Rightarrow> (shell \<times> cmd_mem) res" where
  "mem_loop [] sm = Ok sm"
| "mem_loop (ev # evs) sm =
     (case mem_step ev sm of
        Ok (True, s1, m1) \<Rightarrow> res_map (\<lambda>s2. (s2, m1)) (shutdown s1)
      | Ok (False, s1, m1) \<Rightarrow> mem_loop evs (s1, m1)
      | Exit n out \<Rightarrow> Exit n out
      | UB f \<Rightarrow> UB f
      | Hang \<Rightarrow> Hang)"

section \<open>Refinement\<close>

lemma expandPID_length: "expandPID n toks = Inr toks' \<Longrightarrow> length toks' = length toks"
  by (induction toks arbitrary: toks') (auto split: sum.splits)

lemma tokenizeInput_length: "tokenizeInput line = Inr toks \<Longrightarrow> length toks \<le> MAXARGS"
  by (auto simp: tokenizeInput_def Let_def split: if_splits)

lemma run_command_tokens:
  assumes "run_command e line s = Ok r" "\<not> (line = ''exit'' \<or> line = [] \<or> hd line = CHR ''#'')"
  shows "\<exists>toks toks'. tokenizeInput line = Inr toks \<and> expandPID (shell_pid e) toks = Inr toks' \<and> toks' \<noteq> []"
proof -
  obtain toks toks' s1 where "tokenizeInput line = Inr toks" "expandPID (shell_pid e) toks = Inr toks'"
      "dispatch e toks' s = Ok s1"
    using assms by (auto simp: run_command_def)
  moreover have "toks' \<noteq> []" using calculation(3) by (cases toks') (simp_all add: dispatch_def)
  ultimately show ?thesis by blast
qed

lemma iteration_memory_clean:
  assumes "mem_clean m" "run_command e line s = Ok r"
  shows "\<exists>m'. iteration_memory e line m = Inr m' \<and> mem_clean m'"
proof (cases "line = ''exit'' \<or> line = [] \<or> hd line = CHR ''#''")
  case True
  then show ?thesis using assms(1) by (auto simp: iteration_memory_def)
next
  case False
  then obtain toks toks' where t: "tokenizeInput line = Inr toks" and x: "expandPID (shell_pid e) toks = Inr toks'"
    and ne: "toks' \<noteq> []"
    using run_command_tokens [OF assms(2)] by blast
  have "length toks' \<le> MAXARGS" using expandPID_length [OF x] tokenizeInput_length [OF t] by simp
  then show ?thesis using line_memory_cleans [OF assms(1) ne] False t x by (simp add: iteration_memory_def)
qed

lemma mem_step_refines:
  assumes "mem_clean m"
  shows "res_map (\<lambda>(b, s1, m1). (b, s1)) (mem_step ev (s, m)) = shell_step ev s
         \<and> (\<forall>b s1 m1. mem_step ev (s, m) = Ok (b, s1, m1) \<longrightarrow> mem_clean m1)"
proof (cases "shell_step ev s")
  case (Ok r)
  obtain b s1 where r: "r = (b, s1)" by (cases r)
  show ?thesis
  proof (cases ev)
    case (Input raw e)
    obtain line where c: "chop_line raw = Inr line" and rc: "run_command e line (printPrompt s) = Ok (b, s1)"
      using Ok r Input by auto
    obtain m' where i: "iteration_memory e line m = Inr m'" and cl: "mem_clean m'"
      using iteration_memory_clean [OF assms rc] by blast
    show ?thesis using Ok r Input c i cl by (simp add: mem_step_def)
  qed (use Ok r assms in \<open>simp_all add: mem_step_def\<close>)
qed (simp_all add: mem_step_def)

lemma res_map_shutdown: "res_map fst (res_map (\<lambda>s2. (s2, m1)) r) = r"
  by (cases r) simp_all

text \<open>C33: Running the loop with the memory of \<open>userCmds\<close> from an all-NULL array gives, on
  the shell state, exactly the loop model's run on any event sequence: the memory never
  faults (no double free, no token past the array), and when the events run out, after
  any number of iterations, the array is all NULL again with no token block allocated.\<close>

theorem mem_loop_refines:
  assumes "mem_clean m"
  shows "res_map fst (mem_loop evs (s, m)) = shellLoop evs s
         \<and> (\<forall>s' m'. mem_loop evs (s, m) = Ok (s', m') \<longrightarrow> mem_clean m')"
  using assms
proof (induction evs arbitrary: s m)
  case Nil
  then show ?case by simp
next
  case (Cons ev evs)
  note st = mem_step_refines [OF Cons.prems, of ev s]
  show ?case
  proof (cases "mem_step ev (s, m)")
    case (Ok r)
    obtain b s1 m1 where r: "r = (b, s1, m1)" by (cases r) auto
    have sh: "shell_step ev s = Ok (b, s1)" and c: "mem_clean m1" using st Ok r by auto
    show ?thesis
    proof (cases b)
      case True
      then show ?thesis using Ok r sh c by (cases "shutdown s1") (simp_all add: res_map_shutdown)
    next
      case False
      then show ?thesis using Ok r sh Cons.IH [OF c] by simp
    qed
  next
    case (Exit n out)
    then have "shell_step ev s = Exit n out" using st by simp
    then show ?thesis using \<open>mem_step ev (s, m) = Exit n out\<close> by simp
  next
    case (UB f)
    then have "shell_step ev s = UB f" using st by simp
    then show ?thesis using \<open>mem_step ev (s, m) = UB f\<close> by simp
  next
    case Hang
    then have "shell_step ev s = Hang" using st by simp
    then show ?thesis using \<open>mem_step ev (s, m) = Hang\<close> by simp
  qed
qed

section \<open>Examples\<close>

theorem mem_loop_refines_witness:
  "mem_clean calloc_cmds
   \<and> (\<exists>s' m'. mem_loop [Read_fail, Input (''# note'' @ [NL]) demo_env] (init_shell 100 ''/'', calloc_cmds) = Ok (s', m')
              \<and> shellLoop [Read_fail, Input (''# note'' @ [NL]) demo_env] (init_shell 100 ''/'') = Ok s'
              \<and> mem_clean m')"
proof -
  have c: "mem_clean calloc_cmds" by (simp add: mem_clean_def calloc_cmds_def)
  have "shellLoop [Read_fail, Input (''# note'' @ [NL]) demo_env] (init_shell 100 ''/'') =
          Ok (printPrompt (printPrompt (init_shell 100 ''/'')))"
    by (simp add: chop_line_def run_command_def reapChildren_empty printPrompt_def tty_write_def init_shell_def)
  moreover note r = mem_loop_refines [OF c, of "[Read_fail, Input (''# note'' @ [NL]) demo_env]" "init_shell 100 ''/''"]
  ultimately obtain s' m' where
      "mem_loop [Read_fail, Input (''# note'' @ [NL]) demo_env] (init_shell 100 ''/'', calloc_cmds) = Ok (s', m')"
      "shellLoop [Read_fail, Input (''# note'' @ [NL]) demo_env] (init_shell 100 ''/'') = Ok s'"
    by (cases "mem_loop [Read_fail, Input (''# note'' @ [NL]) demo_env] (init_shell 100 ''/'', calloc_cmds)") auto
  then show ?thesis using c r by blast
qed

end
