(* ===== verification/Spec2Isabelle.thy ===== *)
theory Spec2Isabelle
  imports Session Signals Loop_Memory
begin

text \<open>
  \<^bold>\<open>A verification model of smallsh.\<close> smallsh (src/smallsh.c, one C file) is a small
  interactive shell: it reads a line, expands \<open>$$\<close> to its pid, runs the built-ins
  \<open>exit\<close>, \<open>cd\<close> and \<open>status\<close> itself and forks any other command, with \<open><\<close>/\<open>>\<close>
  redirection done in the child and a trailing \<open>&\<close> asking for a background job; it keeps
  the background jobs in an array that a non-blocking reap pass polls after each line;
  \<open>SIGTSTP\<close> toggles a foreground-only mode. This development models that code as
  functions on an explicit state, over an abstract model of the POSIX calls it makes.

  \<^bold>\<open>Theories and what they model.\<close>
  \<^item> \<open>Shell_Prelude\<close>: the machine types (\<open>pid\<close>; \<open>wstatus\<close>, the \<open>int\<close> status word as a
    32-bit word), the result type \<open>'a res\<close> of an operation (\<open>Ok\<close> state, \<open>Exit\<close> with
    the exit code and all terminal output, \<open>UB\<close> with the kind of undefined behaviour,
    \<open>Hang\<close> for a call that never returns), decimal printing \<open>nat_str\<close> as \<open>printf("%d")\<close>
    does it, and shared lemmas.
  \<^item> \<open>Kernel\<close>: the operating system as the shell sees it, not code of the repository.
    A process table \<open>procs\<close> of children (running, stopped, or zombie with the status
    word they end with), \<open>waitpid\<close> with and without \<open>WNOHANG\<close> (\<open>None\<close> when a blocking
    wait would never return), \<open>kill(SIGTERM)\<close>, \<open>fork\<close> (\<open>spawn\<close>), the glibc status
    macros \<open>WIFEXITED\<close>/\<open>WEXITSTATUS\<close>/\<open>WIFSIGNALED\<close>/\<open>WTERMSIG\<close> on words with their
    decoding lemmas, and the record \<open>env\<close> of the answers the shell cannot compute
    (\<open>fork\<close>, \<open>open\<close>, \<open>execvp\<close>, \<open>getenv("HOME")\<close>, \<open>chdir\<close>, \<open>getpid\<close>, whether
    \<open>SIGTSTP\<close> interrupts a foreground wait and which children it stops).
  \<^item> \<open>Shell_State\<close>: the record \<open>shell\<close> (the global \<open>canRunBG\<close> and the locals of
    \<open>shellLoop\<close> that live across iterations: \<open>pidArray\<close>/\<open>pidCount\<close> as a list,
    \<open>childExitMethod\<close>) extending the kernel state; \<open>printPrompt\<close>, \<open>checkStatus\<close>,
    and the handler \<open>toggleBG\<close> with its fixed-length \<open>write\<close> calls.
  \<^item> \<open>Job_Registry\<close>: \<open>addPid\<close>, \<open>removePid\<close> (search loop and shift loop as two
    terminating functions), \<open>reapChildren\<close> (the index loop with \<open>i--\<close> after a removal,
    as \<open>partial_function (option)\<close>, since it does loop forever on a stale entry),
    \<open>killBG\<close> and \<open>reapBG\<close>; an abstract reap pass \<open>reap_spec\<close> and the registry
    invariant \<open>registry_ok\<close>.
  \<^item> \<open>Parser\<close>: \<open>tokenizeInput\<close> (the \<open>strtok\<close> loop, with the 50-byte token buffers and
    the 512 slots), \<open>expandPID\<close> (the \<open>strstr\<close>/\<open>strcat\<close> loop with its 40-byte
    \<open>post\<close> buffer, terminating by the number of \<open>$\<close>), \<open>checkIfBG\<close>; a reference
    \<open>subst_dd\<close> for the expansion.
  \<^item> \<open>Launcher\<close>: \<open>checkReDirect\<close> (per slot an input test then an output test, the
    stdout that a diagnostic reaches, the \<open>/dev/null\<close> defaults), the child path of
    \<open>forkAndExec\<close> (\<open>child_run\<close>: redirection, \<open>SIGINT\<close> disposition, \<open>execvp\<close> of the
    NULL-terminated prefix of the slots), the parent path (\<open>forkAndExec\<close>, \<open>fg_wait\<close>)
    and \<open>changeDirectory\<close>.
  \<^item> \<open>Shell_Loop\<close>: one loop iteration (\<open>chop_line\<close>, \<open>run_command\<close>, \<open>dispatch\<close>), the
    events between read attempts (a line, a failed read, \<open>SIGTSTP\<close> at the prompt, a
    child finishing), \<open>shell_step\<close>, \<open>shellLoop\<close> over a finite event sequence with the
    shutdown of \<open>main\<close>, and the inductive set \<open>reachable\<close> of states the loop reaches.
  \<^item> \<open>Signals\<close>: the \<open>struct sigaction\<close> values of \<open>main\<close> (\<open>ignore_action\<close>,
    \<open>normal_action\<close>, \<open>SIGTSTP_action\<close>, zero-initialised), the two \<open>sigaction\<close> calls
    of \<open>main\<close> and the one of the child in \<open>forkAndExec\<close>, as a table per process; the
    POSIX reset of caught signals at \<open>execvp\<close> and the default actions decide what a
    delivered \<open>SIGINT\<close> or \<open>SIGTSTP\<close> does.
  \<^item> \<open>Cmd_Array\<close>: the token array \<open>userCmds\<close> as memory: slots holding block numbers
    over a heap of token blocks, the \<open>calloc\<close> of the array, the \<open>calloc\<close> per token in
    \<open>tokenizeInput\<close>, the \<open>free\<close> of a final \<open>&\<close> in \<open>checkIfBG\<close> and the
    cleanup loop at the end of each iteration of \<open>shellLoop\<close>, and the debug printer
    \<open>printInput\<close> (whose calls are commented out), a \<open>free\<close> of a dead
    block being the fault \<open>Double_free\<close>; the typing \<open>slots_ok\<close> of the array (every
    non-NULL slot points to a live block of its own).
  \<^item> \<open>Loop_Memory\<close>: the loop carrying the memory of \<open>userCmds\<close>: per iteration the
    loop model's step and the token array's effect of \<open>tokenizeInput\<close>, \<open>checkIfBG\<close> (only
    for an external command) and the cleanup loop.
  \<^item> \<open>Session\<close>: whole runs of \<open>smallsh\<close> from the initial state, as chains of
    one-event lemmas over the loop.

  \<^bold>\<open>What is proved.\<close> The claims C1--C38 are in the component theories, each after a text
  naming it. The reap pass refines its specification and terminates exactly on a
  registry of unreaped children (C1, C4); the shift-down \<open>removePid\<close> is \<open>remove1\<close> (C5).
  Every reachable state satisfies the invariant \<open>shell_inv\<close> (registry well formed, at
  most 50 entries, pids fresh), shown by rule induction over \<open>reachable\<close> with one
  preservation lemma per operation (C2), and from a reachable state no event's
  processing hangs (C3). The launcher's contracts: background registration (C6), the
  foreground wait (C7), redirection in either order (C8) and the background defaults
  (C9). The parser: the expansion loop equals the reference replacement (C10), the
  tokenizer round trip (C11), \<open>checkIfBG\<close> (C12). The state: the handler's round trip
  (C13) and the status decoding (C14). Shutdown, when no job is stopped, terminates every
  running job by \<open>SIGTERM\<close> and collects every job, leaving the last one's termination
  status in \<open>childExitMethod\<close> (C15), and exit status 0 needs an \<open>exit\<close> line (C16).
  C17--C25 state the behaviours where the code departs from the spec or from safety:
  shutdown hangs on a stopped job, \<open>SIGTSTP\<close> during a foreground wait orphans the
  child, background reaping overwrites the status \<open>status\<close> prints, a line of spaces
  dereferences NULL, end of input loops forever, the 51st job and a long \<open>$$\<close> suffix
  overflow their buffers, a redirect diagnostic can vanish into the output file, and a
  leading \<open><\<close> makes the child segfault. The signal tables connect the child and the
  parent: the program a forked child becomes ignores \<open>SIGINT\<close> exactly when the parent
  registers it as a background job, so every job the shell waits for can be interrupted
  (C26). The token array: an iteration frees every token block exactly once and leaves
  the array all NULL (C27), and what the launcher reads through \<open>userCmds\<close> after
  \<open>checkIfBG\<close> is the slot list the parser model passes on, followed by NULL slots
  (C28); every operation on the array keeps it well typed and never frees a block twice
  (C29); \<open>printInput\<close> prints the tokens one per line right after tokenizing, and passes
  NULL to \<open>printf\<close> once \<open>checkIfBG\<close> has NULLed a final \<open>&\<close> (C32). Composed with the
  loop, the token memory refines the loop model: on every event sequence the loop with
  memory is the loop model on the shell state, never faults in memory, and ends with a
  clean array (C33). The redirection cases the spec leaves open: a trailing operator
  makes the child open the NULL slot and exit 1 with \<open>cannot open (null) ..\<close>, and of
  two output operators the last wins (C34). Two sessions of the spec's scenarios run end
  to end: a background job's notice, completion report and the shutdown (C30), and a
  background request honoured in the foreground while foreground-only mode is on, then
  in the background after the second \<open>SIGTSTP\<close> (C31). The built-in \<open>cd\<close> as a line: it
  changes directory without forking, and a failure exits the whole shell with status 1,
  the policy the spec flags (C35). From every reachable state a background job that has
  finished is reported and collected by the next line's reap pass (C36). Two bounds: the
  token array has its NULL terminator exactly when the line had fewer than 512 tokens or
  ended in \<open>&\<close> (C37), and \<open>$$\<close> becomes the pid only while it has at most eight digits
  (C38). The initial value \<open>-5\<close> of \<open>childExitMethod\<close> (read by the status macros as
  death by signal 123) is modelled in \<open>init_shell\<close> but is not a claim.

  \<^bold>\<open>Bounds and loops.\<close> The buffer sizes are the code's: 50 background pids, 512 token
  slots, 50-byte tokens, a 40-byte \<open>post\<close>, at most 8 pid digits; writing past them is
  the \<open>UB\<close> result, not a truncation. The loops over lists are structural or
  \<open>function\<close>s with a measure; the reap loop, which can run forever, is a
  \<open>partial_function (option)\<close>, and both that it returns (C1, C3) and when it does not
  (C4) are proved. A blocking \<open>waitpid\<close> on a stopped child is \<open>None\<close>/\<open>Hang\<close>. The
  event sequence is finite, so \<open>shellLoop\<close> is structural; a run that has not exited
  when the events end is \<open>Ok\<close>.

  \<^bold>\<open>Not modelled.\<close> The includes, and \<open>MAXINPUT\<close>, which only sizes the first buffer that
  \<open>getline\<close> grows as needed; the internals of \<open>getline\<close> (a line
  is the bytes it returns); the output of the programs the children become (a child is
  its status word and what it printed before \<open>exec\<close>); \<open>dup2\<close> failures and
  descriptor leaks; the text of \<open>strerror\<close> (a fixed placeholder); pid reuse by the
  kernel (pids increase); what the launcher does on a 512-token line (C37 shows that no NULL slot
  ends the array then; the launcher model reads a slot past the end as NULL, so its
  results for that line are not the code's, which reads past the array); \<open>SIGINT\<close>
  as an event (the shell ignores it, and its effect on a foreground child is that child's
  status word); signal delivery inside a step other than during \<open>getline\<close> and the
  foreground wait; \<open>userInput\<close>'s buffer (\<open>getline\<close> owns it) and its \<open>free\<close>.
\<close>

end
